(* ===== verification/Prelude.thy ===== *)
theory Prelude
  imports Main "HOL-Library.Word" "HOL-Library.AList"
begin

text \<open>
  Shared vocabulary of the development.

  \<^item> Machine types of the Rust sources: \<open>byte\<close> is \<open>u8\<close>, \<open>u32\<close>, \<open>u64\<close> and
    \<open>i32\<close> are words of their width (a signed value is carried by its two's complement bit
    pattern, so the casts \<open>as i32\<close> of the source are the identity on the pattern).
  \<^item> 32-byte hashes (\<open>BlockHash\<close>, \<open>Txid\<close>, \<open>Wtxid\<close>, \<open>TxMerkleNode\<close>) are byte lists;
    the only way from a wire field to a hash is \<open>to_array32\<close>, the \<open>try_into\<close> of the source.
  \<^item> \<open>result\<close> is Rust's \<open>Result\<close> with a third constructor for a panic of the running task.
  \<^item> \<open>dmap\<close> is the \<open>DashMap\<close>/\<open>HashMap\<close> of the source: an association list without
    duplicate keys. The list order stands for the iteration order of the hash map.
  \<^item> \<open>keyed_store\<close> is the interface that the clients of such maps rely on.
  \<^item> \<open>reach\<close> gives the reachable states of a step relation, with the locale
    \<open>invariant_system\<close> for invariants.
\<close>

named_theorems dmap_laws \<open>laws of the concurrent map operations\<close>
named_theorems hash_simps \<open>conversions between wire bytes and 32-byte hashes\<close>

section \<open>Machine types\<close>

type_synonym byte = "8 word"
type_synonym bytes = "byte list"
type_synonym u32 = "32 word"
type_synonym i32 = "32 word"
type_synonym u64 = "64 word"
type_synonym i64 = "64 word"

type_synonym block_hash = bytes
type_synonym txid = bytes
type_synonym wtxid = bytes
type_synonym merkle_node = bytes
type_synonym script = bytes

definition all_zeros :: block_hash where
  "all_zeros = replicate 32 0"

definition to_array32 :: "bytes \<Rightarrow> bytes option" where
  "to_array32 bs = (if length bs = 32 then Some bs else None)"

definition is_zero_hash :: "bytes \<Rightarrow> bool" where
  "is_zero_hash bs = list_all (\<lambda>b. b = 0) bs"

lemma to_array32_Some [hash_simps]: "to_array32 bs = Some h \<longleftrightarrow> length bs = 32 \<and> h = bs"
  by (auto simp: to_array32_def)

lemma to_array32_None [hash_simps]: "to_array32 bs = None \<longleftrightarrow> length bs \<noteq> 32"
  by (auto simp: to_array32_def)

lemma length_all_zeros [simp]: "length all_zeros = 32"
  by (simp add: all_zeros_def)

lemma is_zero_hash_replicate: "is_zero_hash bs \<longleftrightarrow> bs = replicate (length bs) 0"
  by (induction bs) (auto simp: is_zero_hash_def)

lemma is_zero_hash_all_zeros [hash_simps]:
  "length bs = 32 \<Longrightarrow> is_zero_hash bs \<longleftrightarrow> bs = all_zeros"
  by (simp add: is_zero_hash_replicate all_zeros_def)

section \<open>Results\<close>

datatype ('e, 'a) result = Ok 'a | Err 'e | Panic

fun map_err :: "('e \<Rightarrow> 'f) \<Rightarrow> ('e, 'a) result \<Rightarrow> ('f, 'a) result" where
  "map_err f (Ok a) = Ok a"
| "map_err f (Err e) = Err (f e)"
| "map_err f Panic = Panic"

fun rbind :: "('e, 'a) result \<Rightarrow> ('a \<Rightarrow> ('e, 'b) result) \<Rightarrow> ('e, 'b) result" where
  "rbind (Ok a) f = f a"
| "rbind (Err e) f = Err e"
| "rbind Panic f = Panic"

fun ok_or :: "'e \<Rightarrow> 'a option \<Rightarrow> ('e, 'a) result" where
  "ok_or e (Some a) = Ok a"
| "ok_or e None = Err e"

fun sum_result :: "('e \<Rightarrow> 'f) \<Rightarrow> 'e + 'a \<Rightarrow> ('f, 'a) result" where
  "sum_result f (Inl e) = Err (f e)"
| "sum_result f (Inr a) = Ok a"

lemma rbind_Ok_iff: "rbind r f = Ok b \<longleftrightarrow> (\<exists>a. r = Ok a \<and> f a = Ok b)"
  by (cases r) auto

lemma rbind_Err_iff: "rbind r f = Err e \<longleftrightarrow> r = Err e \<or> (\<exists>a. r = Ok a \<and> f a = Err e)"
  by (cases r) auto

lemma rbind_Panic_iff: "rbind r f = Panic \<longleftrightarrow> r = Panic \<or> (\<exists>a. r = Ok a \<and> f a = Panic)"
  by (cases r) auto

lemma map_err_Ok_iff [simp]: "map_err f r = Ok a \<longleftrightarrow> r = Ok a"
  by (cases r) auto

lemma map_err_Panic_iff [simp]: "map_err f r = Panic \<longleftrightarrow> r = Panic"
  by (cases r) auto

lemma map_err_Err_iff: "map_err f r = Err e' \<longleftrightarrow> (\<exists>e. r = Err e \<and> e' = f e)"
  by (cases r) auto

lemma ok_or_Ok_iff [simp]: "ok_or e x = Ok a \<longleftrightarrow> x = Some a"
  by (cases x) auto

lemma ok_or_Err_iff [simp]: "ok_or e x = Err e' \<longleftrightarrow> x = None \<and> e' = e"
  by (cases x) auto

lemma sum_result_iffs [simp]:
  "sum_result f x = Ok a \<longleftrightarrow> x = Inr a" "sum_result f x \<noteq> Panic"
  by (cases x; simp)+

lemma ok_or_no_Panic [simp]: "ok_or e x \<noteq> Panic"
  by (cases x) auto

lemmas rbind_iffs = rbind_Ok_iff rbind_Err_iff rbind_Panic_iff

section \<open>Stateful results\<close>

type_synonym ('s, 'e, 'a) st = "'s \<Rightarrow> ('e, 'a) result \<times> 's"

definition io_return :: "'a \<Rightarrow> ('s, 'e, 'a) st" where
  "io_return a w = (Ok a, w)"

definition io_fail :: "'e \<Rightarrow> ('s, 'e, 'a) st" where
  "io_fail e w = (Err e, w)"

definition io_bind :: "('s, 'e, 'a) st \<Rightarrow> ('a \<Rightarrow> ('s, 'e, 'b) st) \<Rightarrow> ('s, 'e, 'b) st" where
  "io_bind m f w =
     (case m w of
        (Ok a, w') \<Rightarrow> f a w'
      | (Err e, w') \<Rightarrow> (Err e, w')
      | (Panic, w') \<Rightarrow> (Panic, w'))"

definition io_lift :: "('e, 'a) result \<Rightarrow> ('s, 'e, 'a) st" where
  "io_lift r w = (r, w)"

lemma io_bind_Ok_iff: "io_bind m f w = (Ok b, w'') \<longleftrightarrow> (\<exists>a w'. m w = (Ok a, w') \<and> f a w' = (Ok b, w''))"
  by (auto simp: io_bind_def split: prod.splits result.splits)

lemma io_bind_no_Panic:
  "(\<And>w w'. m w \<noteq> (Panic, w')) \<Longrightarrow> (\<And>a w w'. f a w \<noteq> (Panic, w')) \<Longrightarrow> io_bind m f w \<noteq> (Panic, w')"
  by (auto simp: io_bind_def split: prod.splits result.splits)

lemma io_return_no_Panic [simp]: "io_return a w \<noteq> (Panic, w')"
  by (simp add: io_return_def)

section \<open>Concurrent maps\<close>

type_synonym ('k, 'v) dmap = "('k \<times> 'v) list"

definition dm_empty :: "('k, 'v) dmap" where
  "dm_empty = []"

definition dm_get :: "('k, 'v) dmap \<Rightarrow> 'k \<Rightarrow> 'v option" where
  "dm_get m k = map_of m k"

definition dm_insert :: "'k \<Rightarrow> 'v \<Rightarrow> ('k, 'v) dmap \<Rightarrow> ('k, 'v) dmap" where
  "dm_insert k v m = AList.update k v m"

definition dm_remove :: "'k \<Rightarrow> ('k, 'v) dmap \<Rightarrow> ('k, 'v) dmap" where
  "dm_remove k m = AList.delete k m"

definition dm_retain :: "('k \<Rightarrow> 'v \<Rightarrow> bool) \<Rightarrow> ('k, 'v) dmap \<Rightarrow> ('k, 'v) dmap" where
  "dm_retain P m = filter (\<lambda>(k, v). P k v) m"

definition dm_len :: "('k, 'v) dmap \<Rightarrow> nat" where
  "dm_len m = length m"

definition dm_wf :: "('k, 'v) dmap \<Rightarrow> bool" where
  "dm_wf m = distinct (map fst m)"

lemma dm_get_empty [simp, dmap_laws]: "dm_get dm_empty k = None"
  by (simp add: dm_get_def dm_empty_def)

lemma dm_get_Nil [simp]: "dm_get [] k = None"
  by (simp add: dm_get_def)

lemma dm_get_Cons [simp]: "dm_get ((a, b) # m) k = (if k = a then Some b else dm_get m k)"
  by (simp add: dm_get_def)

lemma dm_get_insert [simp, dmap_laws]:
  "dm_get (dm_insert k v m) k' = (if k' = k then Some v else dm_get m k')"
  by (simp add: dm_get_def dm_insert_def update_conv')

lemma dm_get_remove [simp, dmap_laws]:
  "dm_get (dm_remove k m) k' = (if k' = k then None else dm_get m k')"
  by (simp add: dm_get_def dm_remove_def delete_conv')

lemma dm_wf_empty [simp, dmap_laws]: "dm_wf dm_empty"
  by (simp add: dm_wf_def dm_empty_def)

lemma dm_wf_insert [simp, dmap_laws]: "dm_wf m \<Longrightarrow> dm_wf (dm_insert k v m)"
  by (simp add: dm_wf_def dm_insert_def distinct_update)

lemma dm_wf_remove [simp, dmap_laws]: "dm_wf m \<Longrightarrow> dm_wf (dm_remove k m)"
  by (simp add: dm_wf_def dm_remove_def distinct_delete)

lemma dm_wf_retain [simp, dmap_laws]: "dm_wf m \<Longrightarrow> dm_wf (dm_retain P m)"
  unfolding dm_wf_def dm_retain_def by (rule distinct_map_filter)

lemma dm_get_Some_iff: "dm_wf m \<Longrightarrow> dm_get m k = Some v \<longleftrightarrow> (k, v) \<in> set m"
  by (simp add: dm_wf_def dm_get_def)

lemma dm_get_retain [dmap_laws]:
  "dm_wf m \<Longrightarrow> dm_get (dm_retain P m) k =
     (case dm_get m k of None \<Rightarrow> None | Some v \<Rightarrow> if P k v then Some v else None)"
proof (induction m)
  case Nil
  then show ?case by (simp add: dm_get_def dm_retain_def)
next
  case (Cons kv m)
  obtain a b where kv: "kv = (a, b)" by (cases kv)
  from Cons.prems have wf: "dm_wf m" and notin: "a \<notin> fst ` set m"
    by (auto simp: dm_wf_def kv)
  from notin have "map_of m a = None"
    by (simp add: map_of_eq_None_iff)
  with Cons.IH [OF wf] show ?case
    by (auto simp: kv dm_get_def dm_retain_def split: option.splits)
qed

lemma dm_len_insert [dmap_laws]:
  "dm_wf m \<Longrightarrow> dm_len (dm_insert k v m) = (if dm_get m k = None then Suc (dm_len m) else dm_len m)"
proof (induction m)
  case Nil
  then show ?case by (simp add: dm_len_def dm_insert_def dm_get_def)
next
  case (Cons kv m)
  then show ?case
    by (cases kv) (auto simp: dm_len_def dm_insert_def dm_get_def dm_wf_def)
qed

lemma dm_len_retain: "dm_len (dm_retain P m) + dm_len (dm_retain (\<lambda>k v. \<not> P k v) m) = dm_len m"
  by (induction m) (auto simp: dm_len_def dm_retain_def)

lemma dm_len_0_iff [dmap_laws]: "dm_len m = 0 \<longleftrightarrow> m = dm_empty"
  by (simp add: dm_len_def dm_empty_def)

lemma dm_empty_iff_get: "m = dm_empty \<longleftrightarrow> (\<forall>k. dm_get m k = None)"
proof
  assume none: "\<forall>k. dm_get m k = None"
  have "set m = {}"
    using none by (auto simp: dm_get_def map_of_eq_None_iff)
  then show "m = dm_empty" by (simp add: dm_empty_def)
qed simp

lemma dm_len_remove [dmap_laws]:
  assumes "dm_wf m"
  shows "dm_len (dm_remove k m) = (if dm_get m k = None then dm_len m else dm_len m - 1)"
  using assms
proof (induction m)
  case Nil
  then show ?case by (simp add: dm_len_def dm_remove_def dm_get_def)
next
  case (Cons kv m)
  obtain a b where kv: "kv = (a, b)" by (cases kv)
  from Cons.prems have wf: "dm_wf m" and notin: "a \<notin> fst ` set m"
    by (auto simp: dm_wf_def kv)
  from notin have del: "AList.delete a m = m" by (rule delete_id)
  have pos: "dm_get m k \<noteq> None \<Longrightarrow> 0 < length m" by (cases m) (auto simp: dm_get_def)
  from Cons.IH [OF wf] del pos show ?case
    by (auto simp: kv dm_len_def dm_remove_def dm_get_def)
qed

section \<open>The interface of a keyed store\<close>

text \<open>
  What the caches of the engine promise: a lookup after every operation, well-formedness kept by
  every operation, and the entry count. The lemmas inside the locale are used for every store of
  the engine (declared jobs, recent solutions, pending requests, payout bindings).
\<close>

locale keyed_store =
  fixes empty :: "'m"
    and get :: "'m \<Rightarrow> 'k \<Rightarrow> 'v option"
    and insert :: "'k \<Rightarrow> 'v \<Rightarrow> 'm \<Rightarrow> 'm"
    and remove :: "'k \<Rightarrow> 'm \<Rightarrow> 'm"
    and retain :: "('k \<Rightarrow> 'v \<Rightarrow> bool) \<Rightarrow> 'm \<Rightarrow> 'm"
    and size :: "'m \<Rightarrow> nat"
    and wf :: "'m \<Rightarrow> bool"
  assumes get_empty: "get empty k = None"
    and get_insert: "wf m \<Longrightarrow> get (insert k v m) k' = (if k' = k then Some v else get m k')"
    and get_remove: "wf m \<Longrightarrow> get (remove k m) k' = (if k' = k then None else get m k')"
    and get_retain: "wf m \<Longrightarrow> get (retain P m) k =
           (case get m k of None \<Rightarrow> None | Some v \<Rightarrow> if P k v then Some v else None)"
    and size_empty_iff: "wf m \<Longrightarrow> size m = 0 \<longleftrightarrow> (\<forall>k. get m k = None)"
    and size_insert: "wf m \<Longrightarrow>
           size (insert k v m) = (if get m k = None then Suc (size m) else size m)"
    and size_remove: "wf m \<Longrightarrow>
           size (remove k m) = (if get m k = None then size m else size m - 1)"
    and wf_empty: "wf empty"
    and wf_insert: "wf m \<Longrightarrow> wf (insert k v m)"
    and wf_remove: "wf m \<Longrightarrow> wf (remove k m)"
    and wf_retain: "wf m \<Longrightarrow> wf (retain P m)"
begin

lemmas store_laws = get_empty get_insert get_remove get_retain wf_empty wf_insert wf_remove
  wf_retain

lemma take_once: "wf m \<Longrightarrow> get (remove k m) k = None"
  by (simp add: get_remove)

lemma insert_take: "wf m \<Longrightarrow> get (insert k v m) k = Some v"
  by (simp add: get_insert)

lemma remove_insert: "wf m \<Longrightarrow> get (remove k (insert k v m)) = get (remove k m)"
  by (rule ext) (simp add: store_laws)

lemma insert_insert: "wf m \<Longrightarrow> get (insert k v (insert k w m)) = get (insert k v m)"
  by (rule ext) (simp add: store_laws)

lemma retain_all: "wf m \<Longrightarrow> (\<And>k v. get m k = Some v \<Longrightarrow> P k v) \<Longrightarrow> get (retain P m) = get m"
  by (rule ext) (auto simp: get_retain split: option.splits)

lemma retain_none:
  assumes "wf m" and "\<And>k v. get m k = Some v \<Longrightarrow> \<not> P k v"
  shows "size (retain P m) = 0"
proof -
  have "\<forall>k. get (retain P m) k = None"
    using assms by (auto simp: get_retain split: option.splits)
  then show ?thesis using assms(1) by (simp add: size_empty_iff wf_retain)
qed

lemma retain_Some_iff: "wf m \<Longrightarrow> get (retain P m) k = Some v \<longleftrightarrow> get m k = Some v \<and> P k v"
  by (auto simp: get_retain split: option.splits)

lemma retain_retain:
  "wf m \<Longrightarrow> get (retain P (retain Q m)) = get (retain (\<lambda>k v. P k v \<and> Q k v) m)"
  by (rule ext) (auto simp: get_retain wf_retain split: option.splits)

lemma size_remove_insert:
  "wf m \<Longrightarrow> get m k = None \<Longrightarrow> size (remove k (insert k v m)) = size m"
  by (simp add: size_remove size_insert get_insert wf_insert)

end

interpretation dm: keyed_store dm_empty dm_get dm_insert dm_remove dm_retain dm_len dm_wf
  by unfold_locales
    (auto simp: dm_get_retain dm_len_insert dm_len_remove dm_len_0_iff dm_empty_iff_get)

section \<open>Reachable states\<close>

inductive reach :: "('s \<Rightarrow> bool) \<Rightarrow> ('s \<Rightarrow> 's \<Rightarrow> bool) \<Rightarrow> 's \<Rightarrow> bool"
  for start :: "'s \<Rightarrow> bool" and step :: "'s \<Rightarrow> 's \<Rightarrow> bool" where
  reach_start: "start s \<Longrightarrow> reach start step s"
| reach_step: "reach start step s \<Longrightarrow> step s t \<Longrightarrow> reach start step t"

locale invariant_system =
  fixes start :: "'s \<Rightarrow> bool"
    and step :: "'s \<Rightarrow> 's \<Rightarrow> bool"
    and inv :: "'s \<Rightarrow> bool"
  assumes inv_start: "start s \<Longrightarrow> inv s"
    and inv_step: "inv s \<Longrightarrow> step s t \<Longrightarrow> inv t"
begin

lemma inv_reach: "reach start step s \<Longrightarrow> inv s"
  by (induction rule: reach.induct) (auto intro: inv_start inv_step)

lemma inv_steps: "step\<^sup>*\<^sup>* s t \<Longrightarrow> inv s \<Longrightarrow> inv t"
  by (induction rule: rtranclp_induct) (auto intro: inv_step)

end

section \<open>Refinement\<close>

text \<open>
  A functional refinement: an abstraction function, events that the concrete system runs, and for each
  event the label under which the abstract system makes its step. The locale lifts the law of one
  event to every run whose events are allowed where they happen.
\<close>

fun trace_ok :: "('ev \<Rightarrow> 'c \<Rightarrow> bool) \<Rightarrow> ('ev \<Rightarrow> 'c \<Rightarrow> 'c) \<Rightarrow> 'ev list \<Rightarrow> 'c \<Rightarrow> bool" where
  "trace_ok ok run [] c = True"
| "trace_ok ok run (ev # evs) c = (ok ev c \<and> trace_ok ok run evs (run ev c))"

fun trace_labels :: "('ev \<Rightarrow> 'c \<Rightarrow> 'l) \<Rightarrow> ('ev \<Rightarrow> 'c \<Rightarrow> 'c) \<Rightarrow> 'ev list \<Rightarrow> 'c \<Rightarrow> 'l list" where
  "trace_labels label run [] c = []"
| "trace_labels label run (ev # evs) c = label ev c # trace_labels label run evs (run ev c)"

locale refinement =
  fixes abs :: "'c \<Rightarrow> 'a"
    and inv :: "'c \<Rightarrow> bool"
    and ok :: "'ev \<Rightarrow> 'c \<Rightarrow> bool"
    and run :: "'ev \<Rightarrow> 'c \<Rightarrow> 'c"
    and label :: "'ev \<Rightarrow> 'c \<Rightarrow> 'l"
    and spec :: "'l \<Rightarrow> 'a \<Rightarrow> 'a"
  assumes run_inv: "inv c \<Longrightarrow> ok ev c \<Longrightarrow> inv (run ev c)"
    and run_abs: "inv c \<Longrightarrow> ok ev c \<Longrightarrow> abs (run ev c) = spec (label ev c) (abs c)"
begin

lemma simulates:
  "inv c \<Longrightarrow> trace_ok ok run evs c \<Longrightarrow>
     inv (fold run evs c) \<and> abs (fold run evs c) = fold spec (trace_labels label run evs c) (abs c)"
  by (induction evs arbitrary: c) (simp_all add: run_inv run_abs)

end

end
