(* ===== verification/Bitcoin_Types.thy ===== *)
theory Bitcoin_Types
  imports Prelude
begin

text \<open>
  The \<open>bitcoin\<close> crate's data the sources build and read, the SV2 messages they receive, and the
  record \<open>externals\<close>: the functions of third-party crates the sources call (consensus decoding
  and encoding, hashing, Unicode normalisation). They are parameters of the model; what a theorem
  relies on of them is a named hypothesis on the record (\<open>varint_laws\<close>, \<open>hash_width\<close>).
\<close>

section \<open>Transactions and blocks\<close>

record out_point =
  op_txid :: txid
  op_vout :: u32

record tx_in =
  previous_output :: out_point
  script_sig :: bytes
  sequence :: u32
  witness :: "bytes list"

record tx_out =
  txo_value :: u64
  script_pubkey :: script

record transaction =
  tx_version :: i32
  lock_time :: u32
  tx_input :: "tx_in list"
  tx_output :: "tx_out list"

record header =
  hdr_version :: i32
  prev_blockhash :: block_hash
  merkle_root :: merkle_node
  hdr_time :: u32
  hdr_bits :: u32
  hdr_nonce :: u32

record block =
  blk_header :: header
  txdata :: "transaction list"

datatype network = Bitcoin | Testnet | Testnet4 | Signet | Regtest

section \<open>Third-party functions\<close>

record externals =
  decode_tx :: "bytes \<Rightarrow> transaction option"
  decode_varint :: "bytes \<Rightarrow> u64 option"
  varint_size :: "u64 \<Rightarrow> nat"
  compute_txid :: "transaction \<Rightarrow> txid"
  sha256d :: "bytes \<Rightarrow> bytes"
  header_hash :: "header \<Rightarrow> block_hash"
  serialize_txouts :: "tx_out list \<Rightarrow> bytes"
  serialize_txout :: "tx_out \<Rightarrow> bytes"
  nfkc :: "string \<Rightarrow> string"
  map_iter :: "u32 list \<Rightarrow> u32 list"

text \<open>
  \<open>VarInt\<close> is Bitcoin's CompactSize: a decoded value occupies \<open>size()\<close> bytes, which are at the
  front of the input, because the decoder rejects non-minimal encodings. The decoder reads only
  those bytes.
\<close>

definition varint_laws :: "externals \<Rightarrow> bool" where
  "varint_laws X \<longleftrightarrow>
     (\<forall>bs n. decode_varint X bs = Some n \<longrightarrow> varint_size X n \<le> length bs) \<and>
     (\<forall>bs n rest. decode_varint X bs = Some n \<longrightarrow> decode_varint X (bs @ rest) = Some n)"

lemma varint_laws_size: "varint_laws X \<Longrightarrow> decode_varint X bs = Some n \<Longrightarrow> varint_size X n \<le> length bs"
  unfolding varint_laws_def by blast

lemma varint_laws_append:
  "varint_laws X \<Longrightarrow> decode_varint X bs = Some n \<Longrightarrow> decode_varint X (bs @ rest) = Some n"
  unfolding varint_laws_def by blast

definition hash_width :: "externals \<Rightarrow> bool" where
  "hash_width X \<longleftrightarrow> (\<forall>bs. length (sha256d X bs) = 32)"

text \<open>
  \<open>map_iter\<close> is the order in which a \<open>DashMap\<close> keyed by request ids visits its keys: unspecified,
  but every key once.
\<close>

definition iter_laws :: "externals \<Rightarrow> bool" where
  "iter_laws X \<longleftrightarrow> (\<forall>ks. set (map_iter X ks) = set ks)"

definition txid_width :: "externals \<Rightarrow> bool" where
  "txid_width X \<longleftrightarrow> (\<forall>tx. length (compute_txid X tx) = 32)"

text \<open>
  Concrete CompactSize, little endian, with the minimality check: the instance of the
  two \<open>VarInt\<close> fields that the witnesses run.
\<close>

definition le_nat :: "bytes \<Rightarrow> nat" where
  "le_nat bs = foldr (\<lambda>b n. unat b + 256 * n) bs 0"

definition compact_size_len :: "u64 \<Rightarrow> nat" where
  "compact_size_len n =
     (if unat n < 253 then 1 else if unat n < 65536 then 3 else if unat n < 4294967296 then 5 else 9)"

definition compact_size_take :: "nat \<Rightarrow> nat \<Rightarrow> bytes \<Rightarrow> u64 option" where
  "compact_size_take w least bs =
     (if length bs < w then None
      else let n = le_nat (take w bs) in if n < least then None else Some (word_of_nat n))"

definition compact_size_decode :: "bytes \<Rightarrow> u64 option" where
  "compact_size_decode bs =
     (case bs of
        [] \<Rightarrow> None
      | b # rest \<Rightarrow>
          if b = 253 then compact_size_take 2 253 rest
          else if b = 254 then compact_size_take 4 65536 rest
          else if b = 255 then compact_size_take 8 4294967296 rest
          else Some (ucast b))"

lemma le_nat_Nil [simp]: "le_nat [] = 0"
  by (simp add: le_nat_def)

lemma le_nat_Cons [simp]: "le_nat (b # bs) = unat b + 256 * le_nat bs"
  by (simp add: le_nat_def)

lemma le_nat_bound: "le_nat bs < 256 ^ length bs"
proof (induction bs)
  case Nil
  then show ?case by simp
next
  case (Cons b bs)
  have "unat b < 256" using unsigned_less [of b, where ?'a = nat] by simp
  moreover have "256 * le_nat bs + 256 \<le> 256 * 256 ^ length bs" using Cons by simp
  ultimately show ?case by simp
qed

lemma compact_size_take_Some:
  assumes "compact_size_take w least bs = Some n" and "w \<le> 8"
  shows "w \<le> length bs" and "unat n = le_nat (take w bs)" and "least \<le> unat n"
    and "unat n < 256 ^ w"
proof -
  from assms(1) have len: "w \<le> length bs" and least: "least \<le> le_nat (take w bs)"
    and n: "n = word_of_nat (le_nat (take w bs))"
    by (auto simp: compact_size_take_def Let_def not_less split: if_splits)
  have small: "le_nat (take w bs) < 256 ^ w"
    using le_nat_bound [of "take w bs"] len by (simp add: min_absorb2)
  also have "(256::nat) ^ w \<le> 256 ^ 8" using assms(2) by (intro power_increasing) auto
  finally have "le_nat (take w bs) < 2 ^ 64" by simp
  then show u: "unat n = le_nat (take w bs)"
    by (simp add: n unat_of_nat)
  show "w \<le> length bs" by (rule len)
  show "least \<le> unat n" using u least by simp
  show "unat n < 256 ^ w" using u small by simp
qed

lemma compact_size_take_len:
  assumes "compact_size_take w least rest = Some n" and "w = 2 \<and> least = 253 \<or> w = 4 \<and> least = 65536
    \<or> w = 8 \<and> least = 4294967296"
  shows "compact_size_len n \<le> Suc (length rest)"
proof -
  from assms(2) have "w \<le> 8" by auto
  note t = compact_size_take_Some [OF assms(1) this]
  from t(3,4) assms(2) have "compact_size_len n = Suc w"
    by (auto simp: compact_size_len_def)
  with t(1) show ?thesis by simp
qed

lemma small_byte: "(b::byte) \<noteq> 253 \<Longrightarrow> b \<noteq> 254 \<Longrightarrow> b \<noteq> 255 \<Longrightarrow> unat b < 253"
  by unat_arith simp

lemma compact_size_decode_len:
  assumes "compact_size_decode bs = Some n"
  shows "compact_size_len n \<le> length bs"
proof (cases bs)
  case Nil
  with assms show ?thesis by (simp add: compact_size_decode_def)
next
  case (Cons b rest)
  have tiny: "compact_size_len (ucast b) = 1" if "b \<noteq> 253" "b \<noteq> 254" "b \<noteq> 255"
    using small_byte [OF that] by (simp add: compact_size_len_def unsigned_ucast_eq unsigned_take_bit_eq take_bit_nat_eq_self)
  show ?thesis
    using assms tiny unfolding compact_size_decode_def Cons
    by (auto split: if_splits dest: compact_size_take_len)
qed

lemma compact_size_take_append:
  "compact_size_take w least bs = Some n \<Longrightarrow> compact_size_take w least (bs @ rest) = Some n"
  by (auto simp: compact_size_take_def Let_def split: if_splits)

lemma compact_size_decode_append:
  "compact_size_decode bs = Some n \<Longrightarrow> compact_size_decode (bs @ rest) = Some n"
  by (cases bs) (auto simp: compact_size_decode_def compact_size_take_append split: if_splits)

lemma compact_size_varint_laws:
  "decode_varint X = compact_size_decode \<Longrightarrow> varint_size X = compact_size_len \<Longrightarrow> varint_laws X"
  by (simp add: varint_laws_def compact_size_decode_len compact_size_decode_append)

section \<open>A concrete instance\<close>

text \<open>
  \<open>sample_ext\<close> instantiates every parameter by a computable function, so that the witnesses of
  theorems with hypotheses on the parameters can be evaluated. Its transaction decoder reads the
  scriptSig of a single input at the offset that the coinbase layout prescribes and fails on short
  input; its hash is a byte checksum repeated over 32 bytes.
\<close>

definition sample_coinbase :: "bytes \<Rightarrow> transaction" where
  "sample_coinbase sig =
     \<lparr>tx_version = 2, lock_time = 0,
      tx_input = [\<lparr>previous_output = \<lparr>op_txid = all_zeros, op_vout = 4294967295\<rparr>,
                  script_sig = sig, sequence = 4294967295, witness = []\<rparr>],
      tx_output = []\<rparr>"

definition sample_decode_tx :: "bytes \<Rightarrow> transaction option" where
  "sample_decode_tx bs =
     (case compact_size_decode (drop 43 bs) of
        None \<Rightarrow> None
      | Some n \<Rightarrow>
          let off = 43 + compact_size_len n
          in if length bs < off + unat n then None
             else Some (sample_coinbase (take (unat n) (drop off bs))))"

definition sample_sum :: "bytes \<Rightarrow> byte" where
  "sample_sum bs = foldr (\<lambda>b a. 3 * a + b + 1) bs 0"

definition sample_hash :: "bytes \<Rightarrow> bytes" where
  "sample_hash bs = replicate 32 (sample_sum bs)"

definition sample_txid :: "transaction \<Rightarrow> txid" where
  "sample_txid tx = sample_hash (concat (map script_sig (tx_input tx)))"

definition sample_ext :: externals where
  "sample_ext =
     \<lparr>decode_tx = sample_decode_tx,
      decode_varint = compact_size_decode,
      varint_size = compact_size_len,
      compute_txid = sample_txid,
      sha256d = sample_hash,
      header_hash = (\<lambda>h. sample_hash (prev_blockhash h @ merkle_root h)),
      serialize_txouts = (\<lambda>os. word_of_nat (length os) # concat (map script_pubkey os)),
      serialize_txout = (\<lambda>t. replicate 8 0 @ word_of_nat (length (script_pubkey t)) # script_pubkey t),
      nfkc = (\<lambda>s. s),
      map_iter = (\<lambda>ks. ks)\<rparr>"

lemma sample_ext_sel [simp]:
  "decode_tx sample_ext = sample_decode_tx"
  "decode_varint sample_ext = compact_size_decode"
  "varint_size sample_ext = compact_size_len"
  "compute_txid sample_ext = sample_txid"
  "sha256d sample_ext = sample_hash"
  "nfkc sample_ext = (\<lambda>s. s)"
  "map_iter sample_ext = (\<lambda>ks. ks)"
  by (simp_all add: sample_ext_def)

lemma sample_ext_laws [simp]:
  "varint_laws sample_ext" "hash_width sample_ext" "txid_width sample_ext" "iter_laws sample_ext"
  by (simp_all add: compact_size_varint_laws hash_width_def txid_width_def iter_laws_def
      sample_hash_def sample_txid_def)

end
