(* ===== verification/Coinbase.thy ===== *)
theory Coinbase
  imports Bitcoin_Types
begin

text \<open>
  \<open>crates/sv2-p2pool-engine/src/coinbase.rs\<close>: reassembly of the declared coinbase from prefix,
  extranonce and suffix, and the Merkle branch of the coinbase. The loops over the Merkle levels
  are total functions; \<open>calc_hash\<close> is the recursive reference definition of a Merkle node that
  the loops are proved equal to.
\<close>

section \<open>Coinbase reconstruction\<close>

datatype coinbase_error =
    PrefixTooShort
  | BadScriptSigVarInt
  | ScriptSigOverflow
  | ExtranonceSizeMismatch nat nat
  | Decode

definition coinbase_prefix_len :: nat where
  "coinbase_prefix_len = 43"

text \<open>A \<open>Vec<u8>\<close> panics when its capacity would exceed \<open>isize::MAX\<close> bytes.\<close>

definition isize_max :: nat where
  "isize_max = 2 ^ 63 - 1"

definition script_sig_hole :: "externals \<Rightarrow> bytes \<Rightarrow> (coinbase_error, nat) result" where
  "script_sig_hole X prefix =
     (if length prefix < coinbase_prefix_len then Err PrefixTooShort
      else case decode_varint X (drop coinbase_prefix_len prefix) of
        None \<Rightarrow> Err BadScriptSigVarInt
      | Some n \<Rightarrow>
          let script_sig_size = unat n;
              script_sig_offset = coinbase_prefix_len + varint_size X n
          in if length prefix < script_sig_offset then Err PrefixTooShort
             else let in_prefix = length prefix - script_sig_offset
                  in if in_prefix > script_sig_size then Err ScriptSigOverflow
                     else Ok (script_sig_size - in_prefix))"

definition decode_coinbase :: "externals \<Rightarrow> bytes \<Rightarrow> (coinbase_error, transaction) result" where
  "decode_coinbase X bs = ok_or Decode (decode_tx X bs)"

definition reconstruct_coinbase ::
  "externals \<Rightarrow> bytes \<Rightarrow> bytes \<Rightarrow> (coinbase_error, transaction) result" where
  "reconstruct_coinbase X prefix suffix =
     rbind (script_sig_hole X prefix) (\<lambda>full_extranonce_size.
       if length prefix + full_extranonce_size + length suffix > isize_max then Panic
       else decode_coinbase X (prefix @ replicate full_extranonce_size 0 @ suffix))"

definition reconstruct_coinbase_with_extranonce ::
  "externals \<Rightarrow> bytes \<Rightarrow> bytes \<Rightarrow> bytes \<Rightarrow> (coinbase_error, transaction) result" where
  "reconstruct_coinbase_with_extranonce X prefix extranonce suffix =
     rbind (script_sig_hole X prefix) (\<lambda>expected.
       if length extranonce \<noteq> expected
       then Err (ExtranonceSizeMismatch expected (length extranonce))
       else if length prefix + length extranonce + length suffix > isize_max then Panic
       else decode_coinbase X (prefix @ extranonce @ suffix))"

section \<open>Merkle levels\<close>

definition merkle_hash :: "externals \<Rightarrow> merkle_node \<Rightarrow> merkle_node \<Rightarrow> merkle_node" where
  "merkle_hash X left right = sha256d X (left @ right)"

definition div_ceil2 :: "nat \<Rightarrow> nat" where
  "div_ceil2 n = (n + 1) div 2"

definition next_level :: "externals \<Rightarrow> merkle_node list \<Rightarrow> merkle_node list" where
  "next_level X hashes =
     map (\<lambda>idx. merkle_hash X (hashes ! (2 * idx)) (hashes ! min (2 * idx + 1) (length hashes - 1)))
       [0..<div_ceil2 (length hashes)]"

lemma length_next_level [simp]: "length (next_level X hs) = div_ceil2 (length hs)"
  by (simp add: next_level_def)

lemma div_ceil2_less: "1 < n \<Longrightarrow> div_ceil2 n < n"
  by (simp add: div_ceil2_def)

lemma div_ceil2_pos: "0 < n \<Longrightarrow> 0 < div_ceil2 n"
  by (simp add: div_ceil2_def)

function merkle_branch_loop ::
  "externals \<Rightarrow> merkle_node list \<Rightarrow> merkle_node list \<Rightarrow> merkle_node list" where
  "merkle_branch_loop X hashes branch =
     (if length hashes > 1
      then merkle_branch_loop X (next_level X hashes) (branch @ [hashes ! 1])
      else branch)"
  by pat_completeness auto
termination
  by (relation "measure (\<lambda>(X, hashes, branch). length hashes)") (auto simp: div_ceil2_less)

definition merkle_path :: "externals \<Rightarrow> txid \<Rightarrow> txid list \<Rightarrow> merkle_node list" where
  "merkle_path X coinbase_txid txid_list =
     (let hashes = coinbase_txid # txid_list
      in if length hashes = 1 then [] else merkle_branch_loop X hashes [])"

function merkle_root_loop :: "externals \<Rightarrow> merkle_node list \<Rightarrow> merkle_node" where
  "merkle_root_loop X hashes =
     (if length hashes > 1 then merkle_root_loop X (next_level X hashes) else hashes ! 0)"
  by pat_completeness auto
termination
  by (relation "measure (\<lambda>(X, hashes). length hashes)") (auto simp: div_ceil2_less)

declare merkle_branch_loop.simps [simp del] merkle_root_loop.simps [simp del]

definition compute_merkle_root_from_txids :: "externals \<Rightarrow> txid \<Rightarrow> txid list \<Rightarrow> merkle_node" where
  "compute_merkle_root_from_txids X coinbase_txid txid_list =
     (let hashes = coinbase_txid # txid_list
      in if hashes = [] then all_zeros else merkle_root_loop X hashes)"

section \<open>Reference definition of a Merkle tree\<close>

text \<open>
  Node \<open>pos\<close> at height \<open>h\<close> over the leaves \<open>ls\<close>, by recursion on the height: the row of height
  \<open>h\<close> has \<open>tree_width\<close> nodes, and a node without right sibling is paired with itself.
\<close>

fun tree_width :: "nat \<Rightarrow> nat \<Rightarrow> nat" where
  "tree_width 0 n = n"
| "tree_width (Suc h) n = div_ceil2 (tree_width h n)"

fun calc_hash :: "externals \<Rightarrow> merkle_node list \<Rightarrow> nat \<Rightarrow> nat \<Rightarrow> merkle_node" where
  "calc_hash X ls 0 pos = ls ! pos"
| "calc_hash X ls (Suc h) pos =
     merkle_hash X (calc_hash X ls h (2 * pos))
       (if 2 * pos + 1 < tree_width h (length ls) then calc_hash X ls h (2 * pos + 1)
        else calc_hash X ls h (2 * pos))"

function tree_height :: "nat \<Rightarrow> nat" where
  "tree_height n = (if n \<le> 1 then 0 else Suc (tree_height (div_ceil2 n)))"
  by pat_completeness auto
termination
  by (relation "measure id") (auto simp: div_ceil2_less)

declare tree_height.simps [simp del]

section \<open>The loops compute the reference tree\<close>

lemma next_level_nth:
  assumes "idx < div_ceil2 (length hs)"
  shows "next_level X hs ! idx =
    merkle_hash X (hs ! (2 * idx))
      (if 2 * idx + 1 < length hs then hs ! (2 * idx + 1) else hs ! (2 * idx))"
proof -
  have last: "length hs - 1 = 2 * idx" if "\<not> 2 * idx + 1 < length hs"
    using assms that by (simp add: div_ceil2_def)
  have "min (2 * idx + 1) (length hs - 1) = (if 2 * idx + 1 < length hs then 2 * idx + 1 else 2 * idx)"
    using last by auto
  then show ?thesis using assms unfolding next_level_def by (simp del: min_less_iff_conj)
qed

lemma tree_width_shift: "tree_width h (div_ceil2 n) = div_ceil2 (tree_width h n)"
  by (induction h) auto

lemma tree_width_pos: "0 < n \<Longrightarrow> 0 < tree_width h n"
  by (induction h) (auto simp: div_ceil2_pos)

lemma calc_hash_next_level:
  "pos < tree_width h (div_ceil2 (length ls)) \<Longrightarrow>
   calc_hash X (next_level X ls) h pos = calc_hash X ls (Suc h) pos"
proof (induction h arbitrary: pos)
  case 0
  then show ?case by (simp add: next_level_nth)
next
  case (Suc h)
  from Suc.prems have bound: "2 * pos < tree_width h (div_ceil2 (length ls))"
    by (simp add: div_ceil2_def)
  have left: "calc_hash X (next_level X ls) h (2 * pos) = calc_hash X ls (Suc h) (2 * pos)"
    using bound by (rule Suc.IH)
  have right: "calc_hash X (next_level X ls) h (2 * pos + 1) = calc_hash X ls (Suc h) (2 * pos + 1)"
    if "2 * pos + 1 < tree_width h (div_ceil2 (length ls))"
    using that by (rule Suc.IH)
  show ?case
    using left right by (simp add: tree_width_shift)
qed

lemma merkle_root_loop_calc_hash:
  "hs \<noteq> [] \<Longrightarrow> merkle_root_loop X hs = calc_hash X hs (tree_height (length hs)) 0"
proof (induction X hs rule: merkle_root_loop.induct)
  case (1 X hs)
  show ?case
  proof (cases "length hs > 1")
    case True
    then have ne: "next_level X hs \<noteq> []"
      using 1(2) by (metis div_ceil2_pos length_greater_0_conv length_next_level)
    have "merkle_root_loop X hs = merkle_root_loop X (next_level X hs)"
      using True by (subst merkle_root_loop.simps) simp
    also have "\<dots> = calc_hash X (next_level X hs) (tree_height (div_ceil2 (length hs))) 0"
      using 1(1) [OF True ne] by simp
    also have "\<dots> = calc_hash X hs (Suc (tree_height (div_ceil2 (length hs)))) 0"
      using 1(2) by (intro calc_hash_next_level tree_width_pos) (simp add: div_ceil2_pos)
    also have "Suc (tree_height (div_ceil2 (length hs))) = tree_height (length hs)"
      using True by (subst (2) tree_height.simps) simp
    finally show ?thesis .
  next
    case False
    then show ?thesis
      by (subst merkle_root_loop.simps) (simp add: tree_height.simps [of "length hs"])
  qed
qed

lemma merkle_branch_loop_acc:
  "merkle_branch_loop X hs (acc @ branch) = acc @ merkle_branch_loop X hs branch"
proof (induction X hs branch rule: merkle_branch_loop.induct)
  case (1 X hs branch)
  show ?case
  proof (cases "length hs > 1")
    case True
    then show ?thesis
      using 1 [OF True] by (simp add: merkle_branch_loop.simps [of X hs])
  next
    case False
    then show ?thesis by (simp add: merkle_branch_loop.simps [of X hs])
  qed
qed

lemma merkle_branch_loop_unfold:
  "merkle_branch_loop X hs [] =
     (if length hs > 1 then hs ! 1 # merkle_branch_loop X (next_level X hs) [] else [])"
  using merkle_branch_loop_acc [of X "next_level X hs" "[hs ! 1]" "[]"]
  by (simp add: merkle_branch_loop.simps [of X hs])

lemma merkle_path_loop: "merkle_path X cb txids = merkle_branch_loop X (cb # txids) []"
  by (simp add: merkle_path_def merkle_branch_loop_unfold)

lemma merkle_root_loop_txids:
  "compute_merkle_root_from_txids X cb txids = merkle_root_loop X (cb # txids)"
  by (simp add: compute_merkle_root_from_txids_def)

lemma foldl_branch_root:
  "hs \<noteq> [] \<Longrightarrow> foldl (merkle_hash X) (hs ! 0) (merkle_branch_loop X hs []) = merkle_root_loop X hs"
proof (induction X hs rule: merkle_root_loop.induct)
  case (1 X hs)
  show ?case
  proof (cases "length hs > 1")
    case True
    then have "next_level X hs \<noteq> []"
      using 1(2) by (metis div_ceil2_pos length_greater_0_conv length_next_level)
    moreover have "next_level X hs ! 0 = merkle_hash X (hs ! 0) (hs ! 1)"
      using True by (subst next_level_nth) (auto simp: div_ceil2_def)
    ultimately show ?thesis
      using 1(1) [OF True] True
      by (simp add: merkle_branch_loop_unfold [of X hs] merkle_root_loop.simps [of X hs])
  next
    case False
    then show ?thesis
      by (simp add: merkle_branch_loop_unfold [of X hs] merkle_root_loop.simps [of X hs])
  qed
qed

lemma length_branch_loop: "length (merkle_branch_loop X hs []) = tree_height (length hs)"
proof (induction X hs rule: merkle_root_loop.induct)
  case (1 X hs)
  show ?case
  proof (cases "length hs > 1")
    case True
    with 1 show ?thesis
      by (simp add: merkle_branch_loop_unfold [of X hs] tree_height.simps [of "length hs"])
  next
    case False
    then show ?thesis
      by (simp add: merkle_branch_loop_unfold [of X hs] tree_height.simps [of "length hs"])
  qed
qed

lemma tree_height_bounds:
  "1 < n \<Longrightarrow> 2 ^ (tree_height n - 1) < n \<and> n \<le> 2 ^ tree_height n \<and> 0 < tree_height n"
proof (induction n rule: tree_height.induct)
  case (1 n)
  have unfold: "tree_height n = Suc (tree_height (div_ceil2 n))"
    using "1.prems" by (simp add: tree_height.simps [of n])
  show ?case
  proof (cases "1 < div_ceil2 n")
    case True
    from 1(1) [OF _ True] "1.prems"
    have IH: "2 ^ (tree_height (div_ceil2 n) - 1) < div_ceil2 n"
      "div_ceil2 n \<le> 2 ^ tree_height (div_ceil2 n)" "0 < tree_height (div_ceil2 n)"
      by auto
    from IH(3) have "2 ^ tree_height (div_ceil2 n) = 2 * (2::nat) ^ (tree_height (div_ceil2 n) - 1)"
      by (cases "tree_height (div_ceil2 n)") auto
    with IH show ?thesis by (simp add: unfold div_ceil2_def) linarith
  next
    case False
    with "1.prems" have n: "n = 2" by (simp add: div_ceil2_def)
    then have "div_ceil2 n = 1" by (simp add: div_ceil2_def)
    then show ?thesis by (simp add: unfold n) (simp add: tree_height.simps)
  qed
qed

lemma wide_row: "h < tree_height n \<Longrightarrow> 1 < tree_width h n"
proof (induction n arbitrary: h rule: tree_height.induct)
  case (1 n)
  from 1(2) have gt: "1 < n" by (auto simp: tree_height.simps [of n] split: if_splits)
  show ?case
  proof (cases h)
    case 0
    with gt show ?thesis by simp
  next
    case (Suc k)
    with 1(2) gt have "k < tree_height (div_ceil2 n)" by (simp add: tree_height.simps [of n])
    with 1(1) gt have "1 < tree_width k (div_ceil2 n)" by simp
    then show ?thesis by (simp add: Suc tree_width_shift)
  qed
qed

lemma next_level_hash_width:
  "hash_width X \<Longrightarrow> h \<in> set (next_level X hs) \<Longrightarrow> length h = 32"
  by (auto simp: next_level_def merkle_hash_def hash_width_def)

section \<open>Properties\<close>

text \<open>
  C8: hashing the coinbase txid up through the branch that \<open>merkle_path\<close> returns gives exactly
  the Merkle root that \<open>compute_merkle_root_from_txids\<close> computes over the same transaction list:
  the branch compared against \<open>SetCustomMiningJob.merkle_path\<close> and the root put into the
  submitted header always agree.
\<close>

theorem merkle_path_yields_root:
  "foldl (merkle_hash X) cb (merkle_path X cb txids) = compute_merkle_root_from_txids X cb txids"
  using foldl_branch_root [of "cb # txids" X] by (simp add: merkle_path_loop merkle_root_loop_txids)

text \<open>
  C7: the level-by-level loop computes the root of the reference Merkle tree (recursion on the
  height, the last node of an odd row paired with itself) over the coinbase and the other txids.
\<close>

theorem merkle_root_is_tree_root:
  "compute_merkle_root_from_txids X cb txids =
     calc_hash X (cb # txids) (tree_height (Suc (length txids))) 0"
  using merkle_root_loop_calc_hash [of "cb # txids" X] by (simp add: merkle_root_loop_txids)

lemma branch_loop_nth:
  "h < tree_height (length hs) \<Longrightarrow> merkle_branch_loop X hs [] ! h = calc_hash X hs h 1"
proof (induction X hs arbitrary: h rule: merkle_root_loop.induct)
  case (1 X hs)
  from 1(2) have gt: "length hs > 1" by (auto simp: tree_height.simps [of "length hs"] split: if_splits)
  show ?case
  proof (cases h)
    case 0
    with gt show ?thesis by (simp add: merkle_branch_loop_unfold [of X hs])
  next
    case (Suc k)
    with 1(2) gt have k: "k < tree_height (length (next_level X hs))"
      by (simp add: tree_height.simps [of "length hs"])
    have wide: "1 < tree_width k (div_ceil2 (length hs))"
      using wide_row [OF k] by simp
    have "calc_hash X (next_level X hs) k 1 = calc_hash X hs (Suc k) 1"
      using wide by (rule calc_hash_next_level)
    with 1(1) [OF gt k] Suc gt show ?thesis
      by (simp add: merkle_branch_loop_unfold [of X hs] del: calc_hash.simps)
  qed
qed

text \<open>
  the branch has one entry per level of the tree, that is the least number of levels whose
  capacity holds all transactions, and entry \<open>h\<close> is the right sibling of the coinbase's ancestor
  at height \<open>h\<close>.
\<close>

lemma merkle_path_siblings:
  assumes "txids \<noteq> []"
  shows "length (merkle_path X cb txids) = tree_height (Suc (length txids))
    \<and> Suc (length txids) \<le> 2 ^ length (merkle_path X cb txids)
    \<and> 2 ^ (length (merkle_path X cb txids) - 1) < Suc (length txids)
    \<and> (\<forall>h < length (merkle_path X cb txids). merkle_path X cb txids ! h = calc_hash X (cb # txids) h 1)"
proof -
  have "1 < Suc (length txids)" using assms by simp
  from tree_height_bounds [OF this] show ?thesis
    using branch_loop_nth [of _ "cb # txids" X] by (simp add: merkle_path_loop length_branch_loop)
qed

theorem merkle_path_siblings_witness:
  "length (merkle_path sample_ext [1] [[2], [3]]) = 2
   \<and> merkle_path sample_ext [1] [[2], [3]] ! 0 = [2]
   \<and> merkle_path sample_ext [1] [[2], [3]] ! 1 = merkle_hash sample_ext [3] [3]"
proof -
  have h: "tree_height (Suc (Suc (Suc 0))) = 2" by (simp add: tree_height.simps div_ceil2_def)
  have "[[2], [3 :: byte]] \<noteq> []" by simp
  note sib = merkle_path_siblings [OF this, of sample_ext "[1]"]
  from sib have len: "length (merkle_path sample_ext [1] [[2], [3]]) = 2"
    by (simp add: h)
  with sib have "merkle_path sample_ext [1] [[2], [3]] ! 0 = calc_hash sample_ext [[1], [2], [3]] 0 1"
    and "merkle_path sample_ext [1] [[2], [3]] ! 1 = calc_hash sample_ext [[1], [2], [3]] 1 1"
    by auto
  with len show ?thesis by simp
qed

lemma script_sig_hole_Ok_iff:
  "script_sig_hole X prefix = Ok k \<longleftrightarrow>
     coinbase_prefix_len \<le> length prefix \<and>
     (\<exists>n. decode_varint X (drop coinbase_prefix_len prefix) = Some n \<and>
          coinbase_prefix_len + varint_size X n \<le> length prefix \<and>
          length prefix - (coinbase_prefix_len + varint_size X n) + k = unat n)"
  by (auto simp: script_sig_hole_def Let_def not_less split: option.splits)

lemma script_sig_hole_no_Panic [simp]: "script_sig_hole X prefix \<noteq> Panic"
  by (auto simp: script_sig_hole_def Let_def split: option.splits)

lemma with_extranonce_Ok_iff:
  "reconstruct_coinbase_with_extranonce X prefix en suffix = Ok tx \<longleftrightarrow>
     script_sig_hole X prefix = Ok (length en) \<and>
     length prefix + length en + length suffix \<le> isize_max \<and>
     decode_tx X (prefix @ en @ suffix) = Some tx"
  by (auto simp: reconstruct_coinbase_with_extranonce_def decode_coinbase_def rbind_iffs)

lemma reconstruct_coinbase_Ok_iff:
  "reconstruct_coinbase X prefix suffix = Ok tx \<longleftrightarrow>
     (\<exists>k. script_sig_hole X prefix = Ok k \<and>
          length prefix + k + length suffix \<le> isize_max \<and>
          decode_tx X (prefix @ replicate k 0 @ suffix) = Some tx)"
  by (auto simp: reconstruct_coinbase_def decode_coinbase_def rbind_iffs not_less split: if_splits)

text \<open>
  C21: splitting a serialized coinbase at its extranonce and reassembling it is the identity. For
  every 43-byte head, scriptSig length \<open>enc\<close>, scriptSig head, extranonce and tail that together
  decode to \<open>tx\<close>, \<open>reconstruct_coinbase_with_extranonce\<close> on the two halves and the extranonce
  returns \<open>tx\<close>, and on an extranonce of any other length it returns the size mismatch with both
  sizes.
\<close>

theorem coinbase_split_roundtrip:
  assumes "varint_laws X"
    and "length head = coinbase_prefix_len"
    and "decode_varint X enc = Some n" and "varint_size X n = length enc"
    and "length sig_head + length extranonce = unat n"
    and "length (head @ enc @ sig_head @ extranonce @ suffix) \<le> isize_max"
    and "decode_tx X (head @ enc @ sig_head @ extranonce @ suffix) = Some tx"
  shows "reconstruct_coinbase_with_extranonce X (head @ enc @ sig_head) extranonce suffix = Ok tx
    \<and> (\<forall>other. length other \<noteq> length extranonce \<longrightarrow>
         reconstruct_coinbase_with_extranonce X (head @ enc @ sig_head) other suffix =
           Err (ExtranonceSizeMismatch (length extranonce) (length other)))"
proof -
  have dec: "decode_varint X (enc @ sig_head) = Some n"
    using assms(1,3) by (rule varint_laws_append)
  have hole: "script_sig_hole X (head @ enc @ sig_head) = Ok (length extranonce)"
    using assms(2,4,5) dec by (auto simp: script_sig_hole_Ok_iff)
  show ?thesis
    using assms(6,7) by (simp add: with_extranonce_Ok_iff hole)
      (simp add: reconstruct_coinbase_with_extranonce_def hole)
qed

theorem coinbase_split_roundtrip_witness:
  "reconstruct_coinbase_with_extranonce sample_ext (replicate 43 0 @ [3] @ [7]) [8, 9] [] =
     Ok (sample_coinbase [7, 8, 9])"
proof -
  have v: "compact_size_decode [3] = Some 3" "compact_size_len 3 = 1"
    by (simp_all add: compact_size_decode_def compact_size_len_def)
  have d: "sample_decode_tx (replicate 43 0 @ [3] @ [7] @ [8, 9] @ []) = Some (sample_coinbase [7, 8, 9])"
    by (simp add: sample_decode_tx_def compact_size_decode_def compact_size_len_def)
  show ?thesis
    using coinbase_split_roundtrip [of sample_ext "replicate 43 0" "[3]" 3 "[7]" "[8, 9]" "[]"
        "sample_coinbase [7, 8, 9]"] v d
    by (simp add: coinbase_prefix_len_def isize_max_def)
qed

text \<open>
  \<open>reconstruct_coinbase\<close>, which fills the extranonce slot with zeros at declaration time, agrees
  with \<open>reconstruct_coinbase_with_extranonce\<close> on the all-zero extranonce of the implied size on
  every prefix that has a slot, and fails with the same error on every prefix that has none.
\<close>

lemma reconstruct_coinbase_zero_extranonce:
  "reconstruct_coinbase X prefix suffix =
     (case script_sig_hole X prefix of
        Ok k \<Rightarrow> reconstruct_coinbase_with_extranonce X prefix (replicate k 0) suffix
      | Err e \<Rightarrow> reconstruct_coinbase_with_extranonce X prefix [] suffix
      | Panic \<Rightarrow> Panic)"
  by (auto simp: reconstruct_coinbase_def reconstruct_coinbase_with_extranonce_def
      split: result.splits)

text \<open>
  the branches of \<open>reconstruct_coinbase\<close> on a prefix of at least 43 bytes whose scriptSig length decodes
  to \<open>n\<close>: the scriptSig overflow error when the prefix carries more scriptSig bytes than \<open>n\<close>, a panic of the
  handler task when the zero-filled vector would exceed \<open>isize::MAX\<close> bytes, and otherwise the decoder's
  verdict, as far as the vector can be allocated. The second \<open>PrefixTooShort\<close> check never fires.
\<close>

lemma reconstruct_coinbase_outcomes:
  assumes "varint_laws X" and "coinbase_prefix_len \<le> length prefix"
    and "decode_varint X (drop coinbase_prefix_len prefix) = Some n"
  shows "reconstruct_coinbase X prefix suffix =
    (if unat n < length prefix - (coinbase_prefix_len + varint_size X n) then Err ScriptSigOverflow
     else if coinbase_prefix_len + varint_size X n + unat n + length suffix > isize_max then Panic
     else decode_coinbase X
       (prefix @ replicate (unat n - (length prefix - (coinbase_prefix_len + varint_size X n))) 0
          @ suffix))"
proof -
  have "varint_size X n \<le> length (drop coinbase_prefix_len prefix)"
    using assms(1,3) by (rule varint_laws_size)
  then have fits: "coinbase_prefix_len + varint_size X n \<le> length prefix"
    using assms(2) by simp
  show ?thesis
    using assms(2,3) fits
    by (auto simp: reconstruct_coinbase_def script_sig_hole_def Let_def)
qed

theorem reconstruct_coinbase_outcomes_witness:
  "reconstruct_coinbase sample_ext (replicate 43 0 @ [255, 255, 255, 255, 255, 255, 255, 255, 255]) [] = Panic"
proof -
  have dec: "compact_size_decode ([255, 255, 255, 255, 255, 255, 255, 255, 255]) = Some 18446744073709551615"
    by (simp add: compact_size_decode_def compact_size_take_def)
  have len: "compact_size_len 18446744073709551615 = 9"
    by (simp add: compact_size_len_def)
  show ?thesis
    using reconstruct_coinbase_outcomes [of sample_ext "replicate 43 0 @ [255, 255, 255, 255, 255, 255, 255, 255, 255]"
        18446744073709551615 "[]"] dec len
    by (simp add: coinbase_prefix_len_def isize_max_def)
qed

end
