(* ===== verification/Job_Types.thy ===== *)
theory Job_Types
  imports Bitcoin_Types
begin

text \<open>
  The SV2 messages the engine receives (Job Declaration and Mining Protocol), the declared-job
  snapshot \<open>DeclaredJob\<close> and the tip metadata of \<open>crates/sv2-p2pool-engine/src/lib.rs\<close>. Fields of
  the wire type \<open>U256\<close> are byte strings; a handler that converts one to a hash goes through
  \<open>to_array32\<close>.
\<close>

type_synonym request_id = u32
type_synonym jd_token = u64

section \<open>Messages\<close>

record declare_mining_job =
  dmj_request_id :: request_id
  dmj_mining_job_token :: bytes
  dmj_version :: u32
  dmj_coinbase_tx_prefix :: bytes
  dmj_coinbase_tx_suffix :: bytes
  dmj_wtxid_list :: "bytes list"

record provide_missing_transactions_success =
  pmts_request_id :: request_id
  pmts_transaction_list :: "bytes list"

record set_custom_mining_job =
  scmj_version :: u32
  scmj_prev_hash :: bytes
  scmj_min_ntime :: u32
  scmj_nbits :: u32
  scmj_coinbase_tx_version :: u32
  scmj_coinbase_prefix :: bytes
  scmj_coinbase_tx_input_n_sequence :: u32
  scmj_coinbase_tx_outputs :: bytes
  scmj_coinbase_tx_locktime :: u32
  scmj_merkle_path :: "bytes list"

record push_solution =
  ps_extranonce :: bytes
  ps_prev_hash :: bytes
  ps_nonce :: u32
  ps_ntime :: u32
  ps_nbits :: u32
  ps_version :: u32

section \<open>Declared jobs\<close>

record tip_metadata =
  tip_prev_hash :: block_hash
  tip_nbits :: u32
  tip_min_ntime :: u32

definition default_tip :: tip_metadata where
  "default_tip = \<lparr>tip_prev_hash = all_zeros, tip_nbits = 0, tip_min_ntime = 0\<rparr>"

record declared_job =
  job_version :: u32
  job_coinbase_tx_prefix :: bytes
  job_coinbase_tx_suffix :: bytes
  job_wtxid_list :: "wtxid list"
  job_txid_list :: "txid list option"
  job_tip :: tip_metadata
  job_template_id :: "u64 option"
  job_share_chain_tip :: "block_hash option"
  job_validated :: bool
  job_allocated_token :: "jd_token option"

end
