(* ===== verification/Block_Recon.thy ===== *)
theory Block_Recon
  imports Coinbase Job_Types
begin

text \<open>
  \<open>crates/sv2-p2pool-engine/src/block.rs\<close>: the header and the block that a \<open>PushSolution\<close> stands
  for, and the candidate block handed to bitcoind's proposal validation.
\<close>

datatype block_reconstruct_error =
    DeclaredJobNotValidated
  | CoinbaseError coinbase_error
  | BadPrevHash
  | TxBodyCountMismatch nat nat
  | TxBodyTxidMismatch nat txid txid

definition solution_header :: "push_solution \<Rightarrow> block_hash \<Rightarrow> merkle_node \<Rightarrow> header" where
  "solution_header ps prev root =
     \<lparr>hdr_version = ps_version ps, prev_blockhash = prev, merkle_root = root,
      hdr_time = ps_ntime ps, hdr_bits = ps_nbits ps, hdr_nonce = ps_nonce ps\<rparr>"

definition reconstruct_header ::
  "externals \<Rightarrow> declared_job \<Rightarrow> push_solution \<Rightarrow> (block_reconstruct_error, header) result" where
  "reconstruct_header X job ps =
     rbind (ok_or DeclaredJobNotValidated (job_txid_list job)) (\<lambda>txid_list.
     rbind (map_err CoinbaseError
              (reconstruct_coinbase_with_extranonce X (job_coinbase_tx_prefix job)
                 (ps_extranonce ps) (job_coinbase_tx_suffix job))) (\<lambda>coinbase_tx.
     let root = compute_merkle_root_from_txids X (compute_txid X coinbase_tx) txid_list
     in rbind (ok_or BadPrevHash (to_array32 (ps_prev_hash ps))) (\<lambda>prev.
        Ok (solution_header ps prev root))))"

fun check_txids ::
  "externals \<Rightarrow> nat \<Rightarrow> transaction list \<Rightarrow> txid list \<Rightarrow> (nat \<times> txid \<times> txid) option" where
  "check_txids X idx (body # bodies) (expected # txids) =
     (let computed = compute_txid X body
      in if computed \<noteq> expected then Some (idx, expected, computed)
         else check_txids X (Suc idx) bodies txids)"
| "check_txids X idx _ _ = None"

definition check_bodies ::
  "externals \<Rightarrow> transaction list \<Rightarrow> txid list \<Rightarrow> (block_reconstruct_error, unit) result" where
  "check_bodies X tx_bodies txid_list =
     (if length tx_bodies \<noteq> length txid_list
      then Err (TxBodyCountMismatch (length txid_list) (length tx_bodies))
      else case check_txids X 0 tx_bodies txid_list of
        Some (idx, expected, got) \<Rightarrow> Err (TxBodyTxidMismatch idx expected got)
      | None \<Rightarrow> Ok ())"

definition reconstruct_block ::
  "externals \<Rightarrow> declared_job \<Rightarrow> push_solution \<Rightarrow> transaction list \<Rightarrow>
     (block_reconstruct_error, block) result" where
  "reconstruct_block X job ps tx_bodies =
     rbind (ok_or DeclaredJobNotValidated (job_txid_list job)) (\<lambda>txid_list.
     rbind (check_bodies X tx_bodies txid_list) (\<lambda>_.
     rbind (map_err CoinbaseError
              (reconstruct_coinbase_with_extranonce X (job_coinbase_tx_prefix job)
                 (ps_extranonce ps) (job_coinbase_tx_suffix job))) (\<lambda>coinbase_tx.
     let root = compute_merkle_root_from_txids X (compute_txid X coinbase_tx) txid_list
     in rbind (ok_or BadPrevHash (to_array32 (ps_prev_hash ps))) (\<lambda>prev.
        Ok \<lparr>blk_header = solution_header ps prev root, txdata = coinbase_tx # tx_bodies\<rparr>))))"

definition build_candidate_block ::
  "externals \<Rightarrow> declared_job \<Rightarrow> set_custom_mining_job \<Rightarrow> transaction list \<Rightarrow>
     (block_reconstruct_error, block) result" where
  "build_candidate_block X declared scmj tx_bodies =
     rbind (ok_or DeclaredJobNotValidated (job_txid_list declared)) (\<lambda>txid_list.
     rbind (check_bodies X tx_bodies txid_list) (\<lambda>_.
     rbind (map_err CoinbaseError
              (reconstruct_coinbase X (job_coinbase_tx_prefix declared)
                 (job_coinbase_tx_suffix declared))) (\<lambda>coinbase_tx.
     let root = compute_merkle_root_from_txids X (compute_txid X coinbase_tx) txid_list
     in rbind (ok_or BadPrevHash (to_array32 (scmj_prev_hash scmj))) (\<lambda>prev.
        Ok \<lparr>blk_header =
              \<lparr>hdr_version = scmj_version scmj, prev_blockhash = prev, merkle_root = root,
               hdr_time = scmj_min_ntime scmj, hdr_bits = scmj_nbits scmj, hdr_nonce = 0\<rparr>,
            txdata = coinbase_tx # tx_bodies\<rparr>))))"

section \<open>The transaction check\<close>

lemma check_txids_None_iff:
  "length bodies = length txids \<Longrightarrow>
   check_txids X idx bodies txids = None \<longleftrightarrow> map (compute_txid X) bodies = txids"
  by (induction X idx bodies txids rule: check_txids.induct) (auto simp: Let_def)

lemma check_txids_Some:
  "check_txids X idx bodies txids = Some (i, e, g) \<Longrightarrow>
   \<exists>k < length bodies. k < length txids \<and> i = idx + k \<and> e = txids ! k \<and> g = compute_txid X (bodies ! k)
     \<and> g \<noteq> e \<and> (\<forall>j < k. compute_txid X (bodies ! j) = txids ! j)"
proof (induction X idx bodies txids rule: check_txids.induct)
  case (1 X idx body bodies expected txids)
  show ?case
  proof (cases "compute_txid X body = expected")
    case True
    with 1 obtain k where "k < length bodies" "k < length txids" "i = Suc idx + k" "e = txids ! k"
      "g = compute_txid X (bodies ! k)" "g \<noteq> e" "\<forall>j < k. compute_txid X (bodies ! j) = txids ! j"
      by (auto simp: Let_def)
    with True show ?thesis
      by (intro exI [of _ "Suc k"]) (auto simp: less_Suc_eq_0_disj)
  next
    case False
    with 1(2) show ?thesis by (intro exI [of _ 0]) (auto simp: Let_def)
  qed
qed auto

lemma check_txids_self [simp]: "check_txids X idx bodies (map (compute_txid X) bodies) = None"
  by (simp add: check_txids_None_iff)

lemma check_bodies_Ok_iff [simp]:
  "check_bodies X bodies txids = Ok u \<longleftrightarrow> map (compute_txid X) bodies = txids"
  by (auto simp: check_bodies_def check_txids_None_iff split: option.splits)

lemma check_bodies_no_Panic [simp]: "check_bodies X bodies txids \<noteq> Panic"
  by (auto simp: check_bodies_def split: option.splits)

section \<open>Properties\<close>

text \<open>
  \<open>reconstruct_block\<close> succeeds exactly when the job has its txid list, the fetched transactions
  hash to that list in order, the coinbase reassembles with the solution's extranonce and the
  previous hash has 32 bytes; the block then carries the solution's header fields, the Merkle root
  over the coinbase and the declared txids, and the coinbase followed by the fetched transactions.
\<close>

lemma reconstruct_block_iff:
  "reconstruct_block X job ps bodies = Ok blk \<longleftrightarrow>
     job_txid_list job = Some (map (compute_txid X) bodies) \<and> length (ps_prev_hash ps) = 32 \<and>
     (\<exists>cb. reconstruct_coinbase_with_extranonce X (job_coinbase_tx_prefix job) (ps_extranonce ps)
             (job_coinbase_tx_suffix job) = Ok cb \<and>
           blk = \<lparr>blk_header = solution_header ps (ps_prev_hash ps)
                    (compute_merkle_root_from_txids X (compute_txid X cb) (map (compute_txid X) bodies)),
                  txdata = cb # bodies\<rparr>)"
  by (auto simp: reconstruct_block_def rbind_iffs Let_def hash_simps)

text \<open>
  C2: the header of every block that \<open>reconstruct_block\<close> assembles commits to the block's own
  transactions: its Merkle root is the root of the reference Merkle tree over the txids of
  \<open>txdata\<close>. A template provider that returns other transactions than the declared ones never gets
  them into a submitted block.
\<close>

theorem reconstruct_block_commits:
  assumes "reconstruct_block X job ps bodies = Ok blk"
  shows "merkle_root (blk_header blk) =
      calc_hash X (map (compute_txid X) (txdata blk)) (tree_height (length (txdata blk))) 0
    \<and> job_txid_list job = Some (map (compute_txid X) (tl (txdata blk)))"
proof -
  from assms obtain cb where
    ids: "job_txid_list job = Some (map (compute_txid X) bodies)" and
    blk: "blk = \<lparr>blk_header = solution_header ps (ps_prev_hash ps)
                  (compute_merkle_root_from_txids X (compute_txid X cb) (map (compute_txid X) bodies)),
                txdata = cb # bodies\<rparr>"
    by (auto simp: reconstruct_block_def rbind_iffs Let_def hash_simps)
  have "compute_merkle_root_from_txids X (compute_txid X cb) (map (compute_txid X) bodies) =
      calc_hash X (map (compute_txid X) (cb # bodies)) (tree_height (Suc (length bodies))) 0"
    using merkle_root_loop_calc_hash [of "map (compute_txid X) (cb # bodies)" X]
    by (simp add: merkle_root_loop_txids)
  with ids show ?thesis by (simp add: blk solution_header_def)
qed

definition sample_job :: declared_job where
  "sample_job =
     \<lparr>job_version = 536870912, job_coinbase_tx_prefix = replicate 43 0 @ [3, 7],
      job_coinbase_tx_suffix = [], job_wtxid_list = [], job_txid_list = Some [],
      job_tip = \<lparr>tip_prev_hash = replicate 32 5, tip_nbits = 17, tip_min_ntime = 1\<rparr>,
      job_template_id = Some 4, job_share_chain_tip = Some (replicate 32 9),
      job_validated = True, job_allocated_token = Some 42\<rparr>"

definition sample_solution :: push_solution where
  "sample_solution =
     \<lparr>ps_extranonce = [8, 9], ps_prev_hash = replicate 32 5, ps_nonce = 1, ps_ntime = 2,
      ps_nbits = 17, ps_version = 536870912\<rparr>"

lemma sample_coinbase_decodes:
  "reconstruct_coinbase_with_extranonce sample_ext (replicate 43 0 @ [3, 7]) [8, 9] [] =
     Ok (sample_coinbase [7, 8, 9])"
  by (simp add: reconstruct_coinbase_with_extranonce_def script_sig_hole_def coinbase_prefix_len_def
      isize_max_def decode_coinbase_def sample_decode_tx_def compact_size_decode_def
      compact_size_len_def)

lemma sample_block:
  "reconstruct_block sample_ext sample_job sample_solution [] =
     Ok \<lparr>blk_header = solution_header sample_solution (replicate 32 5)
           (compute_merkle_root_from_txids sample_ext (compute_txid sample_ext (sample_coinbase [7, 8, 9])) []),
         txdata = [sample_coinbase [7, 8, 9]]\<rparr>"
  by (simp add: reconstruct_block_def sample_job_def sample_solution_def sample_coinbase_decodes
      rbind_iffs Let_def to_array32_def check_bodies_def)

theorem reconstruct_block_commits_witness:
  "\<exists>blk. reconstruct_block sample_ext sample_job sample_solution [] = Ok blk \<and>
     merkle_root (blk_header blk) =
      calc_hash sample_ext (map (compute_txid sample_ext) (txdata blk)) (tree_height (length (txdata blk))) 0"
  using reconstruct_block_commits [OF sample_block] sample_block by blast

text \<open>
  the header that \<open>reconstruct_header\<close> computes without the transaction bodies is the header of
  the block that \<open>reconstruct_block\<close> assembles from any acceptable bodies.
\<close>

lemma reconstruct_header_agrees:
  assumes "reconstruct_block X job ps bodies = Ok blk"
  shows "reconstruct_header X job ps = Ok (blk_header blk)"
  using assms by (auto simp: reconstruct_block_def reconstruct_header_def rbind_iffs Let_def)

theorem reconstruct_header_agrees_witness:
  "\<exists>h. reconstruct_header sample_ext sample_job sample_solution = Ok h"
  using reconstruct_header_agrees [OF sample_block] by blast

text \<open>
  the transaction check of \<open>reconstruct_block\<close> and \<open>build_candidate_block\<close> reports a count
  mismatch with both counts whenever the counts differ, and otherwise the first index whose txid
  differs, with the declared and the computed txid; everything before that index matches.
\<close>

lemma check_bodies_error:
  assumes "check_bodies X bodies txids = Err e"
  shows "(length bodies \<noteq> length txids \<and> e = TxBodyCountMismatch (length txids) (length bodies)) \<or>
    (length bodies = length txids \<and>
     (\<exists>k < length txids. e = TxBodyTxidMismatch k (txids ! k) (compute_txid X (bodies ! k)) \<and>
        compute_txid X (bodies ! k) \<noteq> txids ! k \<and>
        (\<forall>j < k. compute_txid X (bodies ! j) = txids ! j)))"
proof (cases "length bodies = length txids")
  case True
  with assms obtain i x g where some: "check_txids X 0 bodies txids = Some (i, x, g)"
    and e: "e = TxBodyTxidMismatch i x g"
    by (auto simp: check_bodies_def split: option.splits)
  from check_txids_Some [OF some] e True show ?thesis by auto
next
  case False
  with assms show ?thesis by (simp add: check_bodies_def)
qed

theorem check_bodies_error_witness:
  "compute_txid sample_ext (sample_coinbase [1]) \<noteq> [0] \<and>
   check_bodies sample_ext [sample_coinbase [1]] [[0]] =
     Err (TxBodyTxidMismatch 0 [0] (compute_txid sample_ext (sample_coinbase [1])))"
proof -
  have ne: "compute_txid sample_ext (sample_coinbase [1]) \<noteq> [0]"
    by (simp add: sample_txid_def sample_hash_def numeral_eq_Suc)
  then have err: "check_bodies sample_ext [sample_coinbase [1]] [[0]] =
     Err (TxBodyTxidMismatch 0 [0] (compute_txid sample_ext (sample_coinbase [1])))"
    by (simp add: check_bodies_def Let_def)
  from check_bodies_error [OF err] ne err show ?thesis by simp
qed

text \<open>
  the candidate block that bitcoind validates at \<open>SetCustomMiningJob\<close> time and the block a later
  \<open>PushSolution\<close> with an all-zero extranonce stands for have the same transactions and headers that
  differ in time and nonce only, whenever the solution repeats the custom job's version, previous
  hash and target: the proposal check is about the block that will be mined.
\<close>

lemma candidate_matches_solution:
  assumes "build_candidate_block X job scmj bodies = Ok cand"
    and "script_sig_hole X (job_coinbase_tx_prefix job) = Ok k"
    and "ps_extranonce ps = replicate k 0" and "ps_prev_hash ps = scmj_prev_hash scmj"
    and "ps_nbits ps = scmj_nbits scmj" and "ps_version ps = scmj_version scmj"
  shows "reconstruct_block X job ps bodies =
    Ok (cand\<lparr>blk_header := (blk_header cand)\<lparr>hdr_time := ps_ntime ps, hdr_nonce := ps_nonce ps\<rparr>\<rparr>)"
proof -
  have "reconstruct_coinbase X (job_coinbase_tx_prefix job) (job_coinbase_tx_suffix job) =
      reconstruct_coinbase_with_extranonce X (job_coinbase_tx_prefix job) (ps_extranonce ps)
        (job_coinbase_tx_suffix job)"
    using assms(2,3) by (simp add: reconstruct_coinbase_def reconstruct_coinbase_with_extranonce_def)
  with assms show ?thesis
    unfolding build_candidate_block_def reconstruct_block_def
    by (clarsimp simp: rbind_iffs Let_def solution_header_def hash_simps)
qed

definition sample_scmj :: set_custom_mining_job where
  "sample_scmj =
     \<lparr>scmj_version = 536870912, scmj_prev_hash = replicate 32 5, scmj_min_ntime = 1, scmj_nbits = 17,
      scmj_coinbase_tx_version = 2, scmj_coinbase_prefix = [7],
      scmj_coinbase_tx_input_n_sequence = 4294967295, scmj_coinbase_tx_outputs = [0],
      scmj_coinbase_tx_locktime = 0, scmj_merkle_path = []\<rparr>"

lemma two_zeros: "replicate 2 (0::byte) = [0, 0]"
  by (simp add: numeral_2_eq_2)

lemma sample_hole: "script_sig_hole sample_ext (replicate 43 0 @ [3, 7]) = Ok 2"
  by (simp add: script_sig_hole_def coinbase_prefix_len_def compact_size_decode_def
      compact_size_len_def)

lemma sample_zero_coinbase:
  "reconstruct_coinbase sample_ext (replicate 43 0 @ [3, 7]) [] = Ok (sample_coinbase [7, 0, 0])"
  by (simp add: reconstruct_coinbase_def sample_hole two_zeros isize_max_def decode_coinbase_def
      sample_decode_tx_def compact_size_decode_def compact_size_len_def)

lemma sample_candidate:
  "\<exists>cand. build_candidate_block sample_ext sample_job sample_scmj [] = Ok cand"
  by (simp add: build_candidate_block_def sample_job_def sample_scmj_def sample_zero_coinbase
      Let_def to_array32_def check_bodies_def)

theorem candidate_matches_solution_witness:
  "\<exists>blk. reconstruct_block sample_ext sample_job (sample_solution\<lparr>ps_extranonce := [0, 0]\<rparr>) [] = Ok blk"
proof -
  obtain cand where cand: "build_candidate_block sample_ext sample_job sample_scmj [] = Ok cand"
    using sample_candidate by blast
  have hole: "script_sig_hole sample_ext (job_coinbase_tx_prefix sample_job) = Ok 2"
    by (simp add: sample_job_def sample_hole)
  show ?thesis
    using candidate_matches_solution [OF cand hole, of "sample_solution\<lparr>ps_extranonce := [0, 0]\<rparr>"]
    by (simp add: sample_solution_def sample_scmj_def two_zeros)
qed

end
