(* ===== verification/Metrics.thy ===== *)
theory Metrics
  imports Prelude
begin

text \<open>
  \<open>crates/sv2-p2pool-engine/src/metrics.rs\<close>: the engine's Prometheus counters and gauges. A counter
  is the \<open>u64\<close> the crate keeps (it wraps), a gauge an \<open>i64\<close>, a labelled counter a map from label
  values, and the latency histogram is represented by its number of observations. The
  \<open>Registry\<close> is a third-party object: \<open>register\<close> takes its registration function as a parameter.
\<close>

datatype push_solution_drop_reason =
    NoMatchingJob | CacheRace | NoTemplateId | TdpFetchFailed | ReconstructFailed | NoHandles

fun drop_reason_str :: "push_solution_drop_reason \<Rightarrow> string" where
  "drop_reason_str NoMatchingJob = ''no_matching_job''"
| "drop_reason_str CacheRace = ''cache_race''"
| "drop_reason_str NoTemplateId = ''no_template_id''"
| "drop_reason_str TdpFetchFailed = ''tdp_fetch_failed''"
| "drop_reason_str ReconstructFailed = ''reconstruct_failed''"
| "drop_reason_str NoHandles = ''no_handles''"

datatype scmj_proposal_reject_reason = ConsensusRejected | ScmjRpcError

fun reject_reason_str :: "scmj_proposal_reject_reason \<Rightarrow> string" where
  "reject_reason_str ConsensusRejected = ''consensus_rejected''"
| "reject_reason_str ScmjRpcError = ''rpc_error''"

type_synonym counter_vec = "(string, u64) dmap"

record engine_metrics =
  declare_mining_job_accepted :: u64
  declare_mining_job_rejected :: u64
  declare_mining_job_missing_txns :: u64
  set_custom_mining_job_accepted :: u64
  set_custom_mining_job_rejected :: u64
  push_solution_received :: u64
  blocks_submitted :: u64
  blocks_submit_failed :: u64
  reorg_notifications :: u64
  jobs_invalidated_total :: u64
  push_solution_dropped :: counter_vec
  set_custom_mining_job_proposal_rejected :: counter_vec
  set_custom_mining_job_validation_seconds :: u64
  set_custom_mining_job_validation_skipped :: u64
  declared_jobs_cache_size :: i64
  recent_solutions_buffer_size :: i64
  sweeper_last_run_timestamp_seconds :: i64
  share_chain_tip_height :: i64

section \<open>Labelled counters\<close>

text \<open>
  \<open>with_label_values\<close> creates a missing child at zero; \<open>inc\<close> on the child adds one.
\<close>

definition with_label_values :: "string \<Rightarrow> counter_vec \<Rightarrow> counter_vec" where
  "with_label_values l v = (case dm_get v l of Some _ \<Rightarrow> v | None \<Rightarrow> dm_insert l 0 v)"

definition inc_label :: "string \<Rightarrow> counter_vec \<Rightarrow> counter_vec" where
  "inc_label l v = dm_insert l ((case dm_get v l of Some n \<Rightarrow> n | None \<Rightarrow> 0) + 1) v"

definition label_value :: "counter_vec \<Rightarrow> string \<Rightarrow> u64" where
  "label_value v l = (case dm_get v l of Some n \<Rightarrow> n | None \<Rightarrow> 0)"

definition record_push_solution_drop :: "push_solution_drop_reason \<Rightarrow> engine_metrics \<Rightarrow> engine_metrics" where
  "record_push_solution_drop r m =
     m\<lparr>push_solution_dropped := inc_label (drop_reason_str r) (push_solution_dropped m)\<rparr>"

definition record_scmj_proposal_rejection ::
  "scmj_proposal_reject_reason \<Rightarrow> engine_metrics \<Rightarrow> engine_metrics" where
  "record_scmj_proposal_rejection r m =
     m\<lparr>set_custom_mining_job_proposal_rejected :=
         inc_label (reject_reason_str r) (set_custom_mining_job_proposal_rejected m)\<rparr>"

section \<open>Registration\<close>

definition all_drop_reasons :: "push_solution_drop_reason list" where
  "all_drop_reasons =
     [NoMatchingJob, CacheRace, NoTemplateId, TdpFetchFailed, ReconstructFailed, NoHandles]"

definition all_reject_reasons :: "scmj_proposal_reject_reason list" where
  "all_reject_reasons = [ConsensusRejected, ScmjRpcError]"

definition all_counters :: "string list" where
  "all_counters =
     [''sv2_p2pool_engine_declare_mining_job_accepted_total'',
      ''sv2_p2pool_engine_declare_mining_job_rejected_total'',
      ''sv2_p2pool_engine_declare_mining_job_missing_txns_total'',
      ''sv2_p2pool_engine_set_custom_mining_job_accepted_total'',
      ''sv2_p2pool_engine_set_custom_mining_job_rejected_total'',
      ''sv2_p2pool_engine_push_solution_received_total'',
      ''sv2_p2pool_engine_blocks_submitted_total'',
      ''sv2_p2pool_engine_blocks_submit_failed_total'',
      ''sv2_p2pool_engine_reorg_notifications_total'',
      ''sv2_p2pool_engine_jobs_invalidated_total'',
      ''sv2_p2pool_engine_set_custom_mining_job_validation_skipped_total'']"

definition all_gauges :: "string list" where
  "all_gauges =
     [''sv2_p2pool_engine_declared_jobs_cache_size'',
      ''sv2_p2pool_engine_recent_solutions_buffer_size'',
      ''sv2_p2pool_engine_sweeper_last_run_timestamp_seconds'',
      ''sv2_p2pool_engine_share_chain_tip_height'']"

definition vec_names :: "string list" where
  "vec_names =
     [''sv2_p2pool_engine_push_solution_dropped_total'',
      ''sv2_p2pool_engine_set_custom_mining_job_proposal_rejected_total'',
      ''sv2_p2pool_engine_set_custom_mining_job_validation_seconds'']"

definition zero_metrics :: engine_metrics where
  "zero_metrics =
     \<lparr>declare_mining_job_accepted = 0, declare_mining_job_rejected = 0,
      declare_mining_job_missing_txns = 0, set_custom_mining_job_accepted = 0,
      set_custom_mining_job_rejected = 0, push_solution_received = 0, blocks_submitted = 0,
      blocks_submit_failed = 0, reorg_notifications = 0, jobs_invalidated_total = 0,
      push_solution_dropped = dm_empty, set_custom_mining_job_proposal_rejected = dm_empty,
      set_custom_mining_job_validation_seconds = 0, set_custom_mining_job_validation_skipped = 0,
      declared_jobs_cache_size = 0, recent_solutions_buffer_size = 0,
      sweeper_last_run_timestamp_seconds = 0, share_chain_tip_height = 0\<rparr>"

fun register_all :: "(string \<Rightarrow> 'r \<Rightarrow> 'e + 'r) \<Rightarrow> string list \<Rightarrow> 'r \<Rightarrow> ('e + unit) \<times> 'r" where
  "register_all reg [] r = (Inr (), r)"
| "register_all reg (n # ns) r =
     (case reg n r of
        Inl e \<Rightarrow> (Inl e, r)
      | Inr r' \<Rightarrow> register_all reg ns r')"

definition initial_metrics :: engine_metrics where
  "initial_metrics =
     (let m = zero_metrics\<lparr>share_chain_tip_height := - 1\<rparr>
      in m\<lparr>push_solution_dropped :=
             foldl (\<lambda>v r. with_label_values (drop_reason_str r) v) (push_solution_dropped m)
               all_drop_reasons,
           set_custom_mining_job_proposal_rejected :=
             foldl (\<lambda>v r. with_label_values (reject_reason_str r) v)
               (set_custom_mining_job_proposal_rejected m) all_reject_reasons\<rparr>)"

definition register ::
  "(string \<Rightarrow> 'r \<Rightarrow> 'e + 'r) \<Rightarrow> 'r \<Rightarrow> ('e + engine_metrics) \<times> 'r" where
  "register reg r =
     (case register_all reg (all_counters @ all_gauges @ vec_names) r of
        (Inl e, r') \<Rightarrow> (Inl e, r')
      | (Inr _, r') \<Rightarrow> (Inr initial_metrics, r'))"

section \<open>Lemmas\<close>

lemma label_value_inc [simp]:
  "label_value (inc_label l v) l' = (if l' = l then label_value v l + 1 else label_value v l')"
  by (simp add: label_value_def inc_label_def)

lemma label_value_with [simp]: "label_value (with_label_values l v) l' = label_value v l'"
  by (auto simp: label_value_def with_label_values_def split: option.splits)

lemma drop_reason_str_inj: "drop_reason_str a = drop_reason_str b \<longleftrightarrow> a = b"
  by (cases a; cases b) simp_all

lemma reject_reason_str_inj: "reject_reason_str a = reject_reason_str b \<longleftrightarrow> a = b"
  by (cases a; cases b) simp_all

abbreviation dropped :: "engine_metrics \<Rightarrow> push_solution_drop_reason \<Rightarrow> u64" where
  "dropped m r \<equiv> label_value (push_solution_dropped m) (drop_reason_str r)"

abbreviation proposal_rejected :: "engine_metrics \<Rightarrow> scmj_proposal_reject_reason \<Rightarrow> u64" where
  "proposal_rejected m r \<equiv>
     label_value (set_custom_mining_job_proposal_rejected m) (reject_reason_str r)"

definition dropped_total :: "engine_metrics \<Rightarrow> u64" where
  "dropped_total m = sum_list (map (dropped m) all_drop_reasons)"

lemma dropped_record [simp]:
  "dropped (record_push_solution_drop r m) r' = (if r' = r then dropped m r + 1 else dropped m r')"
  by (simp add: record_push_solution_drop_def drop_reason_str_inj)

lemma proposal_rejected_record [simp]:
  "proposal_rejected (record_scmj_proposal_rejection r m) r' =
     (if r' = r then proposal_rejected m r + 1 else proposal_rejected m r')"
  by (simp add: record_scmj_proposal_rejection_def reject_reason_str_inj)

lemma dropped_total_record [simp]:
  "dropped_total (record_push_solution_drop r m) = dropped_total m + 1"
  by (cases r) (simp_all add: dropped_total_def all_drop_reasons_def)

lemma register_all_names:
  assumes "\<And>n r. reg n r = (if n \<in> set r then Inl n else Inr (r @ [n]))"
  shows "distinct ns \<Longrightarrow> set ns \<inter> set r = {} \<Longrightarrow> register_all reg ns r = (Inr (), r @ ns)"
  by (induction ns arbitrary: r) (auto simp: assms)

lemma metric_names_distinct: "distinct (all_counters @ all_gauges @ vec_names)"
  by (simp add: all_counters_def all_gauges_def vec_names_def)

text \<open>
  \<open>EngineMetrics::register\<close> on a registry that refuses a name registered twice: on a fresh
  registry it succeeds, registers the eighteen metrics once each in order, seeds the tip height
  with \<open>-1\<close> and makes every label of both labelled counters present at zero; when one of its names
  is already taken, it returns the first taken name as the error, leaving the names before it
  registered.
\<close>

lemma register_outcome:
  assumes reg: "\<And>n r. reg n r = (if n \<in> set r then Inl n else Inr (r @ [n]))"
  shows "register reg [] = (Inr initial_metrics, all_counters @ all_gauges @ vec_names)
    \<and> (\<forall>ns n rest r. all_counters @ all_gauges @ vec_names = ns @ n # rest \<and> set ns \<inter> set r = {} \<and> n \<in> set r
         \<longrightarrow> register reg r = (Inl n, r @ ns))
    \<and> share_chain_tip_height initial_metrics = - 1
    \<and> (\<forall>reason. dm_get (push_solution_dropped initial_metrics) (drop_reason_str reason) = Some 0)
    \<and> (\<forall>reason. dm_get (set_custom_mining_job_proposal_rejected initial_metrics)
          (reject_reason_str reason) = Some 0)"
proof (intro conjI allI impI)
  show "register reg [] = (Inr initial_metrics, all_counters @ all_gauges @ vec_names)"
    using register_all_names [of reg, OF reg metric_names_distinct, of "[]"]
    by (simp add: register_def)
  show "register reg r = (Inl n, r @ ns)"
    if "all_counters @ all_gauges @ vec_names = ns @ n # rest \<and> set ns \<inter> set r = {} \<and> n \<in> set r"
    for ns n rest r
  proof -
    have "distinct ns" "set ns \<inter> set r = {}" "n \<in> set r"
      using that metric_names_distinct by auto
    then have "register_all reg (ns @ n # rest) r = (Inl n, r @ ns)"
      by (induction ns arbitrary: r) (auto simp: reg)
    with that show ?thesis by (simp add: register_def)
  qed
  show "share_chain_tip_height initial_metrics = - 1"
    by (simp add: initial_metrics_def Let_def)
  show "dm_get (push_solution_dropped initial_metrics) (drop_reason_str reason) = Some 0" for reason
    by (cases reason) (simp_all add: initial_metrics_def Let_def all_drop_reasons_def
        with_label_values_def zero_metrics_def)
  show "dm_get (set_custom_mining_job_proposal_rejected initial_metrics)
          (reject_reason_str reason) = Some 0" for reason
    by (cases reason) (simp_all add: initial_metrics_def Let_def all_reject_reasons_def
        with_label_values_def zero_metrics_def)
qed

theorem register_outcome_witness:
  "register (\<lambda>n r. if n \<in> set r then Inl n else Inr (r @ [n])) [] =
     (Inr initial_metrics :: string + engine_metrics, all_counters @ all_gauges @ vec_names)"
  using register_outcome [of "\<lambda>n r. if n \<in> set r then Inl n else Inr (r @ [n])"] by simp

end
