(* ===== verification/Recent_Solutions.thy ===== *)
theory Recent_Solutions
  imports Prelude
begin

text \<open>
  \<open>crates/sv2-p2pool-engine/src/recent_solutions.rs\<close>: the buffer that carries block-finder credit
  from \<open>PushSolution\<close> to the share it belongs to. \<open>Instant\<close> and \<open>Duration\<close> are natural numbers of
  nanoseconds; \<open>Instant::now()\<close> is the argument \<open>now\<close> of the operations, and \<open>elapsed()\<close>
  saturates at zero as natural subtraction does.
\<close>

type_synonym instant = nat
type_synonym duration = nat

record recent_solutions =
  rs_inner :: "(block_hash, instant \<times> block_hash) dmap"
  rs_ttl :: duration

definition rs_new :: "duration \<Rightarrow> recent_solutions" where
  "rs_new ttl = \<lparr>rs_inner = dm_empty, rs_ttl = ttl\<rparr>"

definition elapsed :: "instant \<Rightarrow> instant \<Rightarrow> duration" where
  "elapsed now recorded_at = now - recorded_at"

definition rs_record ::
  "instant \<Rightarrow> block_hash \<Rightarrow> block_hash \<Rightarrow> recent_solutions \<Rightarrow> recent_solutions" where
  "rs_record now share_hash blk_hash rs =
     rs\<lparr>rs_inner := dm_insert share_hash (now, blk_hash) (rs_inner rs)\<rparr>"

definition rs_take ::
  "instant \<Rightarrow> block_hash \<Rightarrow> recent_solutions \<Rightarrow> block_hash option \<times> recent_solutions" where
  "rs_take now share_hash rs =
     (case dm_get (rs_inner rs) share_hash of
        None \<Rightarrow> (None, rs)
      | Some (recorded_at, blk_hash) \<Rightarrow>
          let rs' = rs\<lparr>rs_inner := dm_remove share_hash (rs_inner rs)\<rparr>
          in if elapsed now recorded_at > rs_ttl rs then (None, rs') else (Some blk_hash, rs'))"

definition rs_sweep :: "instant \<Rightarrow> recent_solutions \<Rightarrow> recent_solutions" where
  "rs_sweep now rs =
     rs\<lparr>rs_inner := dm_retain (\<lambda>_ (recorded_at, _). elapsed now recorded_at \<le> rs_ttl rs) (rs_inner rs)\<rparr>"

definition rs_len :: "recent_solutions \<Rightarrow> nat" where
  "rs_len rs = dm_len (rs_inner rs)"

definition rs_is_empty :: "recent_solutions \<Rightarrow> bool" where
  "rs_is_empty rs = (rs_len rs = 0)"

definition rs_wf :: "recent_solutions \<Rightarrow> bool" where
  "rs_wf rs = dm_wf (rs_inner rs)"

section \<open>The credit interface\<close>

text \<open>
  What a client of the buffer relies on, stated through the result of a later take. \<open>last_event\<close>
  reads a history, newest first: the record of a share hash that no later take has claimed.
\<close>

datatype credit_op = Record block_hash block_hash | Take block_hash | Sweep

type_synonym credit_trace = "(instant \<times> credit_op) list"

fun credit_step ::
  "(instant \<Rightarrow> block_hash \<Rightarrow> block_hash \<Rightarrow> 's \<Rightarrow> 's) \<Rightarrow>
   (instant \<Rightarrow> block_hash \<Rightarrow> 's \<Rightarrow> block_hash option \<times> 's) \<Rightarrow> (instant \<Rightarrow> 's \<Rightarrow> 's) \<Rightarrow>
   's \<Rightarrow> instant \<times> credit_op \<Rightarrow> 's" where
  "credit_step put tak swp s (t, Record k v) = put t k v s"
| "credit_step put tak swp s (t, Take k) = snd (tak t k s)"
| "credit_step put tak swp s (t, Sweep) = swp t s"

definition rs_run :: "recent_solutions \<Rightarrow> credit_trace \<Rightarrow> recent_solutions" where
  "rs_run rs tr = foldl (credit_step rs_record rs_take rs_sweep) rs tr"

fun last_event :: "block_hash \<Rightarrow> credit_trace \<Rightarrow> (instant \<times> block_hash) option" where
  "last_event k [] = None"
| "last_event k ((t, Record k' v) # older) = (if k' = k then Some (t, v) else last_event k older)"
| "last_event k ((t, Take k') # older) = (if k' = k then None else last_event k older)"
| "last_event k ((t, Sweep) # older) = last_event k older"

locale credit_buffer =
  fixes put :: "instant \<Rightarrow> block_hash \<Rightarrow> block_hash \<Rightarrow> 's \<Rightarrow> 's"
    and tak :: "instant \<Rightarrow> block_hash \<Rightarrow> 's \<Rightarrow> block_hash option \<times> 's"
    and swp :: "instant \<Rightarrow> 's \<Rightarrow> 's"
    and wf :: "'s \<Rightarrow> bool"
    and ttl :: "'s \<Rightarrow> duration"
  assumes wf_ops: "wf s \<Longrightarrow> wf (put now k v s)" "wf s \<Longrightarrow> wf (snd (tak now k s))"
      "wf s \<Longrightarrow> wf (swp now s)"
    and ttl_ops: "ttl (put now k v s) = ttl s" "ttl (snd (tak now k s)) = ttl s"
      "ttl (swp now s) = ttl s"
    and take_record: "wf s \<Longrightarrow> fst (tak now k (put t k' v s)) =
      (if k = k' then if now - t \<le> ttl s then Some v else None else fst (tak now k s))"
    and take_take: "wf s \<Longrightarrow> fst (tak now k (snd (tak t k' s))) =
      (if k = k' then None else fst (tak now k s))"
    and take_sweep: "wf s \<Longrightarrow> t \<le> now \<Longrightarrow> fst (tak now k (swp t s)) = fst (tak now k s)"
begin

abbreviation step :: "'s \<Rightarrow> instant \<times> credit_op \<Rightarrow> 's" where
  "step \<equiv> credit_step put tak swp"

lemma wf_ttl_step: "wf s \<Longrightarrow> wf (step s e) \<and> ttl (step s e) = ttl s"
  by (cases e; cases "snd e") (auto simp: wf_ops ttl_ops)

lemma run_wf_ttl: "wf s \<Longrightarrow> wf (foldl step s tr) \<and> ttl (foldl step s tr) = ttl s"
  by (induction tr rule: rev_induct) (simp_all add: wf_ttl_step)

lemma take_after_run:
  assumes "wf s" and "\<And>now. fst (tak now k s) = None"
    and "\<forall>(t, e) \<in> set tr. t \<le> now"
  shows "fst (tak now k (foldl step s tr)) =
    (case last_event k (rev tr) of
       None \<Rightarrow> None
     | Some (t, v) \<Rightarrow> if now - t \<le> ttl s then Some v else None)"
  using assms(3)
proof (induction tr rule: rev_induct)
  case Nil
  then show ?case by (simp add: assms)
next
  case (snoc e tr)
  note wt = run_wf_ttl [OF assms(1), of tr]
  obtain t op where e: "e = (t, op)" by (cases e)
  with snoc.prems have "t \<le> now" and IH: "fst (tak now k (foldl step s tr)) =
      (case last_event k (rev tr) of None \<Rightarrow> None | Some (t, v) \<Rightarrow> if now - t \<le> ttl s then Some v else None)"
    using snoc.IH by auto
  then show ?case
    using wt by (cases op) (auto simp: e take_record take_take take_sweep)
qed

end

section \<open>The buffer implements the interface\<close>

lemma rs_wf_record [simp]: "rs_wf rs \<Longrightarrow> rs_wf (rs_record now k v rs)"
  by (simp add: rs_wf_def rs_record_def)

lemma rs_wf_take [simp]: "rs_wf rs \<Longrightarrow> rs_wf (snd (rs_take now k rs))"
  by (auto simp: rs_wf_def rs_take_def Let_def split: option.splits)

lemma rs_wf_sweep [simp]: "rs_wf rs \<Longrightarrow> rs_wf (rs_sweep now rs)"
  by (simp add: rs_wf_def rs_sweep_def)

lemma rs_wf_new [simp]: "rs_wf (rs_new ttl)"
  by (simp add: rs_wf_def rs_new_def)

lemma fst_rs_take:
  "fst (rs_take now k rs) =
     (case dm_get (rs_inner rs) k of
        Some (t, v) \<Rightarrow> if now - t \<le> rs_ttl rs then Some v else None
      | None \<Rightarrow> None)"
  by (auto simp: rs_take_def elapsed_def Let_def split: option.splits)

lemma fst_rs_take_new [simp]: "fst (rs_take now k (rs_new ttl)) = None"
  by (simp add: fst_rs_take) (simp add: rs_new_def)

lemma rs_ttl_new [simp]: "rs_ttl (rs_new ttl) = ttl"
  by (simp add: rs_new_def)

lemma inner_rs_take: "dm_get (rs_inner (snd (rs_take now k rs))) k' =
    (if k' = k then None else dm_get (rs_inner rs) k')"
  by (auto simp: rs_take_def Let_def split: option.splits)

lemma ttl_rs_ops [simp]:
  "rs_ttl (rs_record now k v rs) = rs_ttl rs"
  "rs_ttl (snd (rs_take now k rs)) = rs_ttl rs"
  "rs_ttl (rs_sweep now rs) = rs_ttl rs"
  by (auto simp: rs_record_def rs_take_def rs_sweep_def Let_def split: option.splits)

interpretation credit: credit_buffer rs_record rs_take rs_sweep rs_wf rs_ttl
proof unfold_locales
  show "fst (rs_take now k (rs_sweep t rs)) = fst (rs_take now k rs)"
    if "rs_wf rs" "t \<le> now" for rs t now k
    using that
    by (auto simp: fst_rs_take rs_sweep_def rs_wf_def dm_get_retain elapsed_def split: option.splits)
  show "fst (rs_take now k (snd (rs_take t k' rs))) = (if k = k' then None else fst (rs_take now k rs))"
    for now k t k' rs
    by (auto simp: fst_rs_take inner_rs_take split: option.splits)
qed (auto simp: fst_rs_take, auto simp: rs_record_def split: option.splits)

lemma rs_run_snoc: "rs_run rs (tr @ [e]) = credit_step rs_record rs_take rs_sweep (rs_run rs tr) e"
  by (simp add: rs_run_def)

section \<open>Properties\<close>

text \<open>
  C14: over any history of records, takes and sweeps that starts from a new buffer and does not lie
  in the future of \<open>now\<close>, a take of a share hash at \<open>now\<close> returns a block hash exactly when the
  latest record or take of that share hash in the history is a record of that block hash, not
  older than the TTL. Sweeps never change what a take returns, duplicates refresh, the newest
  block hash wins, and a credit is returned at most once per record.
\<close>

theorem take_returns_latest_unclaimed:
  assumes "\<forall>(t, e) \<in> set tr. t \<le> now"
  shows "fst (rs_take now k (rs_run (rs_new ttl) tr)) =
    (case last_event k (rev tr) of
       None \<Rightarrow> None
     | Some (t, v) \<Rightarrow> if now - t \<le> ttl then Some v else None)"
  using credit.take_after_run [of "rs_new ttl" k tr now] assms
  by (auto simp: rs_run_def split: option.splits)

theorem take_returns_latest_unclaimed_witness:
  "fst (rs_take 12 [1] (rs_run (rs_new 5) [(3, Record [1] [7]), (8, Record [1] [8]), (11, Sweep)])) =
     Some [8]"
  using take_returns_latest_unclaimed
      [of "[(3, Record [1] [7]), (8, Record [1] [8]), (11, Sweep)]" 12 "[1]" 5]
  by simp

definition recorded_since :: "instant \<Rightarrow> credit_trace \<Rightarrow> credit_trace" where
  "recorded_since t0 tr = filter (\<lambda>(t, e). t0 \<le> t \<and> (\<exists>k v. e = Record k v)) tr"

lemma inner_from_trace:
  "(k, t, v) \<in> set (rs_inner (rs_run rs tr)) \<Longrightarrow>
   (k, t, v) \<in> set (rs_inner rs) \<or> (t, Record k v) \<in> set tr"
proof (induction tr arbitrary: rule: rev_induct)
  case Nil
  then show ?case by (simp add: rs_run_def)
next
  case (snoc e tr)
  obtain u op where e: "e = (u, op)" by (cases e)
  have upd: "set (dm_insert a b m) \<subseteq> insert (a, b) (set m)" for a b and m :: "(block_hash, instant \<times> block_hash) dmap"
    by (induction m) (auto simp: dm_insert_def)
  have del: "set (dm_remove a m) \<subseteq> set m" for a and m :: "(block_hash, instant \<times> block_hash) dmap"
    by (auto simp: dm_remove_def AList.delete_eq)
  from snoc show ?case
    using upd del
    by (cases op)
      (fastforce simp: e rs_run_snoc rs_record_def rs_take_def rs_sweep_def dm_retain_def Let_def
        split: option.splits if_splits)+
qed

text \<open>
  the memory bound of the buffer: after a sweep the buffer holds at most one entry for each
  \<open>record\<close> call of the last TTL, whatever was recorded before and never claimed.
\<close>

lemma sweep_bounds_memory:
  "rs_len (rs_sweep now (rs_run (rs_new ttl) tr)) \<le> length (recorded_since (now - ttl) tr)"
proof -
  let ?rs = "rs_run (rs_new ttl) tr"
  have wf: "rs_wf ?rs" and ttl: "rs_ttl ?rs = ttl"
    using credit.run_wf_ttl [of "rs_new ttl" tr] by (simp_all add: rs_run_def)
  let ?kept = "rs_inner (rs_sweep now ?rs)"
  let ?key = "\<lambda>(t, e). case e of Record k v \<Rightarrow> k | _ \<Rightarrow> []"
  have "fst ` set ?kept \<subseteq> ?key ` set (recorded_since (now - ttl) tr)"
  proof
    fix k assume "k \<in> fst ` set ?kept"
    then obtain t v where old: "(k, t, v) \<in> set (rs_inner ?rs)" and young: "now - t \<le> ttl"
      by (auto simp: rs_sweep_def dm_retain_def elapsed_def ttl)
    from inner_from_trace [OF old] have "(t, Record k v) \<in> set tr"
      by (simp add: rs_new_def dm_empty_def)
    with young have "(t, Record k v) \<in> set (recorded_since (now - ttl) tr)"
      by (auto simp: recorded_since_def)
    then show "k \<in> ?key ` set (recorded_since (now - ttl) tr)" by force
  qed
  then have "card (fst ` set ?kept) \<le> card (?key ` set (recorded_since (now - ttl) tr))"
    by (intro card_mono) auto
  also have "\<dots> \<le> length (recorded_since (now - ttl) tr)"
    using card_image_le [of "set (recorded_since (now - ttl) tr)" ?key]
      card_length [of "recorded_since (now - ttl) tr"] by simp
  also have "card (fst ` set ?kept) = rs_len (rs_sweep now ?rs)"
    using rs_wf_sweep [OF wf, of now]
    by (simp add: rs_wf_def dm_wf_def rs_len_def dm_len_def distinct_card flip: set_map)
  finally show ?thesis .
qed

end
