(* ===== verification/Reorg_Detector.thy ===== *)
theory Reorg_Detector
  imports Prelude
begin

text \<open>
  \<open>crates/sv2-p2pool-engine/src/reorg_detector.rs\<close>: the edge-triggered poller. A poll takes what
  the tip source returned and the last tip, and gives the new last tip and the broadcast it sends,
  if any. \<open>detector_run\<close> is the loop of \<open>run\<close> over the results of successive ticks; it never ends
  in the source, so every statement is about each finite prefix.
\<close>

definition default_poll_period_secs :: nat where
  "default_poll_period_secs = 5"

definition broadcast_capacity :: nat where
  "broadcast_capacity = 256"

definition poll_once ::
  "block_hash option \<Rightarrow> block_hash option \<Rightarrow> block_hash option \<times> block_hash list" where
  "poll_once current_tip last_tip =
     (case (current_tip, last_tip) of
        (None, _) \<Rightarrow> (last_tip, [])
      | (Some tip, None) \<Rightarrow> (Some tip, [])
      | (Some tip, Some prev) \<Rightarrow> if tip = prev then (Some prev, []) else (Some tip, [tip]))"

definition detector_tick ::
  "block_hash option \<Rightarrow> block_hash option \<Rightarrow> block_hash option \<times> block_hash list" where
  "detector_tick current_tip last_tip = poll_once current_tip last_tip"

fun detector_loop ::
  "block_hash option \<Rightarrow> block_hash option list \<Rightarrow> block_hash option \<times> block_hash list" where
  "detector_loop last_tip [] = (last_tip, [])"
| "detector_loop last_tip (obs # rest) =
     (let (last', sent) = poll_once obs last_tip;
          (last'', more) = detector_loop last' rest
      in (last'', sent @ more))"

definition detector_run :: "block_hash option list \<Rightarrow> block_hash option \<times> block_hash list" where
  "detector_run observations = detector_loop None observations"

section \<open>Lemmas\<close>

definition seen :: "block_hash option list \<Rightarrow> block_hash list" where
  "seen observations = map the (filter (\<lambda>t. t \<noteq> None) observations)"

lemma seen_simps [simp]:
  "seen [] = []" "seen (None # obs) = seen obs" "seen (Some t # obs) = t # seen obs"
  by (simp_all add: seen_def)

lemma remdups_adj_Cons_tl:
  "remdups_adj (p # t # ts) = (if t = p then remdups_adj (p # ts) else p # remdups_adj (t # ts))"
  by simp

lemma detector_loop_Some:
  "detector_loop (Some p) obs = (Some (last (p # seen obs)), tl (remdups_adj (p # seen obs)))"
proof (induction obs arbitrary: p)
  case Nil
  then show ?case by simp
next
  case (Cons o1 obs)
  then show ?case
    by (cases o1) (auto simp: poll_once_def Let_def remdups_adj_Cons split: list.splits)
qed

lemma detector_loop_append:
  "detector_loop l (xs @ ys) =
     (let (l', s) = detector_loop l xs; (l'', s') = detector_loop l' ys in (l'', s @ s'))"
  by (induction l xs rule: detector_loop.induct) (auto simp: Let_def split: prod.splits)

section \<open>Properties\<close>

text \<open>
  over any sequence of polls the detector broadcasts exactly the tips it observed with
  immediate repetitions removed, less the first one: one broadcast per change, none for the first
  sighting, none for a repeated tip, and a poll that finds no tip neither broadcasts nor forgets
  the last one.
\<close>

lemma detector_broadcasts_changes:
  "detector_run observations =
     ((if seen observations = [] then None else Some (last (seen observations))),
      tl (remdups_adj (seen observations)))"
proof (induction observations)
  case Nil
  then show ?case by (simp add: detector_run_def)
next
  case (Cons o1 obs)
  then show ?case
    by (cases o1) (auto simp: detector_run_def poll_once_def detector_loop_Some Let_def)
qed

end
