(* ===== verification/Ipc_Client.thy ===== *)
theory Ipc_Client
  imports Bitcoin_Types
begin

text \<open>
  \<open>crates/sv2-p2pool-ipc/src/lib.rs\<close>: the typed client over the Cap'n Proto share-chain service.
  The transport and the generated readers are third-party: a server is the record \<open>rpc_server\<close> of
  what each call's reply reads as. \<open>wire\<close> is a union reader: a transport or pointer error, a
  discriminant outside the schema, or one of the schema's variants; a field of a variant that is
  itself read with \<open>?\<close> is a sum with the Cap'n Proto error on the left.
\<close>

datatype ipc_client_error =
    ConnectError string string
  | Capnp string
  | UnknownValidationVariant nat
  | BlockHashDecode nat

datatype chain_tip_result = Tip block_hash | TipUninitialised

datatype tip_height_result = Height u32 | HeightUninitialised

record share_header_read =
  prev_share_blockhash :: "block_hash option"

datatype share_header_lookup = Found share_header_read | NotFound | Genesis

datatype validation_outcome =
    ValidationOk
  | StaleChainTip
  | InvalidCoinbase string
  | MissingTransactions "bytes list"

type_synonym 'a ipc_result = "(ipc_client_error, 'a) result"

section \<open>The wire\<close>

datatype 'w wire = CapnpError string | NotInSchema nat | Which 'w

datatype wire_chain_tip = WireTip "string + bytes" | WireTipUninit

datatype wire_share_header = WireFound "string + bytes" | WireNotFound | WireGenesis

datatype wire_tip_height = WireHeight u32 | WireHeightUninit

datatype wire_network =
  WireMainnet | WireTestnet | WireTestnet4 | WireRegtest | WireSignet | WireUnknown

datatype wire_validation =
    WireOk
  | WireStale
  | WireInvalidCoinbase "string + bytes"
  | WireMissing "string + (string + bytes) list"

record rpc_server =
  rpc_connect :: "string + unit"
  rpc_validate_template :: "bytes \<Rightarrow> bytes \<Rightarrow> bytes list \<Rightarrow> bytes list \<Rightarrow> wire_validation wire"
  rpc_submit_solution :: "bytes \<Rightarrow> bytes \<Rightarrow> string + bool"
  rpc_subscribe_chain_tip :: "string + unit"
  rpc_get_chain_tip :: "wire_chain_tip wire"
  rpc_get_share_header :: "bytes \<Rightarrow> wire_share_header wire"
  rpc_get_tip_height :: "wire_tip_height wire"
  rpc_get_network :: "wire_network wire"
  rpc_utf8 :: "bytes \<Rightarrow> string + string"

fun which :: "'w wire \<Rightarrow> 'w ipc_result" where
  "which (CapnpError e) = Err (Capnp e)"
| "which (NotInSchema d) = Err (UnknownValidationVariant d)"
| "which (Which w) = Ok w"

fun capnp_field :: "string + 'a \<Rightarrow> 'a ipc_result" where
  "capnp_field (Inl e) = Err (Capnp e)"
| "capnp_field (Inr a) = Ok a"

section \<open>Decoding\<close>

definition decode_block_hash :: "bytes \<Rightarrow> block_hash ipc_result" where
  "decode_block_hash bs = (if length bs \<noteq> 32 then Err (BlockHashDecode (length bs)) else Ok bs)"

definition text_to_string :: "rpc_server \<Rightarrow> bytes \<Rightarrow> string ipc_result" where
  "text_to_string S t =
     (case rpc_utf8 S t of
        Inl e \<Rightarrow> Err (Capnp (''invalid utf-8 in InvalidCoinbase reason: '' @ e))
      | Inr s \<Rightarrow> Ok s)"

fun collect_fields :: "(string + bytes) list \<Rightarrow> bytes list ipc_result" where
  "collect_fields [] = Ok []"
| "collect_fields (x # xs) =
     rbind (capnp_field x) (\<lambda>b. rbind (collect_fields xs) (\<lambda>bs. Ok (b # bs)))"

definition decode_validation_result ::
  "rpc_server \<Rightarrow> wire_validation wire \<Rightarrow> validation_outcome ipc_result" where
  "decode_validation_result S r =
     rbind (which r) (\<lambda>w.
       case w of
         WireOk \<Rightarrow> Ok ValidationOk
       | WireStale \<Rightarrow> Ok StaleChainTip
       | WireInvalidCoinbase reason \<Rightarrow>
           rbind (capnp_field reason) (\<lambda>t. rbind (text_to_string S t) (\<lambda>s. Ok (InvalidCoinbase s)))
       | WireMissing l \<Rightarrow>
           rbind (capnp_field l) (\<lambda>xs. rbind (collect_fields xs) (\<lambda>bs. Ok (MissingTransactions bs))))"

section \<open>The calls\<close>

definition ipc_connect :: "rpc_server \<Rightarrow> string \<Rightarrow> unit ipc_result" where
  "ipc_connect S path =
     (case rpc_connect S of Inl source \<Rightarrow> Err (ConnectError path source) | Inr u \<Rightarrow> Ok u)"

text \<open>
  The list lengths go to the request builder as \<open>len() as u32\<close>; setting an element beyond the
  truncated length panics in the builder.
\<close>

definition ipc_validate_template ::
  "rpc_server \<Rightarrow> bytes \<Rightarrow> bytes \<Rightarrow> bytes list \<Rightarrow> bytes list \<Rightarrow> validation_outcome ipc_result" where
  "ipc_validate_template S coinbase_prefix coinbase_suffix wtxid_list missing_txs =
     (if 2 ^ 32 \<le> length wtxid_list \<or> 2 ^ 32 \<le> length missing_txs then Panic
      else decode_validation_result S
             (rpc_validate_template S coinbase_prefix coinbase_suffix wtxid_list missing_txs))"

definition ipc_submit_solution :: "rpc_server \<Rightarrow> bytes \<Rightarrow> bytes \<Rightarrow> bool ipc_result" where
  "ipc_submit_solution S raw_block share_hash = capnp_field (rpc_submit_solution S raw_block share_hash)"

definition ipc_subscribe_chain_tip :: "rpc_server \<Rightarrow> unit ipc_result" where
  "ipc_subscribe_chain_tip S = capnp_field (rpc_subscribe_chain_tip S)"

definition ipc_get_chain_tip :: "rpc_server \<Rightarrow> chain_tip_result ipc_result" where
  "ipc_get_chain_tip S =
     rbind (which (rpc_get_chain_tip S)) (\<lambda>w.
       case w of
         WireTip f \<Rightarrow> rbind (capnp_field f) (\<lambda>bs. rbind (decode_block_hash bs) (\<lambda>h. Ok (Tip h)))
       | WireTipUninit \<Rightarrow> Ok TipUninitialised)"

definition ipc_get_share_header :: "rpc_server \<Rightarrow> block_hash \<Rightarrow> share_header_lookup ipc_result" where
  "ipc_get_share_header S share_hash =
     rbind (which (rpc_get_share_header S share_hash)) (\<lambda>w.
       case w of
         WireFound f \<Rightarrow>
           rbind (capnp_field f) (\<lambda>prev_bytes.
           rbind (decode_block_hash prev_bytes) (\<lambda>prev.
             Ok (Found \<lparr>prev_share_blockhash = (if is_zero_hash prev then None else Some prev)\<rparr>)))
       | WireNotFound \<Rightarrow> Ok NotFound
       | WireGenesis \<Rightarrow> Ok Genesis)"

definition ipc_get_tip_height :: "rpc_server \<Rightarrow> tip_height_result ipc_result" where
  "ipc_get_tip_height S =
     rbind (which (rpc_get_tip_height S)) (\<lambda>w.
       case w of WireHeight h \<Rightarrow> Ok (Height h) | WireHeightUninit \<Rightarrow> Ok HeightUninitialised)"

definition ipc_get_network :: "rpc_server \<Rightarrow> network ipc_result" where
  "ipc_get_network S =
     rbind (which (rpc_get_network S)) (\<lambda>w.
       case w of
         WireMainnet \<Rightarrow> Ok Bitcoin
       | WireTestnet \<Rightarrow> Ok Testnet
       | WireTestnet4 \<Rightarrow> Ok Testnet4
       | WireRegtest \<Rightarrow> Ok Regtest
       | WireSignet \<Rightarrow> Ok Signet
       | WireUnknown \<Rightarrow> Err (Capnp ''getNetwork: server returned `unknown` variant''))"

text \<open>
  \<open>CallbackImpl::on_new_tip\<close>: the registered closure runs on the bytes of a well-formed call, and a
  malformed call is answered with the error without running it.
\<close>

definition callback_on_new_tip :: "(bytes \<Rightarrow> 's \<Rightarrow> 's) \<Rightarrow> string + bytes \<Rightarrow> 's \<Rightarrow> (string + unit) \<times> 's" where
  "callback_on_new_tip on_new_tip params s =
     (case params of Inl e \<Rightarrow> (Inl e, s) | Inr bs \<Rightarrow> (Inr (), on_new_tip bs s))"

section \<open>Lemmas\<close>

lemma capnp_field_Ok_iff [simp]: "capnp_field f = Ok a \<longleftrightarrow> f = Inr a"
  by (cases f) auto

lemma capnp_field_no_Panic [simp]: "capnp_field f \<noteq> Panic"
  by (cases f) auto

lemma which_Ok_iff [simp]: "which r = Ok w \<longleftrightarrow> r = Which w"
  by (cases r) auto

lemma which_no_Panic [simp]: "which r \<noteq> Panic"
  by (cases r) auto

lemma decode_block_hash_Ok_iff [simp]: "decode_block_hash bs = Ok h \<longleftrightarrow> length bs = 32 \<and> h = bs"
  by (auto simp: decode_block_hash_def)

lemma decode_block_hash_no_Panic [simp]: "decode_block_hash bs \<noteq> Panic"
  by (simp add: decode_block_hash_def)

lemma collect_fields_Ok_iff: "collect_fields xs = Ok bs \<longleftrightarrow> xs = map Inr bs"
proof (induction xs arbitrary: bs)
  case Nil
  then show ?case by auto
next
  case (Cons x xs)
  then show ?case by (cases bs) (auto simp: rbind_iffs)
qed

lemma wire_share_header_cases:
  obtains (Error) e where "r = CapnpError e" | (Unknown) d where "r = NotInSchema d"
  | (Found) f where "r = Which (WireFound f)" | (NotFound) "r = Which WireNotFound"
  | (Genesis) "r = Which WireGenesis"
  by (cases r; cases "case r of Which w \<Rightarrow> w | _ \<Rightarrow> WireGenesis") auto

lemma wire_validation_cases:
  obtains (Error) e where "r = CapnpError e" | (Unknown) d where "r = NotInSchema d"
  | (Accepted) "r = Which WireOk" | (Stale) "r = Which WireStale"
  | (Invalid) t where "r = Which (WireInvalidCoinbase t)"
  | (Missing) l where "r = Which (WireMissing l)"
  by (cases r; cases "case r of Which w \<Rightarrow> w | _ \<Rightarrow> WireOk") auto

lemma ipc_get_share_header_Found:
  "ipc_get_share_header S h = Ok (Found r) \<Longrightarrow> prev_share_blockhash r = Some p \<Longrightarrow>
     length p = 32 \<and> \<not> is_zero_hash p"
  by (cases "rpc_get_share_header S h" rule: wire_share_header_cases)
    (auto simp: ipc_get_share_header_def rbind_iffs split: if_splits)

section \<open>Properties\<close>

text \<open>
  \<open>decode_validation_result\<close> never turns a malformed or unknown reply into an acceptance or a
  rejection: each outcome is returned exactly for its own variant, with every element of a missing
  list present and in order; everything else is an error.
\<close>

lemma decode_validation_outcomes:
  "(decode_validation_result S r = Ok ValidationOk \<longleftrightarrow> r = Which WireOk) \<and>
   (decode_validation_result S r = Ok StaleChainTip \<longleftrightarrow> r = Which WireStale) \<and>
   (decode_validation_result S r = Ok (InvalidCoinbase s) \<longleftrightarrow>
      (\<exists>t. r = Which (WireInvalidCoinbase (Inr t)) \<and> rpc_utf8 S t = Inr s)) \<and>
   (decode_validation_result S r = Ok (MissingTransactions bs) \<longleftrightarrow>
      r = Which (WireMissing (Inr (map Inr bs)))) \<and>
   decode_validation_result S r \<noteq> Panic"
proof -
  have no_panic: "collect_fields xs \<noteq> Panic" for xs
    by (induction xs) (auto simp: rbind_iffs)
  show ?thesis
  proof (cases r rule: wire_validation_cases)
    case (Invalid t)
    then show ?thesis
      by (cases t) (auto simp: decode_validation_result_def text_to_string_def split: sum.splits)
  next
    case (Missing l)
    then show ?thesis
      by (cases l) (auto simp: decode_validation_result_def rbind_iffs collect_fields_Ok_iff no_panic)
  qed (auto simp: decode_validation_result_def)
qed

end
