(* ===== verification/Share_Chain_Reader.thy ===== *)
theory Share_Chain_Reader
  imports Ipc_Client
begin

text \<open>
  \<open>crates/sv2-p2pool-engine/src/share_chain_reader.rs\<close>: the read interface the engine has on the
  share-chain, as a record of its accessors, the contract \<open>share_reader\<close> the reorg walk relies on,
  and the in-memory backend of the crate.
\<close>

record share_chain_reader =
  rd_get_chain_tip :: "block_hash option ipc_result"
  rd_get_share_header :: "block_hash \<Rightarrow> share_header_lookup ipc_result"
  rd_get_tip_height :: "u32 option ipc_result"
  rd_network :: network

section \<open>The contract of header lookups\<close>

text \<open>
  The genesis predecessor never shows up as an ordinary parent: a found header has a parent that is
  not the all-zeros sentinel, or none.
\<close>

definition sane_lookup :: "(block_hash \<Rightarrow> share_header_lookup ipc_result) \<Rightarrow> bool" where
  "sane_lookup lookup \<longleftrightarrow>
     (\<forall>h r p. lookup h = Ok (Found r) \<longrightarrow> prev_share_blockhash r = Some p \<longrightarrow> \<not> is_zero_hash p)"

locale share_reader =
  fixes lookup :: "block_hash \<Rightarrow> share_header_lookup ipc_result"
  assumes parent_not_sentinel:
    "lookup h = Ok (Found r) \<Longrightarrow> prev_share_blockhash r = Some p \<Longrightarrow> \<not> is_zero_hash p"
begin

inductive parent_of :: "block_hash \<Rightarrow> block_hash \<Rightarrow> bool" where
  "lookup h = Ok (Found r) \<Longrightarrow> prev_share_blockhash r = Some p \<Longrightarrow> parent_of h p"

lemma ancestors_not_sentinel: "parent_of\<^sup>+\<^sup>+ h p \<Longrightarrow> \<not> is_zero_hash p"
  by (induction rule: tranclp_induct) (auto elim: parent_of.cases dest: parent_not_sentinel)

lemma ancestors_not_zeros: "parent_of\<^sup>+\<^sup>+ h p \<Longrightarrow> p \<noteq> all_zeros"
  using ancestors_not_sentinel by (force simp: hash_simps)

lemma sane: "sane_lookup lookup"
  unfolding sane_lookup_def using parent_not_sentinel by blast

end

section \<open>The in-memory backend\<close>

record mock_share_chain =
  mock_chain_tip :: "block_hash option"
  mock_tip_height :: "u32 option"
  mock_headers :: "(block_hash, share_header_read) dmap"
  mock_network :: network
  mock_pushed :: "block_hash list"

definition mock_with_network :: "network \<Rightarrow> mock_share_chain" where
  "mock_with_network net =
     \<lparr>mock_chain_tip = None, mock_tip_height = None, mock_headers = dm_empty, mock_network = net,
      mock_pushed = []\<rparr>"

definition mock_new :: mock_share_chain where
  "mock_new = mock_with_network Regtest"

definition mock_with_tip :: "block_hash \<Rightarrow> u32 \<Rightarrow> mock_share_chain \<Rightarrow> mock_share_chain" where
  "mock_with_tip tip height m = m\<lparr>mock_chain_tip := Some tip, mock_tip_height := Some height\<rparr>"

definition mock_with_header :: "block_hash \<Rightarrow> block_hash option \<Rightarrow> mock_share_chain \<Rightarrow> mock_share_chain" where
  "mock_with_header h prev m =
     m\<lparr>mock_headers := dm_insert h \<lparr>prev_share_blockhash = prev\<rparr> (mock_headers m)\<rparr>"

definition mock_push_tip :: "block_hash \<Rightarrow> mock_share_chain \<Rightarrow> mock_share_chain" where
  "mock_push_tip tip m = m\<lparr>mock_pushed := mock_pushed m @ [tip]\<rparr>"

definition mock_get_share_header :: "mock_share_chain \<Rightarrow> block_hash \<Rightarrow> share_header_lookup ipc_result" where
  "mock_get_share_header m share_hash =
     (if is_zero_hash share_hash then Ok Genesis
      else case dm_get (mock_headers m) share_hash of
        Some h \<Rightarrow> Ok (Found h)
      | None \<Rightarrow> Ok NotFound)"

definition mock_reader :: "mock_share_chain \<Rightarrow> share_chain_reader" where
  "mock_reader m =
     \<lparr>rd_get_chain_tip = Ok (mock_chain_tip m),
      rd_get_share_header = mock_get_share_header m,
      rd_get_tip_height = Ok (mock_tip_height m),
      rd_network = mock_network m\<rparr>"

lemma mock_headers_simps [simp]:
  "mock_headers (mock_with_network net) = dm_empty"
  "mock_headers (mock_with_tip t n m) = mock_headers m"
  "mock_headers (mock_push_tip t m) = mock_headers m"
  by (simp_all add: mock_with_network_def mock_with_tip_def mock_push_tip_def)

lemma mock_get_share_header_with_header:
  "\<not> is_zero_hash h \<Longrightarrow> mock_get_share_header (mock_with_header h prev m) h' =
     (if h' = h then Ok (Found \<lparr>prev_share_blockhash = prev\<rparr>) else mock_get_share_header m h')"
  by (auto simp: mock_get_share_header_def mock_with_header_def)

section \<open>The IPC client satisfies the contract\<close>

interpretation ipc_reader: share_reader "ipc_get_share_header S" for S
  by unfold_locales (auto dest: ipc_get_share_header_Found)

end
