(* ===== verification/Tdp.thy ===== *)
theory Tdp
  imports Job_Types Recent_Solutions
begin

text \<open>
  \<open>crates/sv2-p2pool-engine/src/tdp.rs\<close>: the bridge to the Template Distribution Protocol. The
  state is that of \<open>TdpHandleInner\<close>; the one-shot channels of the pending requests are numbered and
  their ends kept in \<open>oneshots\<close>, and the pool-to-provider channel is the list of what was sent plus
  its closed flag. \<open>request_tx_bodies\<close> is split at its suspension points (register, send, poll,
  clean up, decode); the composition takes the effect of the other tasks at each of them as a
  parameter, and \<open>tdp_step\<close> interleaves any number of callers with the demux task.
\<close>

record set_new_prev_hash =
  snph_template_id :: u64
  snph_prev_hash :: bytes
  snph_header_timestamp :: u32
  snph_n_bits :: u32

record new_template =
  nt_template_id :: u64

datatype tx_data_result = TxSuccess "bytes list" | TxError bytes

datatype tdp_error =
    DuplicateRequest u64
  | SendFailed
  | DemuxClosed
  | TdpTimeout u64 duration
  | TpRejected u64 bytes
  | DecodeFailed

datatype oneshot = OWaiting | ODelivered tx_data_result | OSenderDropped | OReceiverDropped

record tdp_handle =
  pending_requests :: "(u64, nat) dmap"
  last_prev_hash :: "set_new_prev_hash option"
  last_template :: "new_template option"
  tx_bodies_timeout :: duration
  tx_request_sent :: "u64 list"
  tx_request_closed :: bool
  oneshots :: "oneshot list"

definition default_tx_bodies_timeout :: duration where
  "default_tx_bodies_timeout = 5 * 1000000000"

definition tdp_new :: tdp_handle where
  "tdp_new =
     \<lparr>pending_requests = dm_empty, last_prev_hash = None, last_template = None,
      tx_bodies_timeout = default_tx_bodies_timeout, tx_request_sent = [],
      tx_request_closed = False, oneshots = []\<rparr>"

definition with_timeout :: "duration \<Rightarrow> tdp_handle \<Rightarrow> tdp_handle" where
  "with_timeout timeout h = h\<lparr>tx_bodies_timeout := timeout\<rparr>"

section \<open>Snapshots\<close>

definition current_tip :: "tdp_handle \<Rightarrow> tip_metadata option" where
  "current_tip h =
     (case last_prev_hash h of
        None \<Rightarrow> None
      | Some msg \<Rightarrow>
          (case to_array32 (snph_prev_hash msg) of
             None \<Rightarrow> None
           | Some prev \<Rightarrow>
               Some \<lparr>tip_prev_hash = prev, tip_nbits = snph_n_bits msg,
                     tip_min_ntime = snph_header_timestamp msg\<rparr>))"

definition current_template_id :: "tdp_handle \<Rightarrow> u64 option" where
  "current_template_id h = map_option nt_template_id (last_template h)"

definition record_set_new_prev_hash :: "set_new_prev_hash \<Rightarrow> tdp_handle \<Rightarrow> tdp_handle" where
  "record_set_new_prev_hash msg h = h\<lparr>last_prev_hash := Some msg\<rparr>"

definition record_new_template :: "new_template \<Rightarrow> tdp_handle \<Rightarrow> tdp_handle" where
  "record_new_template msg h = h\<lparr>last_template := Some msg\<rparr>"

section \<open>Requesting transaction bodies\<close>

text \<open>
  Dropping a one-shot sender that has not sent wakes the receiver with an error.
\<close>

definition drop_sender :: "nat \<Rightarrow> tdp_handle \<Rightarrow> tdp_handle" where
  "drop_sender i h =
     (if i < length (oneshots h) \<and> oneshots h ! i = OWaiting
      then h\<lparr>oneshots := (oneshots h)[i := OSenderDropped]\<rparr> else h)"

definition drop_receiver :: "nat \<Rightarrow> tdp_handle \<Rightarrow> tdp_handle" where
  "drop_receiver i h =
     (if i < length (oneshots h) \<and> oneshots h ! i = OWaiting
      then h\<lparr>oneshots := (oneshots h)[i := OReceiverDropped]\<rparr> else h)"

definition remove_pending :: "u64 \<Rightarrow> tdp_handle \<Rightarrow> tdp_handle" where
  "remove_pending template_id h =
     (case dm_get (pending_requests h) template_id of
        None \<Rightarrow> h
      | Some i \<Rightarrow> drop_sender i (h\<lparr>pending_requests := dm_remove template_id (pending_requests h)\<rparr>))"

definition tdp_register :: "u64 \<Rightarrow> tdp_handle \<Rightarrow> (tdp_error, nat) result \<times> tdp_handle" where
  "tdp_register template_id h =
     (case dm_get (pending_requests h) template_id of
        Some _ \<Rightarrow> (Err (DuplicateRequest template_id), h)
      | None \<Rightarrow>
          let i = length (oneshots h)
          in (Ok i, h\<lparr>pending_requests := dm_insert template_id i (pending_requests h),
                      oneshots := oneshots h @ [OWaiting]\<rparr>))"

definition tdp_send :: "u64 \<Rightarrow> tdp_handle \<Rightarrow> (tdp_error, unit) result \<times> tdp_handle" where
  "tdp_send template_id h =
     (if tx_request_closed h then (Err SendFailed, remove_pending template_id h)
      else (Ok (), h\<lparr>tx_request_sent := tx_request_sent h @ [template_id]\<rparr>))"

datatype await_outcome = Received tx_data_result | RecvClosed | Elapsed

definition poll_oneshot :: "nat \<Rightarrow> tdp_handle \<Rightarrow> await_outcome" where
  "poll_oneshot i h =
     (if i < length (oneshots h)
      then case oneshots h ! i of
             ODelivered r \<Rightarrow> Received r
           | OSenderDropped \<Rightarrow> RecvClosed
           | _ \<Rightarrow> Elapsed
      else Elapsed)"

fun decode_bodies :: "externals \<Rightarrow> bytes list \<Rightarrow> (tdp_error, transaction list) result" where
  "decode_bodies X [] = Ok []"
| "decode_bodies X (tx_bytes # rest) =
     rbind (ok_or DecodeFailed (decode_tx X tx_bytes)) (\<lambda>tx.
     rbind (decode_bodies X rest) (\<lambda>txs. Ok (tx # txs)))"

text \<open>
  \<open>String::from_utf8_lossy\<close>, with a string as its UTF-8 bytes: \<open>utf8_rest\<close> says whether the bytes after
  \<open>b\<close> complete a character, and how many of them belong to it (or to the rejected sequence, which is
  replaced by one U+FFFD).
\<close>

definition utf8_cont :: "bytes \<Rightarrow> nat \<Rightarrow> bool" where
  "utf8_cont bs n \<longleftrightarrow> n < length bs \<and> 0x80 \<le> bs ! n \<and> bs ! n \<le> 0xBF"

definition utf8_second :: "byte \<Rightarrow> bytes \<Rightarrow> bool" where
  "utf8_second b bs \<longleftrightarrow> utf8_cont bs 0 \<and>
     (b = 0xE0 \<longrightarrow> 0xA0 \<le> bs ! 0) \<and> (b = 0xED \<longrightarrow> bs ! 0 \<le> 0x9F) \<and>
     (b = 0xF0 \<longrightarrow> 0x90 \<le> bs ! 0) \<and> (b = 0xF4 \<longrightarrow> bs ! 0 \<le> 0x8F)"

definition utf8_rest :: "byte \<Rightarrow> bytes \<Rightarrow> bool \<times> nat" where
  "utf8_rest b bs =
     (if b < 0x80 then (True, 0)
      else if b < 0xC2 \<or> 0xF4 < b \<or> \<not> utf8_second b bs then (False, 0)
      else if b < 0xE0 then (True, 1)
      else if \<not> utf8_cont bs 1 then (False, 1)
      else if b < 0xF0 then (True, 2)
      else if \<not> utf8_cont bs 2 then (False, 2)
      else (True, 3))"

fun from_utf8_lossy :: "bytes \<Rightarrow> bytes" where
  "from_utf8_lossy [] = []"
| "from_utf8_lossy (b # bs) =
     (case utf8_rest b bs of
        (valid, n) \<Rightarrow>
          (if valid then b # take n bs else [0xEF, 0xBF, 0xBD]) @ from_utf8_lossy (drop n bs))"

lemma from_utf8_lossy_ascii: "\<forall>b \<in> set bs. b < 0x80 \<Longrightarrow> from_utf8_lossy bs = bs"
  by (induction bs) (simp_all add: utf8_rest_def)

lemma from_utf8_lossy_samples:
  "from_utf8_lossy [0x61, 0xFF, 0x62] = [0x61, 0xEF, 0xBF, 0xBD, 0x62]"
  "from_utf8_lossy [0xE2, 0x82, 0xAC] = [0xE2, 0x82, 0xAC]"
  "from_utf8_lossy [0xE2, 0x82, 0x41] = [0xEF, 0xBF, 0xBD, 0x41]"
  "from_utf8_lossy [0xED, 0xA0] = [0xEF, 0xBF, 0xBD, 0xEF, 0xBF, 0xBD]"
  by (simp_all add: utf8_rest_def utf8_second_def utf8_cont_def)

definition decode_response ::
  "externals \<Rightarrow> u64 \<Rightarrow> tx_data_result \<Rightarrow> (tdp_error, transaction list) result" where
  "decode_response X template_id r =
     (case r of
        TxSuccess transaction_list \<Rightarrow> decode_bodies X transaction_list
      | TxError error_code \<Rightarrow> Err (TpRejected template_id (from_utf8_lossy error_code)))"

text \<open>
  The clean-up after the wait: when the timer won, the receiver goes away with the timed future, and
  then the entry of the template id is removed, whoever registered it.
\<close>

definition finish_wait ::
  "externals \<Rightarrow> u64 \<Rightarrow> nat \<Rightarrow> await_outcome \<Rightarrow> tdp_handle \<Rightarrow>
     (tdp_error, transaction list) result \<times> tdp_handle" where
  "finish_wait X template_id i outcome h =
     (case outcome of
        Received r \<Rightarrow> (decode_response X template_id r, h)
      | RecvClosed \<Rightarrow> (Err DemuxClosed, remove_pending template_id h)
      | Elapsed \<Rightarrow>
          (Err (TdpTimeout template_id (tx_bodies_timeout h)), remove_pending template_id (drop_receiver i h)))"

text \<open>
  The whole call, inside a larger state: \<open>g\<close> and \<open>p\<close> read and write the handle's state, \<open>env 0\<close> is
  what other tasks do while the request is being sent and \<open>env 1\<close> what they do during the wait. When
  nothing has arrived after \<open>env 1\<close>, the timeout has elapsed.
\<close>

definition request_tx_bodies ::
  "externals \<Rightarrow> ('s \<Rightarrow> tdp_handle) \<Rightarrow> (tdp_handle \<Rightarrow> 's \<Rightarrow> 's) \<Rightarrow> (nat \<Rightarrow> 's \<Rightarrow> 's) \<Rightarrow> u64 \<Rightarrow> 's \<Rightarrow>
     (tdp_error, transaction list) result \<times> 's" where
  "request_tx_bodies X g p env template_id s =
     (case tdp_register template_id (g s) of
        (Ok i, h) \<Rightarrow>
          let s1 = env 0 (p h s)
          in (case tdp_send template_id (g s1) of
                (Ok _, h2) \<Rightarrow>
                  let s2 = env 1 (p h2 s1);
                      (r, h3) = finish_wait X template_id i (poll_oneshot i (g s2)) (g s2)
                  in (r, p h3 s2)
              | (Err e, h2) \<Rightarrow> (Err e, p h2 s1)
              | (Panic, h2) \<Rightarrow> (Panic, p h2 s1))
      | (Err e, h) \<Rightarrow> (Err e, p h s)
      | (Panic, h) \<Rightarrow> (Panic, p h s))"

definition deliver_response :: "u64 \<Rightarrow> tx_data_result \<Rightarrow> tdp_handle \<Rightarrow> bool \<times> tdp_handle" where
  "deliver_response template_id r h =
     (case dm_get (pending_requests h) template_id of
        None \<Rightarrow> (False, h)
      | Some i \<Rightarrow>
          let h' = h\<lparr>pending_requests := dm_remove template_id (pending_requests h)\<rparr>
          in if i < length (oneshots h) \<and> oneshots h ! i = OWaiting
             then (True, h'\<lparr>oneshots := (oneshots h)[i := ODelivered r]\<rparr>)
             else (False, h'))"

section \<open>The handle's invariant\<close>

text \<open>
  Every pending entry is a fresh, still waiting one-shot, and no two template ids share one.
\<close>

definition tdp_ok :: "tdp_handle \<Rightarrow> bool" where
  "tdp_ok h \<longleftrightarrow> dm_wf (pending_requests h) \<and>
     (\<forall>t i. dm_get (pending_requests h) t = Some i \<longrightarrow>
        i < length (oneshots h) \<and> oneshots h ! i \<in> {OWaiting, OReceiverDropped}) \<and>
     (\<forall>t t' i. dm_get (pending_requests h) t = Some i \<longrightarrow> dm_get (pending_requests h) t' = Some i \<longrightarrow> t = t')"

lemma tdp_okD:
  assumes "tdp_ok h" and "dm_get (pending_requests h) t = Some i"
  shows "i < length (oneshots h)" "oneshots h ! i \<in> {OWaiting, OReceiverDropped}"
    "dm_get (pending_requests h) t' = Some i \<Longrightarrow> t' = t"
  using assms unfolding tdp_ok_def by blast+

lemma tdp_ok_wf [simp]: "tdp_ok h \<Longrightarrow> dm_wf (pending_requests h)"
  by (simp add: tdp_ok_def)

lemma tdp_ok_new: "tdp_ok tdp_new"
  by (simp add: tdp_ok_def tdp_new_def)

lemma tdp_ok_register: "tdp_ok h \<Longrightarrow> tdp_ok (snd (tdp_register t h))"
  unfolding tdp_ok_def tdp_register_def
  by (auto simp: Let_def nth_append less_Suc_eq split: option.splits)

lemma tdp_ok_remove_pending:
  assumes "tdp_ok h"
  shows "tdp_ok (remove_pending t h)"
proof (cases "dm_get (pending_requests h) t")
  case None
  with assms show ?thesis by (simp add: remove_pending_def)
next
  case (Some i)
  have other: "j \<noteq> i" if "dm_get (pending_requests h) t' = Some j" "t' \<noteq> t" for t' j
    using tdp_okD(3) [OF assms Some] that by blast
  from assms Some other show ?thesis
    unfolding tdp_ok_def
    by (auto simp: remove_pending_def drop_sender_def nth_list_update)
qed

lemma tdp_ok_drop_receiver: "tdp_ok h \<Longrightarrow> tdp_ok (drop_receiver i h)"
  unfolding tdp_ok_def drop_receiver_def by (auto simp: nth_list_update)

lemma tdp_ok_send: "tdp_ok h \<Longrightarrow> tdp_ok (snd (tdp_send t h))"
  by (auto simp: tdp_send_def tdp_ok_remove_pending) (simp add: tdp_ok_def)

lemma tdp_ok_finish: "tdp_ok h \<Longrightarrow> tdp_ok (snd (finish_wait X t i oc h))"
  by (cases oc) (simp_all add: finish_wait_def tdp_ok_remove_pending tdp_ok_drop_receiver)

lemma tdp_ok_deliver:
  assumes "tdp_ok h"
  shows "tdp_ok (snd (deliver_response t r h))"
proof (cases "dm_get (pending_requests h) t")
  case None
  with assms show ?thesis by (simp add: deliver_response_def)
next
  case (Some i)
  have other: "j \<noteq> i" if "dm_get (pending_requests h) t' = Some j" "t' \<noteq> t" for t' j
    using tdp_okD(3) [OF assms Some] that by blast
  from assms Some other show ?thesis
    unfolding tdp_ok_def by (auto simp: deliver_response_def Let_def nth_list_update)
qed

lemma tdp_ok_record:
  "tdp_ok h \<Longrightarrow> tdp_ok (record_set_new_prev_hash m h)" "tdp_ok h \<Longrightarrow> tdp_ok (record_new_template m' h)"
  by (simp_all add: tdp_ok_def record_set_new_prev_hash_def record_new_template_def)

lemmas tdp_ok_ops = tdp_ok_new tdp_ok_register tdp_ok_send tdp_ok_finish tdp_ok_deliver tdp_ok_record
  tdp_ok_remove_pending tdp_ok_drop_receiver

end
