(* ===== verification/Tdp_System.thy ===== *)
theory Tdp_System
  imports Tdp
begin

text \<open>
  Properties of the template-provider bridge: the sequential behaviour of \<open>request_tx_bodies\<close>
  against a demux task, and any number of callers interleaved with the demux task at the
  suspension points of the source.
\<close>

section \<open>One caller and the demux task\<close>

definition deliver_all :: "(u64 \<times> tx_data_result) list \<Rightarrow> tdp_handle \<Rightarrow> tdp_handle" where
  "deliver_all events h = foldl (\<lambda>h (t, r). snd (deliver_response t r h)) h events"

lemma deliver_all_Nil [simp]: "deliver_all [] h = h"
  by (simp add: deliver_all_def)

lemma deliver_all_Cons [simp]:
  "deliver_all ((t, r) # es) h = deliver_all es (snd (deliver_response t r h))"
  by (simp add: deliver_all_def)

lemma tdp_ok_deliver_all: "tdp_ok h \<Longrightarrow> tdp_ok (deliver_all es h)"
  by (induction es arbitrary: h) (auto simp: tdp_ok_deliver)

lemma pending_deliver: "dm_get (pending_requests (snd (deliver_response t r h))) t' =
    (if t' = t then None else dm_get (pending_requests h) t')"
  by (auto simp: deliver_response_def Let_def split: option.splits)

lemma timeout_deliver [simp]:
  "tx_bodies_timeout (snd (deliver_response t r h)) = tx_bodies_timeout h"
  by (auto simp: deliver_response_def Let_def split: option.splits)

lemma timeout_deliver_all [simp]: "tx_bodies_timeout (deliver_all es h) = tx_bodies_timeout h"
  by (induction es arbitrary: h) auto

lemma deliver_keeps:
  assumes "tdp_ok h" and "i < length (oneshots h)" and "dm_get (pending_requests h) t \<noteq> Some i"
  shows "oneshots (snd (deliver_response t r h)) ! i = oneshots h ! i"
    and "length (oneshots (snd (deliver_response t r h))) = length (oneshots h)"
  using assms by (auto simp: deliver_response_def Let_def nth_list_update split: option.splits)

lemma deliver_all_delivered:
  assumes "tdp_ok h" and "i < length (oneshots h)" and "oneshots h ! i = ODelivered r"
    and "dm_get (pending_requests h) t = None"
  shows "oneshots (deliver_all es h) ! i = ODelivered r \<and> i < length (oneshots (deliver_all es h))
    \<and> dm_get (pending_requests (deliver_all es h)) t = None"
  using assms
proof (induction es arbitrary: h)
  case Nil
  then show ?case by simp
next
  case (Cons e es)
  obtain t' r' where e: "e = (t', r')" by (cases e)
  have "dm_get (pending_requests h) t' \<noteq> Some i"
    using Cons.prems tdp_okD(2) [of h t' i] by auto
  with Cons show ?case
    by (auto simp: e deliver_keeps tdp_ok_deliver pending_deliver)
qed

lemma deliver_all_first:
  assumes "tdp_ok h" and "dm_get (pending_requests h) t = Some i" and "oneshots h ! i = OWaiting"
  shows "poll_oneshot i (deliver_all es h) =
      (case map_of es t of Some r \<Rightarrow> Received r | None \<Rightarrow> Elapsed) \<and>
    dm_get (pending_requests (deliver_all es h)) t = (if map_of es t = None then Some i else None)"
  using assms
proof (induction es arbitrary: h)
  case Nil
  then show ?case using tdp_okD(1) [of h t i] by (simp add: poll_oneshot_def)
next
  case (Cons e es)
  obtain t' r' where e: "e = (t', r')" by (cases e)
  note lt = tdp_okD(1) [OF Cons.prems(1,2)]
  show ?case
  proof (cases "t' = t")
    case True
    let ?h = "snd (deliver_response t r' h)"
    have "oneshots ?h ! i = ODelivered r'" "i < length (oneshots ?h)"
      "dm_get (pending_requests ?h) t = None"
      using Cons.prems lt by (auto simp: deliver_response_def Let_def)
    with Cons.prems(1) have "oneshots (deliver_all es ?h) ! i = ODelivered r' \<and>
        i < length (oneshots (deliver_all es ?h)) \<and>
        dm_get (pending_requests (deliver_all es ?h)) t = None"
      by (intro deliver_all_delivered) (auto simp: tdp_ok_deliver)
    with True show ?thesis by (simp add: e poll_oneshot_def)
  next
    case False
    with Cons.prems have "dm_get (pending_requests h) t' \<noteq> Some i"
      using tdp_okD(3) [of h t i t'] by auto
    with Cons False lt show ?thesis
      by (auto simp: e deliver_keeps tdp_ok_deliver pending_deliver)
  qed
qed

text \<open>
  C22: \<open>request_tx_bodies\<close> against a demux task that delivers any list of responses while the call
  waits, in every branch: a second request for a template id that is in flight is refused and
  changes nothing; a closed channel is reported; otherwise the result is that of the first response
  for this template id, decoded, or a timeout when there is none, whatever was delivered for other
  templates or after it. Whatever the outcome, no entry of the call stays behind. (Only the demux task
  runs meanwhile; what other callers can do to the entry is the subject of \<open>timeout_cleanup_race\<close>.)
\<close>

theorem request_tx_bodies_outcome:
  assumes "tdp_ok h"
    and "request_tx_bodies X (\<lambda>h. h) (\<lambda>h _. h) (\<lambda>n. if n = 1 then deliver_all es else (\<lambda>h. h)) t h = (r, h')"
  shows "(dm_get (pending_requests h) t \<noteq> None \<and> r = Err (DuplicateRequest t) \<and> h' = h) \<or>
    (dm_get (pending_requests h) t = None \<and> dm_get (pending_requests h') t = None \<and> tdp_ok h' \<and>
     r = (if tx_request_closed h then Err SendFailed
          else case map_of es t of
                 Some resp \<Rightarrow> decode_response X t resp
               | None \<Rightarrow> Err (TdpTimeout t (tx_bodies_timeout h))))"
proof -
  note run = assms(2)
  show ?thesis
  proof (cases "dm_get (pending_requests h) t")
    case (Some i)
    with run show ?thesis by (simp add: request_tx_bodies_def tdp_register_def)
  next
    case None
    let ?i = "length (oneshots h)"
    let ?h1 = "h\<lparr>pending_requests := dm_insert t ?i (pending_requests h), oneshots := oneshots h @ [OWaiting]\<rparr>"
    let ?h2 = "?h1\<lparr>tx_request_sent := tx_request_sent h @ [t]\<rparr>"
    have reg: "tdp_register t h = (Ok ?i, ?h1)" using None by (simp add: tdp_register_def Let_def)
    from tdp_ok_register [OF assms(1), of t] reg have ok1: "tdp_ok ?h1" by simp
    have gone: "dm_get (pending_requests (remove_pending t x)) t = None" for x
      by (auto simp: remove_pending_def drop_sender_def split: option.splits)
    show ?thesis
    proof (cases "tx_request_closed h")
      case True
      with run reg None ok1 gone tdp_ok_remove_pending [OF ok1, of t] show ?thesis
        by (auto simp: request_tx_bodies_def tdp_send_def)
    next
      case False
      from tdp_ok_send [OF ok1, of t] False have ok2: "tdp_ok ?h2" by (simp add: tdp_send_def)
      note first = deliver_all_first [OF ok2, of t ?i es]
      have fin: "(r, h') = finish_wait X t ?i (poll_oneshot ?i (deliver_all es ?h2)) (deliver_all es ?h2)"
        using run reg False by (auto simp: request_tx_bodies_def tdp_send_def Let_def split: prod.splits)
      have ok': "tdp_ok h'"
        using tdp_ok_finish [OF tdp_ok_deliver_all [OF ok2, of es]] fin by (metis snd_conv)
      show ?thesis
        using first fin ok' None False
        by (cases "map_of es t") (auto simp: finish_wait_def gone)
    qed
  qed
qed

theorem request_tx_bodies_outcome_witness:
  "\<exists>h'. request_tx_bodies sample_ext (\<lambda>h. h) (\<lambda>h _. h)
      (\<lambda>n. if n = 1 then deliver_all [(7, TxSuccess [])] else (\<lambda>h. h)) 7 tdp_new = (Ok [], h') \<and>
      dm_get (pending_requests h') 7 = None"
proof -
  obtain r h' where run: "request_tx_bodies sample_ext (\<lambda>h. h) (\<lambda>h _. h)
      (\<lambda>n. if n = 1 then deliver_all [(7, TxSuccess [])] else (\<lambda>h. h)) 7 tdp_new = (r, h')"
    by (metis prod.exhaust)
  from request_tx_bodies_outcome [OF tdp_ok_new run] run show ?thesis
    by (auto simp: tdp_new_def decode_response_def)
qed

section \<open>Interleaved callers\<close>

text \<open>
  A call is a template id and where the caller is: \<open>Registered\<close> before its send, \<open>Waiting\<close> at the
  response, \<open>Decided\<close> when the timed wait has returned but the clean-up has not taken the lock yet,
  and \<open>Done\<close>. Call \<open>i\<close> owns one-shot \<open>i\<close>.
\<close>

datatype phase =
    Registered
  | Waiting
  | Decided await_outcome
  | Done "(tdp_error, transaction list) result"

record tdp_sys =
  sys_h :: tdp_handle
  sys_calls :: "(u64 \<times> phase) list"
  sys_log :: "(u64 \<times> tx_data_result) list"

fun after_send :: "(tdp_error, unit) result \<Rightarrow> phase" where
  "after_send (Ok _) = Waiting"
| "after_send (Err e) = Done (Err e)"
| "after_send Panic = Done Panic"

inductive tdp_step :: "externals \<Rightarrow> tdp_sys \<Rightarrow> tdp_sys \<Rightarrow> bool" for X where
  call: "tdp_register t (sys_h s) = (Ok i, h) \<Longrightarrow>
     tdp_step X s (s\<lparr>sys_h := h, sys_calls := sys_calls s @ [(t, Registered)]\<rparr>)"
| send: "i < length (sys_calls s) \<Longrightarrow> sys_calls s ! i = (t, Registered) \<Longrightarrow>
     tdp_send t (sys_h s) = (r, h) \<Longrightarrow>
     tdp_step X s (s\<lparr>sys_h := h, sys_calls := (sys_calls s)[i := (t, after_send r)]\<rparr>)"
| poll: "i < length (sys_calls s) \<Longrightarrow> sys_calls s ! i = (t, Waiting) \<Longrightarrow>
     tdp_step X s (s\<lparr>sys_calls := (sys_calls s)[i := (t, Decided (poll_oneshot i (sys_h s)))]\<rparr>)"
| finish: "i < length (sys_calls s) \<Longrightarrow> sys_calls s ! i = (t, Decided oc) \<Longrightarrow>
     finish_wait X t i oc (sys_h s) = (r, h) \<Longrightarrow>
     tdp_step X s (s\<lparr>sys_h := h, sys_calls := (sys_calls s)[i := (t, Done r)]\<rparr>)"
| deliver: "deliver_response t r (sys_h s) = (b, h) \<Longrightarrow>
     tdp_step X s (s\<lparr>sys_h := h, sys_log := sys_log s @ [(t, r)]\<rparr>)"
| prev_hash: "tdp_step X s (s\<lparr>sys_h := record_set_new_prev_hash m (sys_h s)\<rparr>)"
| template: "tdp_step X s (s\<lparr>sys_h := record_new_template m' (sys_h s)\<rparr>)"
| close: "tdp_step X s (s\<lparr>sys_h := (sys_h s)\<lparr>tx_request_closed := True\<rparr>\<rparr>)"

definition tdp_start :: "tdp_sys \<Rightarrow> bool" where
  "tdp_start s \<longleftrightarrow> s = \<lparr>sys_h = tdp_new, sys_calls = [], sys_log = []\<rparr>"

section \<open>The invariant of the interleaving\<close>

definition oneshots_owned :: "tdp_sys \<Rightarrow> bool" where
  "oneshots_owned s \<longleftrightarrow> tdp_ok (sys_h s) \<and> length (sys_calls s) = length (oneshots (sys_h s)) \<and>
     (\<forall>t i. dm_get (pending_requests (sys_h s)) t = Some i \<longrightarrow> fst (sys_calls s ! i) = t) \<and>
     (\<forall>i < length (oneshots (sys_h s)). \<forall>r. oneshots (sys_h s) ! i = ODelivered r \<longrightarrow>
        (fst (sys_calls s ! i), r) \<in> set (sys_log s))"

fun call_justified :: "externals \<Rightarrow> (u64 \<times> tx_data_result) list \<Rightarrow> u64 \<times> phase \<Rightarrow> bool" where
  "call_justified X log (t, Decided (Received r)) = ((t, r) \<in> set log)"
| "call_justified X log (t, Done (Ok txs)) =
     (\<exists>l. (t, TxSuccess l) \<in> set log \<and> decode_bodies X l = Ok txs)"
| "call_justified X log (t, Done (Err (TpRejected t' code))) = 
     (t' = t \<and> (\<exists>b. (t, TxError b) \<in> set log \<and> code = from_utf8_lossy b))"
| "call_justified X log _ = True"

definition tdp_inv :: "externals \<Rightarrow> tdp_sys \<Rightarrow> bool" where
  "tdp_inv X s \<longleftrightarrow> oneshots_owned s \<and> (\<forall>c \<in> set (sys_calls s). call_justified X (sys_log s) c)"

lemma call_justified_mono:
  "call_justified X log c \<Longrightarrow> set log \<subseteq> set log' \<Longrightarrow> call_justified X log' c"
  by (induction X log c rule: call_justified.induct) auto

lemma remove_pending_facts:
  "length (oneshots (remove_pending t h)) = length (oneshots h)"
  "oneshots (remove_pending t h) ! i = ODelivered r \<Longrightarrow> oneshots h ! i = ODelivered r"
  "dm_get (pending_requests (remove_pending t h)) t' = Some j \<Longrightarrow> dm_get (pending_requests h) t' = Some j"
  by (auto simp: remove_pending_def drop_sender_def nth_list_update split: option.splits if_splits)

lemma drop_receiver_facts:
  "length (oneshots (drop_receiver j h)) = length (oneshots h)"
  "oneshots (drop_receiver j h) ! i = ODelivered r \<Longrightarrow> oneshots h ! i = ODelivered r"
  "pending_requests (drop_receiver j h) = pending_requests h"
  by (auto simp: drop_receiver_def nth_list_update split: if_splits)

lemma send_facts:
  assumes "tdp_send t h = (r, h')"
  shows "length (oneshots h') = length (oneshots h)"
    and "oneshots h' ! i = ODelivered x \<Longrightarrow> oneshots h ! i = ODelivered x"
    and "dm_get (pending_requests h') t' = Some j \<Longrightarrow> dm_get (pending_requests h) t' = Some j"
proof -
  have "h' = remove_pending t h \<or> (oneshots h' = oneshots h \<and> pending_requests h' = pending_requests h)"
    using assms by (auto simp: tdp_send_def split: if_splits)
  then show "length (oneshots h') = length (oneshots h)"
    and "oneshots h' ! i = ODelivered x \<Longrightarrow> oneshots h ! i = ODelivered x"
    and "dm_get (pending_requests h') t' = Some j \<Longrightarrow> dm_get (pending_requests h) t' = Some j"
    using remove_pending_facts [where t = t and h = h] by metis+
qed

lemma finish_facts:
  assumes "finish_wait X t k oc h = (r, h')"
  shows "length (oneshots h') = length (oneshots h)"
    and "oneshots h' ! i = ODelivered x \<Longrightarrow> oneshots h ! i = ODelivered x"
    and "dm_get (pending_requests h') t' = Some j \<Longrightarrow> dm_get (pending_requests h) t' = Some j"
proof -
  have "h' = h \<or> h' = remove_pending t h \<or> h' = remove_pending t (drop_receiver k h)"
    using assms by (cases oc) (auto simp: finish_wait_def)
  then show "length (oneshots h') = length (oneshots h)"
    and "oneshots h' ! i = ODelivered x \<Longrightarrow> oneshots h ! i = ODelivered x"
    and "dm_get (pending_requests h') t' = Some j \<Longrightarrow> dm_get (pending_requests h) t' = Some j"
    using remove_pending_facts [where t = t and h = h]
      remove_pending_facts [where t = t and h = "drop_receiver k h"]
      drop_receiver_facts [where j = k and h = h] by metis+
qed

lemma owned_shrink:
  assumes "oneshots_owned s" and "tdp_ok h" and "length (oneshots h) = length (oneshots (sys_h s))"
    and "\<And>i r. oneshots h ! i = ODelivered r \<Longrightarrow> oneshots (sys_h s) ! i = ODelivered r"
    and "\<And>t i. dm_get (pending_requests h) t = Some i \<Longrightarrow> dm_get (pending_requests (sys_h s)) t = Some i"
    and "map fst cs = map fst (sys_calls s)" and "set (sys_log s) \<subseteq> set log"
  shows "oneshots_owned (s\<lparr>sys_h := h, sys_calls := cs, sys_log := log\<rparr>)"
proof -
  have len: "length cs = length (sys_calls s)" using assms(6) by (metis length_map)
  have nth: "fst (cs ! i) = fst (sys_calls s ! i)" if "i < length (sys_calls s)" for i
    using assms(6) len that by (metis nth_map)
  have lt: "i < length (sys_calls s)" if "dm_get (pending_requests (sys_h s)) t = Some i" for t i
    using assms(1) that tdp_okD(1) unfolding oneshots_owned_def by metis
  have pend: "fst (cs ! i) = t" if "dm_get (pending_requests h) t = Some i" for t i
    using assms(1) assms(5) [OF that] nth lt unfolding oneshots_owned_def by metis
  show ?thesis
    using assms(1-4,7) nth pend len unfolding oneshots_owned_def by (auto simp: subset_eq)
qed

lemma owned_call:
  assumes "oneshots_owned s" and "tdp_register t (sys_h s) = (Ok i, h)"
  shows "oneshots_owned (s\<lparr>sys_h := h, sys_calls := sys_calls s @ [(t, ph)]\<rparr>)"
proof -
  from assms(2) have none: "dm_get (pending_requests (sys_h s)) t = None"
    and i: "i = length (oneshots (sys_h s))"
    and h: "h = (sys_h s)\<lparr>pending_requests := dm_insert t i (pending_requests (sys_h s)),
        oneshots := oneshots (sys_h s) @ [OWaiting]\<rparr>"
    by (auto simp: tdp_register_def Let_def split: option.splits)
  have ok: "tdp_ok h" using tdp_ok_register [of "sys_h s" t] assms unfolding oneshots_owned_def by simp
  have lt: "j < length (oneshots (sys_h s))" if "dm_get (pending_requests (sys_h s)) t' = Some j" for t' j
    using assms(1) that tdp_okD(1) unfolding oneshots_owned_def by metis
  show ?thesis
    using assms(1) ok none lt unfolding oneshots_owned_def
    by (auto simp: h i nth_append less_Suc_eq)
qed

lemma owned_deliver:
  assumes own: "oneshots_owned s" and del: "deliver_response t r (sys_h s) = (b, h)"
  shows "oneshots_owned (s\<lparr>sys_h := h, sys_log := sys_log s @ [(t, r)]\<rparr>)"
proof -
  have ok: "tdp_ok h" using tdp_ok_deliver [of "sys_h s" t r] own del unfolding oneshots_owned_def by simp
  have pend: "dm_get (pending_requests h) t' = (if t' = t then None else dm_get (pending_requests (sys_h s)) t')" for t'
    using pending_deliver [of t r "sys_h s" t'] del by simp
  have len: "length (oneshots h) = length (oneshots (sys_h s))"
    using del by (auto simp: deliver_response_def Let_def split: option.splits if_splits)
  have shot: "oneshots h ! i = oneshots (sys_h s) ! i \<or>
      (dm_get (pending_requests (sys_h s)) t = Some i \<and> oneshots h ! i = ODelivered r)"
    if "i < length (oneshots (sys_h s))" for i
    using del that
    by (auto simp: deliver_response_def Let_def nth_list_update split: option.splits if_splits)
  show ?thesis
    using own ok pend len shot unfolding oneshots_owned_def
    by (auto split: if_splits) (metis oneshot.inject)+
qed

lemma list_update_fst: "i < length cs \<Longrightarrow> cs ! i = (t, x) \<Longrightarrow> map fst (cs[i := (t, y)]) = map fst cs"
  by (simp add: map_update list_update_same_conv)

lemma owned_step:
  assumes "tdp_step X s s'" and "oneshots_owned s"
  shows "oneshots_owned s'"
  using assms
proof (induction rule: tdp_step.induct)
  case (call t s i h)
  then show ?case by (simp add: owned_call)
next
  case (send i s t r h)
  then show ?case
    using owned_shrink [of s h "(sys_calls s)[i := (t, after_send r)]" "sys_log s"]
      send_facts [OF send(3)] tdp_ok_send [of "sys_h s" t]
    by (simp add: list_update_fst) (metis oneshots_owned_def snd_conv)
next
  case (poll i s t)
  then show ?case
    using owned_shrink [of s "sys_h s" "(sys_calls s)[i := (t, Decided (poll_oneshot i (sys_h s)))]" "sys_log s"]
    by (simp add: list_update_fst oneshots_owned_def)
next
  case (finish i s t oc r h)
  then show ?case
    using owned_shrink [of s h "(sys_calls s)[i := (t, Done r)]" "sys_log s"]
      finish_facts [OF finish(3)] tdp_ok_finish [of "sys_h s" X t i oc]
    by (simp add: list_update_fst) (metis oneshots_owned_def snd_conv)
next
  case (deliver t r s b h)
  then show ?case by (simp add: owned_deliver)
qed (auto simp: oneshots_owned_def tdp_ok_def record_set_new_prev_hash_def record_new_template_def)

lemma poll_Received:
  assumes "oneshots_owned s" and "i < length (sys_calls s)" and "poll_oneshot i (sys_h s) = Received r"
  shows "(fst (sys_calls s ! i), r) \<in> set (sys_log s)"
  using assms unfolding oneshots_owned_def
  by (auto simp: poll_oneshot_def split: oneshot.splits if_splits)

lemma justified_update:
  assumes "\<forall>c \<in> set cs. call_justified X log c" and "call_justified X log c'"
  shows "\<forall>c \<in> set (cs[i := c']). call_justified X log c"
  using assms set_update_subset_insert [of cs i c'] by blast

lemma decode_bodies_err: "decode_bodies X l = Err e \<Longrightarrow> e = DecodeFailed"
  by (induction l) (auto simp: rbind_iffs)

lemma decode_response_justified:
  assumes "(t, r) \<in> set log"
  shows "call_justified X log (t, Done (decode_response X t r))"
proof (cases r)
  case (TxSuccess l)
  with assms show ?thesis
    by (cases "decode_bodies X l") (auto simp: decode_response_def dest: decode_bodies_err)
next
  case (TxError code)
  with assms show ?thesis by (auto simp: decode_response_def)
qed

lemma tdp_inv_step:
  assumes "tdp_step X s s'" and "tdp_inv X s"
  shows "tdp_inv X s'"
proof -
  from assms(2) have own: "oneshots_owned s" and just: "\<forall>c \<in> set (sys_calls s). call_justified X (sys_log s) c"
    by (auto simp: tdp_inv_def)
  have "\<forall>c \<in> set (sys_calls s'). call_justified X (sys_log s') c"
    using assms(1) own just
  proof (cases rule: tdp_step.cases)
    case (send i t r h)
    moreover have "call_justified X (sys_log s) (t, after_send r)"
      using send by (cases r) (auto simp: tdp_send_def split: if_splits)
    ultimately show ?thesis using justified_update [OF just] by simp
  next
    case (poll i t)
    then have "call_justified X (sys_log s) (t, Decided (poll_oneshot i (sys_h s)))"
      using poll_Received [OF own poll(2)] by (cases "poll_oneshot i (sys_h s)") auto
    with poll justified_update [OF just] show ?thesis by simp
  next
    case (finish i t oc r h)
    have "call_justified X (sys_log s) (t, Decided oc)"
      using just finish nth_mem by metis
    with finish have "call_justified X (sys_log s) (t, Done r)"
      by (cases oc) (auto simp: finish_wait_def decode_response_justified)
    with finish justified_update [OF just] show ?thesis by simp
  next
    case (deliver t r b h)
    with just show ?thesis by (auto intro: call_justified_mono)
  qed (use just in auto)
  with owned_step [OF assms(1) own] show ?thesis by (simp add: tdp_inv_def)
qed

lemma tdp_inv_start: "tdp_start s \<Longrightarrow> tdp_inv X s"
  using tdp_ok_new by (simp add: tdp_start_def tdp_inv_def oneshots_owned_def) (simp add: tdp_new_def)

interpretation tdp: invariant_system tdp_start "tdp_step X" "tdp_inv X" for X
  by unfold_locales (simp_all add: tdp_inv_start tdp_inv_step)

section \<open>Every one-shot is accounted for\<close>

text \<open>
  A one-shot that still waits is the registered one of its template id; one whose sender was dropped
  lost it to a call for the same template id that reported an error; one whose receiver is gone
  belongs to a call that returned.
\<close>

definition failed_call :: "u64 \<Rightarrow> tdp_sys \<Rightarrow> bool" where
  "failed_call t s \<longleftrightarrow> (\<exists>e. (t, Done (Err e)) \<in> set (sys_calls s))"

definition shot_ok :: "tdp_sys \<Rightarrow> nat \<Rightarrow> bool" where
  "shot_ok s i = (case oneshots (sys_h s) ! i of
      OWaiting \<Rightarrow> dm_get (pending_requests (sys_h s)) (fst (sys_calls s ! i)) = Some i
    | ODelivered _ \<Rightarrow> True
    | OSenderDropped \<Rightarrow> failed_call (fst (sys_calls s ! i)) s
    | OReceiverDropped \<Rightarrow> (\<exists>r. snd (sys_calls s ! i) = Done r))"

definition shots_ok :: "externals \<Rightarrow> tdp_sys \<Rightarrow> bool" where
  "shots_ok X s \<longleftrightarrow> tdp_inv X s \<and> (\<forall>i < length (oneshots (sys_h s)). shot_ok s i)"

lemma failed_call_mono:
  "failed_call t s \<Longrightarrow> set (sys_calls s) \<subseteq> set (sys_calls s') \<Longrightarrow> failed_call t s'"
  by (auto simp: failed_call_def)

lemma failed_call_update:
  assumes "failed_call t s" and "i < length (sys_calls s)" and "sys_calls s ! i = (t', ph)"
    and "\<And>e. ph \<noteq> Done (Err e)"
  shows "failed_call t (s\<lparr>sys_h := h, sys_calls := (sys_calls s)[i := c]\<rparr>)"
proof -
  from assms(1) obtain e where e: "(t, Done (Err e)) \<in> set (sys_calls s)" by (auto simp: failed_call_def)
  then obtain j where j: "j < length (sys_calls s)" "sys_calls s ! j = (t, Done (Err e))"
    by (auto simp: in_set_conv_nth)
  with assms(3) assms(4) [of e] have "j \<noteq> i" by auto
  with j have "(sys_calls s)[i := c] ! j = (t, Done (Err e))" by simp
  then have "(t, Done (Err e)) \<in> set ((sys_calls s)[i := c])" using j(1) by (metis length_list_update nth_mem)
  then show ?thesis by (auto simp: failed_call_def)
qed

lemma remove_pending_shot:
  assumes "tdp_ok h" and "i < length (oneshots h)"
  shows "oneshots (remove_pending t h) ! i = oneshots h ! i \<and> dm_get (pending_requests h) t \<noteq> Some i \<or>
    oneshots (remove_pending t h) ! i \<in> {OSenderDropped, OReceiverDropped} \<and> dm_get (pending_requests h) t = Some i \<and>
    (oneshots (remove_pending t h) ! i = OReceiverDropped \<longrightarrow> oneshots h ! i = OReceiverDropped)"
  using assms tdp_okD [OF assms(1), of t]
  by (auto simp: remove_pending_def drop_sender_def nth_list_update split: option.splits)

lemma remove_pending_get:
  "dm_get (pending_requests (remove_pending t h)) t' =
     (if t' = t then None else dm_get (pending_requests h) t')"
  by (auto simp: remove_pending_def drop_sender_def split: option.splits)

lemma fst_update: "i < length cs \<Longrightarrow> cs ! i = (t, x) \<Longrightarrow> fst (cs[i := (t, y)] ! k) = fst (cs ! k)"
  by (cases "k = i") auto

text \<open>
  A call that leaves its handle's entry alone, and one that removes it and reports an error.
\<close>

lemma shot_ok_phase:
  assumes "shot_ok s k" and "i < length (sys_calls s)" and "sys_calls s ! i = (t, ph)"
    and "\<And>r. ph \<noteq> Done r" and "oneshots h ! k = oneshots (sys_h s) ! k"
    and "pending_requests h = pending_requests (sys_h s)"
  shows "shot_ok (s\<lparr>sys_h := h, sys_calls := (sys_calls s)[i := (t, ph')]\<rparr>) k"
proof (cases "oneshots (sys_h s) ! k")
  case OReceiverDropped
  with assms(1,3,4) have "k \<noteq> i" by (auto simp: shot_ok_def)
  with assms(1,5) OReceiverDropped show ?thesis by (simp add: shot_ok_def)
qed (use assms failed_call_update [OF _ assms(2,3)] in \<open>auto simp: shot_ok_def fst_update\<close>)

lemma shot_ok_removed:
  assumes "shot_ok s k" and "tdp_ok (sys_h s)" and "k < length (oneshots (sys_h s))"
    and "\<And>t' i'. dm_get (pending_requests (sys_h s)) t' = Some i' \<Longrightarrow> fst (sys_calls s ! i') = t'"
    and "failed_call t s"
  shows "shot_ok (s\<lparr>sys_h := remove_pending t (sys_h s)\<rparr>) k"
proof -
  let ?s = "s\<lparr>sys_h := remove_pending t (sys_h s)\<rparr>"
  show ?thesis
  proof (cases "dm_get (pending_requests (sys_h s)) t = Some k")
    case True
    then have "fst (sys_calls s ! k) = t" using assms(4) by blast
    with remove_pending_shot [OF assms(2,3), of t] True assms(1,5) show ?thesis
      by (auto simp: shot_ok_def failed_call_def)
  next
    case False
    with remove_pending_shot [OF assms(2,3), of t]
    have same: "oneshots (sys_h ?s) ! k = oneshots (sys_h s) ! k" by simp
    from False assms(1) show ?thesis
      unfolding shot_ok_def same by (auto simp: failed_call_def remove_pending_get split: oneshot.splits)
  qed
qed

lemma failed_call_now: "i < length (sys_calls s) \<Longrightarrow> failed_call t (s\<lparr>sys_calls := (sys_calls s)[i := (t, Done (Err e))]\<rparr>)"
  by (auto simp: failed_call_def intro!: exI [of _ e] set_update_memI)

lemma shot_ok_dropped:
  assumes "shot_ok s k" and "\<exists>r. snd (sys_calls s ! i) = Done r"
  shows "shot_ok (s\<lparr>sys_h := drop_receiver i (sys_h s)\<rparr>) k"
  using assms
  by (cases "k = i") (auto simp: shot_ok_def drop_receiver_def failed_call_def split: oneshot.splits)

lemma shots_okD:
  assumes "shots_ok X s"
  shows "tdp_inv X s" and "tdp_ok (sys_h s)" and "length (sys_calls s) = length (oneshots (sys_h s))"
    and "k < length (oneshots (sys_h s)) \<Longrightarrow> shot_ok s k"
    and "dm_get (pending_requests (sys_h s)) t = Some i \<Longrightarrow> fst (sys_calls s ! i) = t"
  using assms by (auto simp: shots_ok_def tdp_inv_def oneshots_owned_def)

lemma shot_ok_call:
  assumes "shots_ok X s" and "tdp_register t (sys_h s) = (Ok i, h)" and "k < length (oneshots h)"
  shows "shot_ok (s\<lparr>sys_h := h, sys_calls := sys_calls s @ [(t, Registered)]\<rparr>) k"
proof -
  note len = shots_okD(3) [OF assms(1)]
  from assms(2) have h: "h = (sys_h s)\<lparr>pending_requests := dm_insert t i (pending_requests (sys_h s)),
      oneshots := oneshots (sys_h s) @ [OWaiting]\<rparr>" "i = length (oneshots (sys_h s))"
    "dm_get (pending_requests (sys_h s)) t = None"
    by (auto simp: tdp_register_def Let_def split: option.splits)
  show ?thesis
  proof (cases "k = i")
    case True
    with h len show ?thesis by (simp add: shot_ok_def nth_append)
  next
    case False
    with assms(3) h have lt: "k < length (oneshots (sys_h s))" by simp
    from shots_okD(4) [OF assms(1) lt] show ?thesis
      using h len lt False by (auto simp: shot_ok_def nth_append failed_call_def split: oneshot.splits)
  qed
qed

text \<open>
  A call reports an error, and its entry is removed: directly, or after its receiver went away.
\<close>

lemma shot_ok_failing:
  assumes "shots_ok X s" and "k < length (oneshots (sys_h s))" and "i < length (sys_calls s)"
    and "sys_calls s ! i = (t, ph)" and "\<And>r. ph \<noteq> Done r" and "h \<in> {sys_h s, drop_receiver i (sys_h s)}"
  shows "shot_ok (s\<lparr>sys_h := remove_pending t h, sys_calls := (sys_calls s)[i := (t, Done (Err e))]\<rparr>) k"
proof -
  let ?s = "s\<lparr>sys_calls := (sys_calls s)[i := (t, Done (Err e))]\<rparr>"
  have "shot_ok ?s k"
    using shot_ok_phase [OF shots_okD(4) [OF assms(1,2)] assms(3-5), of "sys_h s" "Done (Err e)"] by simp
  moreover from this have "shot_ok (?s\<lparr>sys_h := drop_receiver i (sys_h ?s)\<rparr>) k"
    by (rule shot_ok_dropped) (use assms(3) in simp)
  ultimately have h: "shot_ok (?s\<lparr>sys_h := h\<rparr>) k" using assms(6) by auto
  have "fst (sys_calls ?s ! j) = fst (sys_calls s ! j)" for j using assms(3,4) by (simp add: fst_update)
  moreover have "pending_requests h = pending_requests (sys_h s)" "length (oneshots h) = length (oneshots (sys_h s))"
    and "tdp_ok h"
    using assms(6) shots_okD(2) [OF assms(1)] by (auto simp: drop_receiver_facts tdp_ok_drop_receiver)
  moreover have "failed_call t (?s\<lparr>sys_h := h\<rparr>)"
    using failed_call_now [OF assms(3), of t e] by (simp add: failed_call_def)
  ultimately have "shot_ok ((?s\<lparr>sys_h := h\<rparr>)\<lparr>sys_h := remove_pending t (sys_h (?s\<lparr>sys_h := h\<rparr>))\<rparr>) k"
    using shots_okD(5) [OF assms(1)] assms(2) by (intro shot_ok_removed [OF h]) simp_all
  moreover have "(?s\<lparr>sys_h := h\<rparr>)\<lparr>sys_h := remove_pending t (sys_h (?s\<lparr>sys_h := h\<rparr>))\<rparr> =
      s\<lparr>sys_h := remove_pending t h, sys_calls := (sys_calls s)[i := (t, Done (Err e))]\<rparr>" by simp
  ultimately show ?thesis by (simp only:)
qed

lemma shot_ok_send:
  assumes "shots_ok X s" and "i < length (sys_calls s)" and "sys_calls s ! i = (t, Registered)"
    and "tdp_send t (sys_h s) = (r, h)" and "k < length (oneshots (sys_h s))"
  shows "shot_ok (s\<lparr>sys_h := h, sys_calls := (sys_calls s)[i := (t, after_send r)]\<rparr>) k"
proof (cases "tx_request_closed (sys_h s)")
  case True
  with assms(4) have "r = Err SendFailed" "h = remove_pending t (sys_h s)" by (auto simp: tdp_send_def)
  with shot_ok_failing [OF assms(1,5,2,3), of "sys_h s" SendFailed] show ?thesis by simp
next
  case False
  with assms(4) have "h = (sys_h s)\<lparr>tx_request_sent := tx_request_sent (sys_h s) @ [t]\<rparr>"
    by (auto simp: tdp_send_def)
  with shot_ok_phase [OF shots_okD(4) [OF assms(1,5)] assms(2,3), of h "after_send r"] show ?thesis by simp
qed

lemma shot_ok_finish:
  assumes "shots_ok X s" and "i < length (sys_calls s)" and "sys_calls s ! i = (t, Decided oc)"
    and "finish_wait X t i oc (sys_h s) = (r, h)" and "k < length (oneshots (sys_h s))"
  shows "shot_ok (s\<lparr>sys_h := h, sys_calls := (sys_calls s)[i := (t, Done r)]\<rparr>) k"
proof (cases oc)
  case (Received x)
  with assms(4) shot_ok_phase [OF shots_okD(4) [OF assms(1,5)] assms(2,3), of "sys_h s" "Done r"]
  show ?thesis by (simp add: finish_wait_def)
next
  case RecvClosed
  with assms(4) shot_ok_failing [OF assms(1,5,2,3), of "sys_h s" DemuxClosed] show ?thesis
    by (auto simp: finish_wait_def)
next
  case Elapsed
  with assms(4) shot_ok_failing [OF assms(1,5,2,3), of "drop_receiver i (sys_h s)" "TdpTimeout t (tx_bodies_timeout (sys_h s))"]
  show ?thesis by (auto simp: finish_wait_def)
qed

lemma shot_ok_deliver:
  assumes "shots_ok X s" and "deliver_response t r (sys_h s) = (b, h)" and "k < length (oneshots (sys_h s))"
  shows "shot_ok (s\<lparr>sys_h := h, sys_log := log\<rparr>) k"
proof -
  have "oneshots h ! k = ODelivered r \<or>
      oneshots h ! k = oneshots (sys_h s) ! k \<and>
        (oneshots h ! k = OWaiting \<longrightarrow> dm_get (pending_requests (sys_h s)) t \<noteq> Some k)"
    using assms(2,3) tdp_okD(1,2) [OF shots_okD(2) [OF assms(1)], of t]
    by (auto simp: deliver_response_def Let_def nth_list_update split: option.splits if_splits)
  with shots_okD(4) [OF assms(1,3)] pending_deliver [of t r "sys_h s"] assms(2) show ?thesis
    by (auto simp: shot_ok_def failed_call_def split: oneshot.splits if_splits)
qed

lemma shot_ok_step:
  assumes "tdp_step X s s'" and "shots_ok X s" and "k < length (oneshots (sys_h s'))"
  shows "shot_ok s' k"
  using assms(1)
proof (cases rule: tdp_step.cases)
  case (call t i h)
  with assms(2,3) show ?thesis by (simp add: shot_ok_call)
next
  case (send i t r h)
  with assms(2,3) send_facts(1) [OF send(4)] show ?thesis by (simp add: shot_ok_send)
next
  case (poll i t)
  with assms(3) shot_ok_phase [OF shots_okD(4) [OF assms(2)] poll(2,3), of k "sys_h s"] show ?thesis by simp
next
  case (finish i t oc r h)
  with assms(2,3) finish_facts(1) [OF finish(4)] show ?thesis by (simp add: shot_ok_finish)
next
  case (deliver t r b h)
  have "length (oneshots h) = length (oneshots (sys_h s))"
    using deliver(2) by (auto simp: deliver_response_def Let_def split: option.splits if_splits)
  with assms(2,3) deliver show ?thesis by (simp add: shot_ok_deliver)
qed (use shots_okD(4) [OF assms(2), of k] assms(3) in \<open>auto simp: shot_ok_def failed_call_def
    record_set_new_prev_hash_def record_new_template_def split: oneshot.splits\<close>)

lemma shots_ok_start: "tdp_start s \<Longrightarrow> shots_ok X s"
  by (simp add: shots_ok_def tdp_inv_start) (simp add: tdp_start_def tdp_new_def)

lemma shots_ok_step: "tdp_step X s s' \<Longrightarrow> shots_ok X s \<Longrightarrow> shots_ok X s'"
  using shot_ok_step tdp_inv_step unfolding shots_ok_def by blast

interpretation shots: invariant_system tdp_start "tdp_step X" "shots_ok X" for X
  by unfold_locales (simp_all add: shots_ok_start shots_ok_step)

section \<open>Properties of the interleaving\<close>

text \<open>
  whatever the interleaving of callers, deliveries and timeouts, a call for a template id that
  returns transactions returns the decoding of a success response that was delivered for that very
  template id, and a rejection it reports was delivered for it: responses are never crossed.
\<close>

lemma responses_never_crossed:
  assumes "reach tdp_start (tdp_step X) s" and "i < length (sys_calls s)"
    and "sys_calls s ! i = (t, Done r)"
  shows "(\<forall>txs. r = Ok txs \<longrightarrow> (\<exists>l. (t, TxSuccess l) \<in> set (sys_log s) \<and> decode_bodies X l = Ok txs)) \<and>
    (\<forall>t' code. r = Err (TpRejected t' code) \<longrightarrow> t' = t \<and>
      (\<exists>b. (t, TxError b) \<in> set (sys_log s) \<and> code = from_utf8_lossy b))"
proof -
  from tdp.inv_reach [OF assms(1)] have "call_justified X (sys_log s) (t, Done r)"
    using assms(2,3) nth_mem unfolding tdp_inv_def by metis
  then show ?thesis by auto
qed

text \<open>
  The interleaving in which a caller that timed out runs its clean-up only after the response
  arrived and another caller registered the same template id.
\<close>

definition race_end :: "u64 \<Rightarrow> tx_data_result \<Rightarrow> tdp_sys" where
  "race_end t r =
     \<lparr>sys_h = tdp_new\<lparr>tx_request_sent := [t, t], oneshots := [ODelivered r, OSenderDropped]\<rparr>,
      sys_calls = [(t, Done (Err (TdpTimeout t default_tx_bodies_timeout))), (t, Done (Err DemuxClosed))],
      sys_log = [(t, r)]\<rparr>"

lemmas race_simps = tdp_new_def tdp_register_def tdp_send_def deliver_response_def finish_wait_def
  remove_pending_def drop_sender_def drop_receiver_def poll_oneshot_def dm_insert_def dm_remove_def
  dm_empty_def Let_def

lemma race_prefix:
  "reach tdp_start (tdp_step X)
     \<lparr>sys_h = tdp_new\<lparr>pending_requests := [(t, 0)], tx_request_sent := [t], oneshots := [OWaiting]\<rparr>,
      sys_calls = [(t, Waiting)], sys_log = []\<rparr>"
proof -
  let ?s0 = "\<lparr>sys_h = tdp_new, sys_calls = [], sys_log = []\<rparr>"
  let ?s1 = "\<lparr>sys_h = tdp_new\<lparr>pending_requests := [(t, 0)], oneshots := [OWaiting]\<rparr>,
     sys_calls = [(t, Registered)], sys_log = []\<rparr>"
  have "reach tdp_start (tdp_step X) ?s0" by (rule reach_start) (simp add: tdp_start_def)
  moreover have "tdp_step X ?s0 ?s1"
    using tdp_step.call [of t ?s0 0] by (simp add: race_simps)
  ultimately have "reach tdp_start (tdp_step X) ?s1" by (rule reach_step)
  moreover have "tdp_step X ?s1 \<lparr>sys_h = tdp_new\<lparr>pending_requests := [(t, 0)], tx_request_sent := [t],
      oneshots := [OWaiting]\<rparr>, sys_calls = [(t, Waiting)], sys_log = []\<rparr>"
    using tdp_step.send [of 0 ?s1 t "Ok ()"] by (simp add: race_simps)
  ultimately show ?thesis by (rule reach_step)
qed

lemma race_second_caller:
  "reach tdp_start (tdp_step X)
     \<lparr>sys_h = tdp_new\<lparr>pending_requests := [(t, 1)], tx_request_sent := [t, t],
        oneshots := [ODelivered r, OWaiting]\<rparr>,
      sys_calls = [(t, Decided Elapsed), (t, Waiting)], sys_log = [(t, r)]\<rparr>"
proof -
  let ?h0 = "tdp_new\<lparr>pending_requests := [(t, 0)], tx_request_sent := [t], oneshots := [OWaiting]\<rparr>"
  let ?s0 = "\<lparr>sys_h = ?h0, sys_calls = [(t, Waiting)], sys_log = []\<rparr>"
  let ?s1 = "\<lparr>sys_h = ?h0, sys_calls = [(t, Decided Elapsed)], sys_log = []\<rparr>"
  let ?s2 = "\<lparr>sys_h = tdp_new\<lparr>tx_request_sent := [t], oneshots := [ODelivered r]\<rparr>,
     sys_calls = [(t, Decided Elapsed)], sys_log = [(t, r)]\<rparr>"
  let ?s3 = "\<lparr>sys_h = tdp_new\<lparr>pending_requests := [(t, 1)], tx_request_sent := [t],
       oneshots := [ODelivered r, OWaiting]\<rparr>,
     sys_calls = [(t, Decided Elapsed), (t, Registered)], sys_log = [(t, r)]\<rparr>"
  have "tdp_step X ?s0 ?s1"
    using tdp_step.poll [of 0 ?s0 t] by (simp add: race_simps)
  with race_prefix have "reach tdp_start (tdp_step X) ?s1" by (rule reach_step)
  moreover have "tdp_step X ?s1 ?s2"
    using tdp_step.deliver [of t r ?s1 True] by (simp add: race_simps)
  ultimately have "reach tdp_start (tdp_step X) ?s2" by (rule reach_step)
  moreover have "tdp_step X ?s2 ?s3"
    using tdp_step.call [of t ?s2 1] by (simp add: race_simps)
  ultimately have "reach tdp_start (tdp_step X) ?s3" by (rule reach_step)
  moreover have "tdp_step X ?s3 \<lparr>sys_h = tdp_new\<lparr>pending_requests := [(t, 1)], tx_request_sent := [t, t],
        oneshots := [ODelivered r, OWaiting]\<rparr>,
      sys_calls = [(t, Decided Elapsed), (t, Waiting)], sys_log = [(t, r)]\<rparr>"
    using tdp_step.send [of 1 ?s3 t "Ok ()"] by (simp add: race_simps)
  ultimately show ?thesis by (rule reach_step)
qed

text \<open>
  C28: the clean-up after a timeout removes the entry of the template id without checking that it is
  the caller's own: an interleaving is reachable in which the first caller reports a timeout
  although its response was delivered, and the second caller of the same template id is told that
  the demux closed although nothing was closed and no response for it was ever delivered or lost.
\<close>

theorem timeout_cleanup_race:
  "reach tdp_start (tdp_step X) (race_end t r) \<and>
   \<not> tx_request_closed (sys_h (race_end t r)) \<and>
   map snd (sys_calls (race_end t r)) =
     [Done (Err (TdpTimeout t default_tx_bodies_timeout)), Done (Err DemuxClosed)]"
proof -
  let ?s0 = "\<lparr>sys_h = tdp_new\<lparr>pending_requests := [(t, 1)], tx_request_sent := [t, t],
        oneshots := [ODelivered r, OWaiting]\<rparr>,
      sys_calls = [(t, Decided Elapsed), (t, Waiting)], sys_log = [(t, r)]\<rparr>"
  let ?h1 = "tdp_new\<lparr>tx_request_sent := [t, t], oneshots := [ODelivered r, OSenderDropped]\<rparr>"
  let ?d0 = "(t, Done (Err (TdpTimeout t default_tx_bodies_timeout)))"
  let ?s1 = "\<lparr>sys_h = ?h1, sys_calls = [?d0, (t, Waiting)], sys_log = [(t, r)]\<rparr>"
  let ?s2 = "\<lparr>sys_h = ?h1, sys_calls = [?d0, (t, Decided RecvClosed)], sys_log = [(t, r)]\<rparr>"
  have "tdp_step X ?s0 ?s1"
    using tdp_step.finish [of 0 ?s0 t Elapsed X "Err (TdpTimeout t default_tx_bodies_timeout)"]
    by (simp add: race_simps)
  with race_second_caller have "reach tdp_start (tdp_step X) ?s1" by (rule reach_step)
  moreover have "tdp_step X ?s1 ?s2"
    using tdp_step.poll [of 1 ?s1 t] by (simp add: race_simps)
  ultimately have "reach tdp_start (tdp_step X) ?s2" by (rule reach_step)
  moreover have "tdp_step X ?s2 (race_end t r)"
    using tdp_step.finish [of 1 ?s2 t RecvClosed X "Err DemuxClosed"]
    by (simp add: race_simps race_end_def)
  ultimately have "reach tdp_start (tdp_step X) (race_end t r)" by (rule reach_step)
  then show ?thesis by (simp add: race_end_def tdp_new_def)
qed

theorem responses_never_crossed_witness:
  "\<exists>s. reach tdp_start (tdp_step sample_ext) s \<and> 0 < length (sys_calls s) \<and>
     sys_calls s ! 0 = (7, Done (Ok [])) \<and>
     (\<exists>l. (7, TxSuccess l) \<in> set (sys_log s) \<and> decode_bodies sample_ext l = Ok [])"
proof -
  let ?h0 = "tdp_new\<lparr>pending_requests := [(7, 0)], tx_request_sent := [7], oneshots := [OWaiting]\<rparr>"
  let ?s0 = "\<lparr>sys_h = ?h0, sys_calls = [(7, Waiting)], sys_log = []\<rparr>"
  let ?h1 = "tdp_new\<lparr>tx_request_sent := [7], oneshots := [ODelivered (TxSuccess [])]\<rparr>"
  let ?s1 = "\<lparr>sys_h = ?h1, sys_calls = [(7, Waiting)], sys_log = [(7, TxSuccess [])]\<rparr>"
  let ?s2 = "\<lparr>sys_h = ?h1, sys_calls = [(7, Decided (Received (TxSuccess [])))], sys_log = [(7, TxSuccess [])]\<rparr>"
  let ?s3 = "\<lparr>sys_h = ?h1, sys_calls = [(7, Done (Ok []))], sys_log = [(7, TxSuccess [])]\<rparr>"
  have "tdp_step sample_ext ?s0 ?s1"
    using tdp_step.deliver [of 7 "TxSuccess []" ?s0 True] by (simp add: race_simps)
  with race_prefix [of sample_ext 7] have "reach tdp_start (tdp_step sample_ext) ?s1" by (rule reach_step)
  moreover have "tdp_step sample_ext ?s1 ?s2"
    using tdp_step.poll [of 0 ?s1 7] by (simp add: race_simps)
  ultimately have "reach tdp_start (tdp_step sample_ext) ?s2" by (rule reach_step)
  moreover have "tdp_step sample_ext ?s2 ?s3"
    using tdp_step.finish [of 0 ?s2 7 "Received (TxSuccess [])" sample_ext "Ok []"]
    by (simp add: race_simps decode_response_def)
  ultimately have r: "reach tdp_start (tdp_step sample_ext) ?s3" by (rule reach_step)
  from responses_never_crossed [OF r, of 0 7 "Ok []"] r show ?thesis
    by (intro exI [of _ ?s3]) simp
qed

end
