(* ===== verification/Engine_State.thy ===== *)
theory Engine_State
  imports Block_Recon Metrics Recent_Solutions Share_Chain_Reader Tdp
begin

text \<open>
  \<open>crates/sv2-p2pool-engine/src/lib.rs\<close>: the state of \<open>P2poolV2Engine\<close>, the declared-jobs cache and
  the engine's accessors. The backends (share-chain reader, bitcoind RPC) are third-party objects and
  come as the functions of \<open>engine_handles\<close>. Tasks that the engine spawns are entries of \<open>tasks\<close>;
  blocks handed to a spawned submission are in \<open>submit_queue\<close> until that task has run.

  Handlers run on a multi-threaded runtime. Where another task can run between two accesses to the
  shared maps, or during an \<open>await\<close>, a handler applies a function \<open>env n\<close>, a parameter: the effect
  of everything else on the engine at that point. Theorems quantify over it.
\<close>

section \<open>Backends\<close>

datatype proposal_outcome = Accepted | Duplicate | Rejected string

record engine_handles =
  hnd_chain :: share_chain_reader
  hnd_validate_block_proposal :: "block \<Rightarrow> string + proposal_outcome"
  hnd_submit_block :: "block \<Rightarrow> string + string"

section \<open>The declared-jobs cache\<close>

type_synonym declared_job_cache = "(request_id, declared_job) dmap"

definition jobs_insert :: "request_id \<Rightarrow> declared_job \<Rightarrow> declared_job_cache \<Rightarrow> declared_job option \<times> declared_job_cache" where
  "jobs_insert request_id job c = (dm_get c request_id, dm_insert request_id job c)"

definition jobs_remove :: "request_id \<Rightarrow> declared_job_cache \<Rightarrow> declared_job option \<times> declared_job_cache" where
  "jobs_remove request_id c = (dm_get c request_id, dm_remove request_id c)"

definition jobs_len :: "declared_job_cache \<Rightarrow> nat" where
  "jobs_len c = dm_len c"

definition jobs_is_empty :: "declared_job_cache \<Rightarrow> bool" where
  "jobs_is_empty c = (dm_len c = 0)"

definition jobs_get :: "declared_job_cache \<Rightarrow> request_id \<Rightarrow> declared_job option" where
  "jobs_get c request_id = dm_get c request_id"

definition job_matches :: "block_hash \<Rightarrow> u32 \<Rightarrow> u32 \<Rightarrow> declared_job \<Rightarrow> bool" where
  "job_matches prev_hash nbits version job =
     (tip_prev_hash (job_tip job) = prev_hash \<and> tip_nbits (job_tip job) = nbits \<and> job_version job = version)"

definition find_by_solution ::
  "externals \<Rightarrow> declared_job_cache \<Rightarrow> block_hash \<Rightarrow> u32 \<Rightarrow> u32 \<Rightarrow> request_id option" where
  "find_by_solution X c prev_hash nbits version =
     List.find (\<lambda>k. case dm_get c k of Some job \<Rightarrow> job_matches prev_hash nbits version job | None \<Rightarrow> False)
       (map_iter X (map fst c))"

definition invalidate_all :: "declared_job_cache \<Rightarrow> nat \<times> declared_job_cache" where
  "invalidate_all c = (dm_len c, dm_empty)"

definition jobs_retain :: "(declared_job \<Rightarrow> bool) \<Rightarrow> declared_job_cache \<Rightarrow> nat \<times> declared_job_cache" where
  "jobs_retain keep c = (dm_len (dm_retain (\<lambda>_ job. \<not> keep job) c), dm_retain (\<lambda>_ job. keep job) c)"

section \<open>The engine\<close>

datatype task = DetectorTask | InvalidatorTask | SupervisorTask nat nat | SweeperTask

record engine =
  declared_jobs :: declared_job_cache
  allocated_tokens :: "(jd_token, request_id) dmap"
  token_payout :: "(jd_token, script) dmap"
  user_identifier_index :: "(string, jd_token) dmap"
  recent_sols :: recent_solutions
  eng_network :: network
  reorg_watcher :: "nat option"
  sweeper :: "nat option"
  handles :: "engine_handles option"
  tdp :: "tdp_handle option"
  metrics :: "engine_metrics option"
  submit_queue :: "block list"
  tasks :: "(nat, task) dmap"
  next_task :: nat

type_synonym env = "nat \<Rightarrow> engine \<Rightarrow> engine"

definition quiet :: env where
  "quiet n e = e"

lemma quiet_apply [simp]: "quiet n e = e"
  by (simp add: quiet_def)

text \<open>
  \<open>env_from k env\<close> numbers the points from \<open>k\<close> on, for a callee with points of its own.
\<close>

definition env_from :: "nat \<Rightarrow> env \<Rightarrow> env" where
  "env_from k env n = env (n + k)"

lemma env_from_quiet [simp]: "env_from k quiet = quiet"
  by (intro ext) (simp add: env_from_def)

definition default_recent_solutions_ttl :: duration where
  "default_recent_solutions_ttl = 30 * 1000000000"

definition default_sweep_interval :: duration where
  "default_sweep_interval = 15 * 1000000000"

definition engine_new :: "network \<Rightarrow> engine" where
  "engine_new net =
     \<lparr>declared_jobs = dm_empty, allocated_tokens = dm_empty, token_payout = dm_empty,
      user_identifier_index = dm_empty, recent_sols = rs_new default_recent_solutions_ttl,
      eng_network = net, reorg_watcher = None, sweeper = None, handles = None, tdp = None,
      metrics = None, submit_queue = [], tasks = dm_empty, next_task = 0\<rparr>"

definition engine_with_handles :: "network \<Rightarrow> engine_handles \<Rightarrow> engine" where
  "engine_with_handles net h = (engine_new net)\<lparr>handles := Some h\<rparr>"

definition with_tdp :: "tdp_handle \<Rightarrow> engine \<Rightarrow> engine" where
  "with_tdp t e = e\<lparr>tdp := Some t\<rparr>"

definition with_metrics :: "engine_metrics \<Rightarrow> engine \<Rightarrow> engine" where
  "with_metrics m e = e\<lparr>metrics := Some m\<rparr>"

definition engine_default :: engine where
  "engine_default = engine_new Regtest"

definition has_handles :: "engine \<Rightarrow> bool" where
  "has_handles e = (handles e \<noteq> None)"

definition has_tdp :: "engine \<Rightarrow> bool" where
  "has_tdp e = (tdp e \<noteq> None)"

definition lookup_payout_script :: "engine \<Rightarrow> jd_token \<Rightarrow> script option" where
  "lookup_payout_script e token = dm_get (token_payout e) token"

text \<open>
  The accounting selector is not wired in the source: the resolver returns \<open>None\<close> for every user
  unless the test hook is installed. The hook is the parameter \<open>resolver\<close>; \<open>no_resolver\<close> is
  the production value.
\<close>

definition no_resolver :: "string \<Rightarrow> script option" where
  "no_resolver user_identifier = None"

definition resolve_payout_script :: "(string \<Rightarrow> script option) option \<Rightarrow> string \<Rightarrow> script option" where
  "resolve_payout_script hook user_identifier =
     (case hook of Some resolver \<Rightarrow> resolver user_identifier | None \<Rightarrow> no_resolver user_identifier)"

definition drop_token_payout :: "jd_token \<Rightarrow> engine \<Rightarrow> engine" where
  "drop_token_payout token e =
     (case dm_get (token_payout e) token of
        None \<Rightarrow> e
      | Some _ \<Rightarrow>
          e\<lparr>token_payout := dm_remove token (token_payout e),
            user_identifier_index :=
              dm_retain (\<lambda>_ bound_token. bound_token \<noteq> token) (user_identifier_index e)\<rparr>)"

section \<open>Metrics and the bridge inside the engine\<close>

definition bump :: "(engine_metrics \<Rightarrow> engine_metrics) \<Rightarrow> engine \<Rightarrow> engine" where
  "bump f e = e\<lparr>metrics := map_option f (metrics e)\<rparr>"

definition inc_jobs_invalidated :: "nat \<Rightarrow> engine_metrics \<Rightarrow> engine_metrics" where
  "inc_jobs_invalidated n m = m\<lparr>jobs_invalidated_total := jobs_invalidated_total m + word_of_nat n\<rparr>"

definition tdp_state :: "engine \<Rightarrow> tdp_handle" where
  "tdp_state e = (case tdp e of Some h \<Rightarrow> h | None \<Rightarrow> tdp_new)"

definition put_tdp :: "tdp_handle \<Rightarrow> engine \<Rightarrow> engine" where
  "put_tdp h e = e\<lparr>tdp := Some h\<rparr>"

definition engine_request_tx_bodies ::
  "externals \<Rightarrow> env \<Rightarrow> u64 \<Rightarrow> engine \<Rightarrow> (tdp_error, transaction list) result \<times> engine" where
  "engine_request_tx_bodies X env template_id e =
     request_tx_bodies X tdp_state put_tdp env template_id e"

datatype 'r handled = Reply 'r | Panicked

section \<open>Lemmas\<close>

named_theorems engine_simps \<open>fields that an engine operation leaves alone\<close>

lemma bump_fields [simp, engine_simps]:
  "declared_jobs (bump f e) = declared_jobs e" "allocated_tokens (bump f e) = allocated_tokens e"
  "token_payout (bump f e) = token_payout e" "user_identifier_index (bump f e) = user_identifier_index e"
  "recent_sols (bump f e) = recent_sols e" "handles (bump f e) = handles e" "tdp (bump f e) = tdp e"
  "submit_queue (bump f e) = submit_queue e" "tasks (bump f e) = tasks e"
  "metrics (bump f e) = map_option f (metrics e)" "eng_network (bump f e) = eng_network e"
  by (simp_all add: bump_def)

lemma put_tdp_fields [simp, engine_simps]:
  "declared_jobs (put_tdp h e) = declared_jobs e" "allocated_tokens (put_tdp h e) = allocated_tokens e"
  "token_payout (put_tdp h e) = token_payout e" "user_identifier_index (put_tdp h e) = user_identifier_index e"
  "recent_sols (put_tdp h e) = recent_sols e" "handles (put_tdp h e) = handles e"
  "submit_queue (put_tdp h e) = submit_queue e" "tasks (put_tdp h e) = tasks e"
  "metrics (put_tdp h e) = metrics e" "tdp_state (put_tdp h e) = h" "tdp (put_tdp h e) = Some h"
  by (simp_all add: put_tdp_def tdp_state_def)

lemma put_tdp_twice: "put_tdp h (put_tdp h' e) = put_tdp h e"
  by (simp add: put_tdp_def)

lemma find_by_solution_Some:
  assumes "find_by_solution X c prev nb v = Some k"
  shows "\<exists>job. dm_get c k = Some job \<and> job_matches prev nb v job"
  using assms
  by (auto simp: find_by_solution_def find_Some_iff split: option.splits)

lemma find_by_solution_None:
  assumes "find_by_solution X c prev nb v = None" and "iter_laws X" and "dm_get c k = Some job"
  shows "\<not> job_matches prev nb v job"
proof -
  have "k \<in> set (map fst c)"
    using assms(3) by (metis dm_get_def domI dom_map_of_conv_image_fst image_set)
  with assms(2) have "k \<in> set (map_iter X (map fst c))" by (simp add: iter_laws_def)
  with assms(1,3) show ?thesis
    by (auto simp: find_by_solution_def find_None_iff)
qed

lemma fields_request_quiet:
  assumes "engine_request_tx_bodies X env t e = (r, e')" and "\<And>n e. P (env n e) = P e"
    and "\<And>h e. P (put_tdp h e) = P e"
  shows "P e' = P e"
  using assms(1)
  by (auto simp: engine_request_tx_bodies_def request_tx_bodies_def Let_def assms(2,3)
      split: prod.splits result.splits)

text \<open>
  Interference that is limited to the template-provider bridge: deliveries of responses, snapshots
  and other requests, but no change to the engine's own maps.
\<close>

definition tdp_only :: "env \<Rightarrow> bool" where
  "tdp_only env \<longleftrightarrow> (\<forall>n e. env n e = e \<or> (\<exists>h. env n e = put_tdp h e))"

lemma tdp_only_quiet [simp]: "tdp_only quiet"
  by (simp add: tdp_only_def)

lemma tdp_only_shift: "tdp_only env \<Longrightarrow> tdp_only (env_from k env)"
  by (simp add: tdp_only_def env_from_def)

lemma tdp_only_field: "tdp_only env \<Longrightarrow> (\<And>h e. P (put_tdp h e) = P e) \<Longrightarrow> P (env n e) = P e"
  unfolding tdp_only_def by metis

lemma tdp_only_fields:
  assumes "tdp_only env"
  shows "declared_jobs (env n e) = declared_jobs e" "allocated_tokens (env n e) = allocated_tokens e"
    "token_payout (env n e) = token_payout e" "user_identifier_index (env n e) = user_identifier_index e"
    "recent_sols (env n e) = recent_sols e" "handles (env n e) = handles e"
    "submit_queue (env n e) = submit_queue e" "metrics (env n e) = metrics e"
    "tdp e \<noteq> None \<Longrightarrow> tdp (env n e) \<noteq> None"
  using assms by (auto intro: tdp_only_field) (auto simp: tdp_only_def, metis option.distinct(1) put_tdp_fields(11))

lemma request_tdp_only:
  assumes "engine_request_tx_bodies X env t e = (r, e')" and "tdp_only env"
  shows "allocated_tokens e' = allocated_tokens e \<and> declared_jobs e' = declared_jobs e \<and>
    token_payout e' = token_payout e \<and> user_identifier_index e' = user_identifier_index e \<and>
    recent_sols e' = recent_sols e \<and> handles e' = handles e \<and> submit_queue e' = submit_queue e \<and>
    metrics e' = metrics e"
  by (intro conjI; rule fields_request_quiet [OF assms(1)]; simp add: tdp_only_fields [OF assms(2)])

lemma invalidate_all_simps [simp]:
  "fst (invalidate_all c) = dm_len c" "snd (invalidate_all c) = dm_empty"
  by (simp_all add: invalidate_all_def)

section \<open>Properties\<close>

text \<open>
  \<open>find_by_solution\<close> returns a job exactly when one matches, whatever order the hash map
  iterates in: the returned request id is bound to a job with the solution's previous hash, target
  and version, and it returns none only when no cached job matches.
\<close>

lemma find_by_solution_correct:
  assumes "iter_laws X"
  shows "case find_by_solution X c prev nbits version of
      Some k \<Rightarrow> (\<exists>job. jobs_get c k = Some job \<and> job_matches prev nbits version job)
    | None \<Rightarrow> (\<forall>k job. jobs_get c k = Some job \<longrightarrow> \<not> job_matches prev nbits version job)"
  using assms
  by (auto simp: jobs_get_def find_by_solution_None dest: find_by_solution_Some split: option.split)

theorem find_by_solution_correct_witness:
  "find_by_solution sample_ext [(1, sample_job)] (replicate 32 5) 17 536870912 = Some 1 \<and>
   job_matches (replicate 32 5) 17 536870912 sample_job"
proof -
  have f: "find_by_solution sample_ext [(1, sample_job)] (replicate 32 5) 17 536870912 = Some 1"
    by (simp add: find_by_solution_def job_matches_def sample_job_def)
  show ?thesis
    using find_by_solution_correct [OF sample_ext_laws(4), of "[(1, sample_job)]" "replicate 32 5" 17 536870912] f
    by (auto simp: jobs_get_def split: if_splits)
qed

text \<open>
  \<open>DeclaredJobCache::retain\<close> reports exactly the number of jobs it drops: the count plus the
  size of what is left is the size before, and a lookup afterwards finds a job exactly when it was
  there and the predicate holds.
\<close>

lemma jobs_retain_counts:
  assumes "dm_wf c"
  shows "fst (jobs_retain keep c) + jobs_len (snd (jobs_retain keep c)) = jobs_len c \<and>
    (\<forall>k job. jobs_get (snd (jobs_retain keep c)) k = Some job \<longleftrightarrow> jobs_get c k = Some job \<and> keep job)"
  using dm_len_retain [of "\<lambda>_. keep" c] dm.retain_Some_iff [OF assms]
  by (simp add: jobs_retain_def jobs_len_def jobs_get_def add.commute)

theorem jobs_retain_counts_witness:
  "jobs_get (snd (jobs_retain (\<lambda>j. job_version j = 0) [(1, sample_job)])) 1 = None"
  using jobs_retain_counts [of "[(1, sample_job)]" "\<lambda>j. job_version j = 0"]
  by (simp add: dm_wf_def jobs_get_def) (auto simp: jobs_retain_def dm_retain_def sample_job_def)

end
