(* ===== verification/Engine_Declare.thy ===== *)
theory Engine_Declare
  imports Engine_State
begin

text \<open>
  \<open>handle_declare_mining_job\<close> of \<open>crates/sv2-p2pool-engine/src/engine_impl.rs\<close>: one definition per
  stage of the handler, composed in its order. A stage that returns early gives \<open>Err\<close> with the
  handler's result; an \<open>expect\<close> that fails gives \<open>Panic\<close>.
\<close>

datatype dmj_error = DmjInvalidMiningJobToken | DmjInvalidCoinbaseTx | DmjInvalidCoinbaseTxInput

datatype declare_result =
    DeclareSuccess
  | DeclareError dmj_error
  | DeclareMissing "wtxid list"

definition decode_token :: "declare_mining_job \<Rightarrow> jd_token option" where
  "decode_token dmj =
     (if length (dmj_mining_job_token dmj) = 8 then Some (word_of_nat (le_nat (dmj_mining_job_token dmj)))
      else None)"

fun declare_counter :: "declare_result \<Rightarrow> engine_metrics \<Rightarrow> engine_metrics" where
  "declare_counter DeclareSuccess m = m\<lparr>declare_mining_job_accepted := declare_mining_job_accepted m + 1\<rparr>"
| "declare_counter (DeclareError _) m = m\<lparr>declare_mining_job_rejected := declare_mining_job_rejected m + 1\<rparr>"
| "declare_counter (DeclareMissing _) m =
     m\<lparr>declare_mining_job_missing_txns := declare_mining_job_missing_txns m + 1\<rparr>"

definition declare_return :: "declare_result \<Rightarrow> engine \<Rightarrow> declare_result handled \<times> engine" where
  "declare_return r e = (Reply r, bump (declare_counter r) e)"

definition declare_token :: "declare_mining_job \<Rightarrow> (declare_result, jd_token) result" where
  "declare_token dmj = ok_or (DeclareError DmjInvalidMiningJobToken) (decode_token dmj)"

definition declare_coinbase :: "externals \<Rightarrow> declare_mining_job \<Rightarrow> (declare_result, transaction) result" where
  "declare_coinbase X dmj =
     rbind (map_err (\<lambda>_. DeclareError DmjInvalidCoinbaseTx)
              (reconstruct_coinbase X (dmj_coinbase_tx_prefix dmj) (dmj_coinbase_tx_suffix dmj))) (\<lambda>tx.
     if length (tx_input tx) \<noteq> 1 then Err (DeclareError DmjInvalidCoinbaseTxInput) else Ok tx)"

fun decode_u256s :: "bytes list \<Rightarrow> ('e, bytes list) result" where
  "decode_u256s [] = Ok []"
| "decode_u256s (u # us) =
     (case to_array32 u of
        None \<Rightarrow> Panic
      | Some h \<Rightarrow> rbind (decode_u256s us) (\<lambda>hs. Ok (h # hs)))"

definition declare_policy ::
  "wtxid list \<Rightarrow> provide_missing_transactions_success option \<Rightarrow> (declare_result, unit) result" where
  "declare_policy wtxid_list pmts =
     (if wtxid_list = [] \<and> pmts = None then Err (DeclareError DmjInvalidCoinbaseTx)
      else if wtxid_list \<noteq> [] \<and> pmts = None then Err (DeclareMissing wtxid_list)
      else Ok ())"

definition parse_missing ::
  "externals \<Rightarrow> provide_missing_transactions_success option \<Rightarrow> transaction list" where
  "parse_missing X pmts =
     (case pmts of
        Some p \<Rightarrow> List.map_filter (decode_tx X) (pmts_transaction_list p)
      | None \<Rightarrow> [])"

definition declare_checks ::
  "externals \<Rightarrow> declare_mining_job \<Rightarrow> provide_missing_transactions_success option \<Rightarrow>
     (declare_result, jd_token \<times> wtxid list) result" where
  "declare_checks X dmj pmts =
     rbind (declare_token dmj) (\<lambda>token.
     rbind (declare_coinbase X dmj) (\<lambda>_.
     rbind (decode_u256s (dmj_wtxid_list dmj)) (\<lambda>wtxid_list.
     rbind (declare_policy wtxid_list pmts) (\<lambda>_. Ok (token, wtxid_list)))))"

definition capture_tip :: "engine \<Rightarrow> tip_metadata \<times> u64 option" where
  "capture_tip e =
     (case tdp e of
        Some h \<Rightarrow>
          ((case current_tip h of Some tip \<Rightarrow> tip | None \<Rightarrow> default_tip), current_template_id h)
      | None \<Rightarrow> (default_tip, None))"

definition capture_share_chain_tip :: "engine \<Rightarrow> (unit, block_hash option) result" where
  "capture_share_chain_tip e =
     (case handles e of
        Some h \<Rightarrow>
          (case rd_get_chain_tip (hnd_chain h) of
             Ok tip \<Rightarrow> Ok tip
           | Err _ \<Rightarrow> Ok None
           | Panic \<Rightarrow> Panic)
      | None \<Rightarrow> Ok None)"

definition declared_snapshot ::
  "externals \<Rightarrow> declare_mining_job \<Rightarrow> jd_token \<Rightarrow> wtxid list \<Rightarrow> transaction list \<Rightarrow>
     tip_metadata \<times> u64 option \<Rightarrow> block_hash option \<Rightarrow> declared_job" where
  "declared_snapshot X dmj token wtxid_list missing_txs tip share_chain_tip =
     \<lparr>job_version = dmj_version dmj,
      job_coinbase_tx_prefix = dmj_coinbase_tx_prefix dmj,
      job_coinbase_tx_suffix = dmj_coinbase_tx_suffix dmj,
      job_wtxid_list = wtxid_list,
      job_txid_list = Some (map (compute_txid X) missing_txs),
      job_tip = fst tip,
      job_template_id = snd tip,
      job_share_chain_tip = share_chain_tip,
      job_validated = True,
      job_allocated_token = Some token\<rparr>"

definition insert_job :: "request_id \<Rightarrow> declared_job \<Rightarrow> engine \<Rightarrow> engine" where
  "insert_job request_id job e = e\<lparr>declared_jobs := snd (jobs_insert request_id job (declared_jobs e))\<rparr>"

definition insert_token :: "jd_token \<Rightarrow> request_id \<Rightarrow> engine \<Rightarrow> engine" where
  "insert_token token request_id e =
     e\<lparr>allocated_tokens := dm_insert token request_id (allocated_tokens e)\<rparr>"

text \<open>
  \<open>env 0\<close> is the await on the chain tip, \<open>env 1\<close> what happens between the two inserts.
\<close>

definition handle_declare_mining_job ::
  "externals \<Rightarrow> env \<Rightarrow> declare_mining_job \<Rightarrow> provide_missing_transactions_success option \<Rightarrow>
     engine \<Rightarrow> declare_result handled \<times> engine" where
  "handle_declare_mining_job X env dmj pmts e =
     (case declare_checks X dmj pmts of
        Panic \<Rightarrow> (Panicked, e)
      | Err r \<Rightarrow> declare_return r e
      | Ok (token, wtxid_list) \<Rightarrow>
          let missing_txs = parse_missing X pmts;
              tip = capture_tip e
          in (case capture_share_chain_tip e of
                Ok share_chain_tip \<Rightarrow>
                  let snapshot = declared_snapshot X dmj token wtxid_list missing_txs tip share_chain_tip;
                      e1 = insert_job (dmj_request_id dmj) snapshot (env 0 e);
                      e2 = insert_token token (dmj_request_id dmj) (env 1 e1)
                  in declare_return DeclareSuccess e2
              | _ \<Rightarrow> (Panicked, e)))"

section \<open>Lemmas\<close>

lemma decode_token_wtxids [simp]: "decode_token (dmj\<lparr>dmj_wtxid_list := ws\<rparr>) = decode_token dmj"
  by (simp add: decode_token_def)

lemma decode_u256s_Ok_iff: "decode_u256s us = Ok hs \<longleftrightarrow> hs = us \<and> (\<forall>u \<in> set us. length u = 32)"
  by (induction us arbitrary: hs) (auto simp: rbind_iffs hash_simps to_array32_def)

lemma decode_u256s_no_Err: "decode_u256s us \<noteq> Err e"
  by (induction us) (auto simp: rbind_iffs split: option.splits)

lemma decode_u256s_Panic_iff: "decode_u256s us = Panic \<longleftrightarrow> (\<exists>u \<in> set us. length u \<noteq> 32)"
  by (induction us) (auto simp: rbind_iffs to_array32_def)

lemma declare_coinbase_Ok_iff:
  "declare_coinbase X dmj = Ok tx \<longleftrightarrow>
     reconstruct_coinbase X (dmj_coinbase_tx_prefix dmj) (dmj_coinbase_tx_suffix dmj) = Ok tx \<and>
     length (tx_input tx) = 1"
  by (auto simp: declare_coinbase_def rbind_iffs split: if_splits)

lemma declare_policy_Ok_iff: "declare_policy ws pmts = Ok u \<longleftrightarrow> pmts \<noteq> None"
  by (auto simp: declare_policy_def)

lemma declare_checks_Ok_iff:
  "declare_checks X dmj pmts = Ok (token, ws) \<longleftrightarrow>
     decode_token dmj = Some token \<and>
     (\<exists>tx. reconstruct_coinbase X (dmj_coinbase_tx_prefix dmj) (dmj_coinbase_tx_suffix dmj) = Ok tx \<and>
           length (tx_input tx) = 1) \<and>
     ws = dmj_wtxid_list dmj \<and> (\<forall>w \<in> set ws. length w = 32) \<and> pmts \<noteq> None"
  by (auto simp: declare_checks_def declare_token_def rbind_iffs declare_coinbase_Ok_iff
      decode_u256s_Ok_iff declare_policy_Ok_iff)

lemma declare_checks_reject:
  assumes "\<And>tw. declare_checks X dmj pmts \<noteq> Ok tw"
  shows "\<not> (length (dmj_mining_job_token dmj) = 8 \<and>
      (\<exists>tx. reconstruct_coinbase X (dmj_coinbase_tx_prefix dmj) (dmj_coinbase_tx_suffix dmj) = Ok tx \<and>
            length (tx_input tx) = 1) \<and>
      (\<forall>w \<in> set (dmj_wtxid_list dmj). length w = 32) \<and> pmts \<noteq> None)"
proof
  assume "length (dmj_mining_job_token dmj) = 8 \<and>
      (\<exists>tx. reconstruct_coinbase X (dmj_coinbase_tx_prefix dmj) (dmj_coinbase_tx_suffix dmj) = Ok tx \<and>
            length (tx_input tx) = 1) \<and>
      (\<forall>w \<in> set (dmj_wtxid_list dmj). length w = 32) \<and> pmts \<noteq> None"
  then have "declare_checks X dmj pmts =
      Ok (word_of_nat (le_nat (dmj_mining_job_token dmj)), dmj_wtxid_list dmj)"
    by (simp add: declare_checks_Ok_iff decode_token_def)
  with assms show False by blast
qed

lemma declare_checks_not_success: "declare_checks X dmj pmts \<noteq> Err DeclareSuccess"
  by (auto simp: declare_checks_def declare_token_def declare_coinbase_def declare_policy_def
      rbind_iffs map_err_Err_iff decode_u256s_no_Err split: if_splits)

section \<open>What the cache promises about declared jobs\<close>

text \<open>
  A cached job's coinbase reassembles and has one input, it is validated, its txid list is that of
  some transactions, its wtxids and its tip have 32 bytes: what the later handlers take for granted.
\<close>

definition job_ok :: "externals \<Rightarrow> declared_job \<Rightarrow> bool" where
  "job_ok X job \<longleftrightarrow> job_validated job \<and> job_allocated_token job \<noteq> None \<and>
     (\<exists>txs. job_txid_list job = Some (map (compute_txid X) txs)) \<and>
     length (tip_prev_hash (job_tip job)) = 32 \<and>
     list_all (\<lambda>w. length w = 32) (job_wtxid_list job) \<and>
     (case reconstruct_coinbase X (job_coinbase_tx_prefix job) (job_coinbase_tx_suffix job) of
        Ok tx \<Rightarrow> length (tx_input tx) = 1 | _ \<Rightarrow> False)"

definition jobs_ok :: "externals \<Rightarrow> engine \<Rightarrow> bool" where
  "jobs_ok X e \<longleftrightarrow> dm_wf (declared_jobs e) \<and> (\<forall>k job. dm_get (declared_jobs e) k = Some job \<longrightarrow> job_ok X job)"

lemma jobs_okD: "jobs_ok X e \<Longrightarrow> dm_get (declared_jobs e) k = Some job \<Longrightarrow> job_ok X job"
  by (auto simp: jobs_ok_def)

lemma capture_tip_width: "length (tip_prev_hash (fst (capture_tip e))) = 32"
  by (auto simp: capture_tip_def current_tip_def default_tip_def hash_simps split: option.splits)

lemma job_ok_snapshot:
  "declare_checks X dmj pmts = Ok (token, ws) \<Longrightarrow>
   job_ok X (declared_snapshot X dmj token ws txs (capture_tip e) sct)"
  using capture_tip_width [of e]
  by (auto simp: job_ok_def declare_checks_Ok_iff declared_snapshot_def list_all_iff)

lemma jobs_ok_insert_job: "jobs_ok X e \<Longrightarrow> job_ok X job \<Longrightarrow> jobs_ok X (insert_job k job e)"
  by (auto simp: jobs_ok_def insert_job_def jobs_insert_def)

lemma jobs_ok_cong: "declared_jobs e' = declared_jobs e \<Longrightarrow> jobs_ok X e' = jobs_ok X e"
  by (simp add: jobs_ok_def)

lemma insert_token_fields [simp, engine_simps]:
  "declared_jobs (insert_token t r e) = declared_jobs e"
  "token_payout (insert_token t r e) = token_payout e"
  "user_identifier_index (insert_token t r e) = user_identifier_index e"
  "recent_sols (insert_token t r e) = recent_sols e"
  "submit_queue (insert_token t r e) = submit_queue e"
  "metrics (insert_token t r e) = metrics e" "tdp (insert_token t r e) = tdp e"
  "handles (insert_token t r e) = handles e"
  "allocated_tokens (insert_token t r e) = dm_insert t r (allocated_tokens e)"
  by (simp_all add: insert_token_def)

lemma insert_job_fields [simp, engine_simps]:
  "declared_jobs (insert_job k j e) = dm_insert k j (declared_jobs e)"
  "token_payout (insert_job k j e) = token_payout e"
  "user_identifier_index (insert_job k j e) = user_identifier_index e"
  "recent_sols (insert_job k j e) = recent_sols e"
  "submit_queue (insert_job k j e) = submit_queue e"
  "metrics (insert_job k j e) = metrics e" "tdp (insert_job k j e) = tdp e"
  "handles (insert_job k j e) = handles e"
  "allocated_tokens (insert_job k j e) = allocated_tokens e"
  by (simp_all add: insert_job_def jobs_insert_def)

lemma jobs_ok_declare:
  assumes "jobs_ok X e" and "\<And>n e. jobs_ok X e \<Longrightarrow> jobs_ok X (env n e)"
  shows "jobs_ok X (snd (handle_declare_mining_job X env dmj pmts e))"
proof (cases "declare_checks X dmj pmts")
  case (Ok tw)
  obtain token ws where tw: "tw = (token, ws)" by (cases tw)
  let ?job = "\<lambda>txs sct. declared_snapshot X dmj token ws txs (capture_tip e) sct"
  from Ok tw have "job_ok X (?job txs sct)" for txs sct by (simp add: job_ok_snapshot)
  then have "jobs_ok X (env 1 (insert_job k (?job txs sct) (env 0 e)))" for k txs sct
    using assms by (simp add: jobs_ok_insert_job)
  then have "jobs_ok X (bump f (insert_token t k (env 1 (insert_job k (?job txs sct) (env 0 e)))))" for f t k txs sct
    by (subst jobs_ok_cong [where e = "env 1 (insert_job k (?job txs sct) (env 0 e))"]) simp_all
  with Ok tw assms(1) show ?thesis
    by (auto simp: handle_declare_mining_job_def Let_def declare_return_def split: result.splits)
next
  case (Err r)
  with assms(1) show ?thesis
    by (simp add: handle_declare_mining_job_def declare_return_def jobs_ok_def)
next
  case Panic
  with assms(1) show ?thesis by (simp add: handle_declare_mining_job_def)
qed

section \<open>Properties\<close>

text \<open>
  C12: \<open>DeclareMiningJob\<close> is accepted exactly when the token has eight bytes, the coinbase reassembles
  with one input, every wtxid has 32 bytes, the missing transactions were provided and the chain
  read does not panic; the wtxid list itself may be empty, a coinbase-only declaration is refused only as
  long as the missing transactions have not been provided (ADR 0004 asks for more). Acceptance caches
  the snapshot under the request id and binds the token to it and touches no other entry; every other
  reply, \<open>MissingTransactions\<close> included, leaves everything but the metrics as it was.
\<close>

theorem declare_outcome:
  "(fst (handle_declare_mining_job X quiet dmj pmts e) = Reply DeclareSuccess \<longleftrightarrow>
      length (dmj_mining_job_token dmj) = 8 \<and>
      (\<exists>tx. reconstruct_coinbase X (dmj_coinbase_tx_prefix dmj) (dmj_coinbase_tx_suffix dmj) = Ok tx \<and>
            length (tx_input tx) = 1) \<and>
      list_all (\<lambda>w. length w = 32) (dmj_wtxid_list dmj) \<and> pmts \<noteq> None \<and>
      capture_share_chain_tip e \<noteq> Panic) \<and>
   (if fst (handle_declare_mining_job X quiet dmj pmts e) = Reply DeclareSuccess
    then \<exists>token sct. decode_token dmj = Some token \<and> capture_share_chain_tip e = Ok sct \<and>
       snd (handle_declare_mining_job X quiet dmj pmts e) =
         bump (declare_counter DeclareSuccess)
           (e\<lparr>declared_jobs := dm_insert (dmj_request_id dmj)
                (declared_snapshot X dmj token (dmj_wtxid_list dmj) (parse_missing X pmts) (capture_tip e) sct)
                (declared_jobs e),
              allocated_tokens := dm_insert token (dmj_request_id dmj) (allocated_tokens e)\<rparr>)
    else snd (handle_declare_mining_job X quiet dmj pmts e) =
      (case fst (handle_declare_mining_job X quiet dmj pmts e) of
         Reply r \<Rightarrow> bump (declare_counter r) e | Panicked \<Rightarrow> e))"
proof (cases "declare_checks X dmj pmts")
  case (Ok tw)
  obtain token ws where tw: "tw = (token, ws)" by (cases tw)
  note ok = Ok [unfolded tw declare_checks_Ok_iff]
  have no_err: "capture_share_chain_tip e \<noteq> Err x" for x
    by (auto simp: capture_share_chain_tip_def split: option.splits result.splits)
  from ok have len: "length (dmj_mining_job_token dmj) = 8"
    by (auto simp: decode_token_def split: if_splits)
  show ?thesis
    using Ok ok len no_err
    by (cases "capture_share_chain_tip e")
      (auto simp: tw handle_declare_mining_job_def Let_def declare_return_def insert_job_def
        insert_token_def jobs_insert_def list_all_iff)
next
  case (Err r)
  have "r \<noteq> DeclareSuccess" using Err declare_checks_not_success by metis
  with Err declare_checks_reject [of X dmj pmts] show ?thesis
    by (auto simp: handle_declare_mining_job_def declare_return_def list_all_iff)
next
  case Panic
  with declare_checks_reject [of X dmj pmts] show ?thesis
    by (auto simp: handle_declare_mining_job_def list_all_iff)
qed

definition sample_dmj :: declare_mining_job where
  "sample_dmj =
     \<lparr>dmj_request_id = 1, dmj_mining_job_token = [42, 0, 0, 0, 0, 0, 0, 0], dmj_version = 536870912,
      dmj_coinbase_tx_prefix = replicate 43 0 @ [3, 7], dmj_coinbase_tx_suffix = [],
      dmj_wtxid_list = [replicate 32 1]\<rparr>"

definition sample_pmts :: provide_missing_transactions_success where
  "sample_pmts = \<lparr>pmts_request_id = 1, pmts_transaction_list = [[]]\<rparr>"

lemma sample_declare_checks:
  "declare_checks sample_ext sample_dmj (Some sample_pmts) = Ok (42, [replicate 32 1])"
  by (simp add: declare_checks_Ok_iff sample_dmj_def decode_token_def sample_zero_coinbase
      sample_coinbase_def)

text \<open>
  the declared wtxid list plays no part in what is cached for validation: an accepted declaration
  stays accepted with any other list of 32-byte wtxids, and the txid list of the cached job is that
  of the provided transactions that decode, in order, an undecodable one being left out silently.
\<close>

lemma declare_ignores_wtxids:
  assumes "fst (handle_declare_mining_job X quiet dmj (Some p) e) = Reply DeclareSuccess"
    and "list_all (\<lambda>w. length w = 32) ws"
  shows "fst (handle_declare_mining_job X quiet (dmj\<lparr>dmj_wtxid_list := ws\<rparr>) (Some p) e) = Reply DeclareSuccess \<and>
    map_option job_txid_list (jobs_get (declared_jobs (snd (handle_declare_mining_job X quiet
        (dmj\<lparr>dmj_wtxid_list := ws\<rparr>) (Some p) e))) (dmj_request_id dmj)) =
      Some (Some (map (compute_txid X) (List.map_filter (decode_tx X) (pmts_transaction_list p))))"
proof -
  have success: "\<exists>t w. declare_checks X dmj (Some p) = Ok (t, w)"
    using assms(1) declare_checks_not_success [of X dmj "Some p"]
    by (auto simp: handle_declare_mining_job_def declare_return_def split: result.splits)
  then obtain t where "declare_checks X (dmj\<lparr>dmj_wtxid_list := ws\<rparr>) (Some p) = Ok (t, ws)"
    using assms(2) by (auto simp: declare_checks_Ok_iff list_all_iff)
  then show ?thesis
    using assms(1) success
    by (auto simp: handle_declare_mining_job_def declare_return_def Let_def jobs_get_def
        declared_snapshot_def parse_missing_def split: result.splits)
qed

theorem declare_ignores_wtxids_witness:
  "map_option job_txid_list (jobs_get (declared_jobs (snd (handle_declare_mining_job sample_ext quiet
        (sample_dmj\<lparr>dmj_wtxid_list := []\<rparr>) (Some sample_pmts) engine_default))) 1) = Some (Some [])"
proof -
  have "fst (handle_declare_mining_job sample_ext quiet sample_dmj (Some sample_pmts) engine_default) =
      Reply DeclareSuccess"
    by (simp add: handle_declare_mining_job_def sample_declare_checks capture_share_chain_tip_def
        engine_default_def engine_new_def Let_def declare_return_def)
  from declare_ignores_wtxids [OF this, of "[]"] show ?thesis
    by (simp add: sample_dmj_def sample_pmts_def map_filter_simps sample_decode_tx_def
        compact_size_decode_def)
qed

end
