(* ===== verification/Engine_Scmj.thy ===== *)
theory Engine_Scmj
  imports Engine_Declare
begin

text \<open>
  \<open>handle_set_custom_mining_job\<close> of \<open>crates/sv2-p2pool-engine/src/engine_impl.rs\<close>: consumption of
  the token and of the declared job, the cross-checks in their order, and the proposal check
  against bitcoind.
\<close>

datatype scmj_error =
    ScmjInvalidMiningJobToken
  | ScmjJobNotYetValidated
  | ScmjStaleChainTip
  | ScmjInvalidNbits
  | ScmjInvalidVersion
  | ScmjInvalidCoinbaseTx
  | ScmjInvalidCoinbaseTxVersion
  | ScmjInvalidCoinbasePrefix
  | ScmjInvalidCoinbaseTxInputNSequence
  | ScmjInvalidCoinbaseTxOutputs
  | ScmjInvalidCoinbaseTxLocktime
  | ScmjInvalidMerklePath

datatype scmj_result = ScmjSuccess | ScmjError scmj_error

type_synonym 'a scmj_check = "(scmj_error, 'a) result"

fun scmj_counter :: "scmj_result \<Rightarrow> engine_metrics \<Rightarrow> engine_metrics" where
  "scmj_counter ScmjSuccess m = m\<lparr>set_custom_mining_job_accepted := set_custom_mining_job_accepted m + 1\<rparr>"
| "scmj_counter (ScmjError _) m = m\<lparr>set_custom_mining_job_rejected := set_custom_mining_job_rejected m + 1\<rparr>"

definition scmj_return :: "scmj_result \<Rightarrow> engine \<Rightarrow> scmj_result handled \<times> engine" where
  "scmj_return r e = (Reply r, bump (scmj_counter r) e)"

section \<open>Consuming the token\<close>

text \<open>
  \<open>env 0\<close> runs between the token lookup and its removal, \<open>env 1\<close> between the two removals.
\<close>

definition remove_token :: "jd_token \<Rightarrow> engine \<Rightarrow> engine" where
  "remove_token token e = e\<lparr>allocated_tokens := dm_remove token (allocated_tokens e)\<rparr>"

definition remove_job :: "request_id \<Rightarrow> engine \<Rightarrow> engine" where
  "remove_job request_id e = e\<lparr>declared_jobs := snd (jobs_remove request_id (declared_jobs e))\<rparr>"

definition scmj_consume :: "env \<Rightarrow> jd_token \<Rightarrow> engine \<Rightarrow> declared_job scmj_check \<times> engine" where
  "scmj_consume env token e =
     (case dm_get (allocated_tokens e) token of
        None \<Rightarrow> (Err ScmjInvalidMiningJobToken, e)
      | Some request_id \<Rightarrow>
          let e1 = env 1 (remove_token token (env 0 e));
              e2 = remove_job request_id e1
          in (case fst (jobs_remove request_id (declared_jobs e1)) of
                None \<Rightarrow> (Err ScmjInvalidMiningJobToken, e2)
              | Some declared \<Rightarrow>
                  (if \<not> job_validated declared then Err ScmjJobNotYetValidated else Ok declared, e2)))"

section \<open>Cross-checks\<close>

definition tip_was_captured :: "declared_job \<Rightarrow> bool" where
  "tip_was_captured declared =
     (tip_prev_hash (job_tip declared) \<noteq> all_zeros \<or> tip_nbits (job_tip declared) \<noteq> 0)"

definition scmj_check_tip :: "declared_job \<Rightarrow> set_custom_mining_job \<Rightarrow> unit scmj_check" where
  "scmj_check_tip declared scmj =
     (if tip_was_captured declared
      then case to_array32 (scmj_prev_hash scmj) of
             None \<Rightarrow> Panic
           | Some custom_prev_hash \<Rightarrow>
               if custom_prev_hash \<noteq> tip_prev_hash (job_tip declared) then Err ScmjStaleChainTip
               else if scmj_nbits scmj \<noteq> tip_nbits (job_tip declared) then Err ScmjInvalidNbits
               else Ok ()
      else Ok ())"

definition scmj_check_version :: "declared_job \<Rightarrow> set_custom_mining_job \<Rightarrow> unit scmj_check" where
  "scmj_check_version declared scmj =
     (if scmj_version scmj \<noteq> job_version declared then Err ScmjInvalidVersion else Ok ())"

definition starts_with :: "bytes \<Rightarrow> bytes \<Rightarrow> bool" where
  "starts_with bs p = (take (length p) bs = p)"

definition scmj_check_coinbase ::
  "externals \<Rightarrow> declared_job \<Rightarrow> set_custom_mining_job \<Rightarrow> transaction scmj_check" where
  "scmj_check_coinbase X declared scmj =
     rbind (map_err (\<lambda>_. ScmjInvalidCoinbaseTx)
              (reconstruct_coinbase X (job_coinbase_tx_prefix declared) (job_coinbase_tx_suffix declared)))
       (\<lambda>tx.
          if tx_version tx \<noteq> scmj_coinbase_tx_version scmj then Err ScmjInvalidCoinbaseTxVersion
          else case tx_input tx of
            [] \<Rightarrow> Panic
          | inp # _ \<Rightarrow>
              if \<not> starts_with (script_sig inp) (scmj_coinbase_prefix scmj)
              then Err ScmjInvalidCoinbasePrefix
              else if sequence inp \<noteq> scmj_coinbase_tx_input_n_sequence scmj
              then Err ScmjInvalidCoinbaseTxInputNSequence
              else if serialize_txouts X (tx_output tx) \<noteq> scmj_coinbase_tx_outputs scmj
              then Err ScmjInvalidCoinbaseTxOutputs
              else if lock_time tx \<noteq> scmj_coinbase_tx_locktime scmj
              then Err ScmjInvalidCoinbaseTxLocktime
              else Ok tx)"

definition scmj_check_merkle_path ::
  "externals \<Rightarrow> declared_job \<Rightarrow> set_custom_mining_job \<Rightarrow> transaction \<Rightarrow> unit scmj_check" where
  "scmj_check_merkle_path X declared scmj coinbase_tx =
     rbind (ok_or ScmjJobNotYetValidated (job_txid_list declared)) (\<lambda>txid_list.
     rbind (decode_u256s (scmj_merkle_path scmj)) (\<lambda>custom_merkle_path.
     if merkle_path X (compute_txid X coinbase_tx) txid_list \<noteq> custom_merkle_path
     then Err ScmjInvalidMerklePath else Ok ()))"

definition scmj_cross_checks ::
  "externals \<Rightarrow> declared_job \<Rightarrow> set_custom_mining_job \<Rightarrow> unit scmj_check" where
  "scmj_cross_checks X declared scmj =
     rbind (scmj_check_tip declared scmj) (\<lambda>_.
     rbind (scmj_check_version declared scmj) (\<lambda>_.
     rbind (scmj_check_coinbase X declared scmj) (\<lambda>tx.
     scmj_check_merkle_path X declared scmj tx)))"

section \<open>Proposal validation\<close>

definition validation_skipped :: "engine_metrics \<Rightarrow> engine_metrics" where
  "validation_skipped m =
     m\<lparr>set_custom_mining_job_validation_skipped := set_custom_mining_job_validation_skipped m + 1\<rparr>"

definition observe_validation :: "engine_metrics \<Rightarrow> engine_metrics" where
  "observe_validation m =
     m\<lparr>set_custom_mining_job_validation_seconds := set_custom_mining_job_validation_seconds m + 1\<rparr>"

definition scmj_verdict :: "string + proposal_outcome \<Rightarrow> engine \<Rightarrow> unit scmj_check \<times> engine" where
  "scmj_verdict outcome e =
     (case outcome of
        Inr Accepted \<Rightarrow> (Ok (), e)
      | Inr Duplicate \<Rightarrow> (Ok (), e)
      | Inr (Rejected _) \<Rightarrow>
          (Err ScmjInvalidCoinbaseTx, bump (record_scmj_proposal_rejection ConsensusRejected) e)
      | Inl _ \<Rightarrow>
          (Err ScmjInvalidCoinbaseTx, bump (record_scmj_proposal_rejection ScmjRpcError) e))"

text \<open>
  \<open>env 2\<close> and \<open>env 3\<close> are the suspension points of \<open>request_tx_bodies\<close>, \<open>env 4\<close> the await on bitcoind.
\<close>

definition scmj_proposal ::
  "externals \<Rightarrow> env \<Rightarrow> declared_job \<Rightarrow> set_custom_mining_job \<Rightarrow> engine \<Rightarrow> unit scmj_check \<times> engine" where
  "scmj_proposal X env declared scmj e =
     (case (tdp e, handles e, job_template_id declared) of
        (Some _, Some h, Some template_id) \<Rightarrow>
          (case engine_request_tx_bodies X (env_from 2 env) template_id e of
             (Err _, e1) \<Rightarrow> (Ok (), bump validation_skipped e1)
           | (Panic, e1) \<Rightarrow> (Panic, e1)
           | (Ok tx_bodies, e1) \<Rightarrow>
               (case build_candidate_block X declared scmj tx_bodies of
                  Err _ \<Rightarrow> (Err ScmjInvalidCoinbaseTx, e1)
                | Panic \<Rightarrow> (Panic, e1)
                | Ok candidate \<Rightarrow>
                    scmj_verdict (hnd_validate_block_proposal h candidate)
                      (bump observe_validation (env 4 e1))))
      | _ \<Rightarrow> (Ok (), bump validation_skipped e))"

definition scmj_finish :: "unit scmj_check \<times> engine \<Rightarrow> scmj_result handled \<times> engine" where
  "scmj_finish re =
     (case fst re of
        Ok _ \<Rightarrow> scmj_return ScmjSuccess (snd re)
      | Err c \<Rightarrow> scmj_return (ScmjError c) (snd re)
      | Panic \<Rightarrow> (Panicked, snd re))"

definition handle_set_custom_mining_job ::
  "externals \<Rightarrow> env \<Rightarrow> set_custom_mining_job \<Rightarrow> jd_token \<Rightarrow> engine \<Rightarrow> scmj_result handled \<times> engine" where
  "handle_set_custom_mining_job X env scmj token e =
     (case scmj_consume env token e of
        (Ok declared, e1) \<Rightarrow>
          (case scmj_cross_checks X declared scmj of
             Ok _ \<Rightarrow> scmj_finish (scmj_proposal X env declared scmj e1)
           | Err c \<Rightarrow> scmj_return (ScmjError c) e1
           | Panic \<Rightarrow> (Panicked, e1))
      | (Err c, e1) \<Rightarrow> scmj_return (ScmjError c) e1
      | (Panic, e1) \<Rightarrow> (Panicked, e1))"

section \<open>The declarative reading of the cross-checks\<close>

text \<open>
  \<open>scmj_matches\<close> says what it means for a custom job to be the declared one; \<open>scmj_typed\<close> is the
  wire type of its hash fields.
\<close>

definition scmj_typed :: "set_custom_mining_job \<Rightarrow> bool" where
  "scmj_typed scmj \<longleftrightarrow> length (scmj_prev_hash scmj) = 32 \<and> list_all (\<lambda>h. length h = 32) (scmj_merkle_path scmj)"

definition coinbase_agrees :: "externals \<Rightarrow> set_custom_mining_job \<Rightarrow> transaction \<Rightarrow> bool" where
  "coinbase_agrees X scmj tx \<longleftrightarrow>
     tx_version tx = scmj_coinbase_tx_version scmj \<and>
     (\<exists>inp rest. tx_input tx = inp # rest \<and> starts_with (script_sig inp) (scmj_coinbase_prefix scmj) \<and>
        sequence inp = scmj_coinbase_tx_input_n_sequence scmj) \<and>
     serialize_txouts X (tx_output tx) = scmj_coinbase_tx_outputs scmj \<and>
     lock_time tx = scmj_coinbase_tx_locktime scmj"

definition scmj_matches :: "externals \<Rightarrow> declared_job \<Rightarrow> set_custom_mining_job \<Rightarrow> bool" where
  "scmj_matches X declared scmj \<longleftrightarrow>
     (tip_was_captured declared \<longrightarrow>
        scmj_prev_hash scmj = tip_prev_hash (job_tip declared) \<and> length (scmj_prev_hash scmj) = 32 \<and>
        scmj_nbits scmj = tip_nbits (job_tip declared)) \<and>
     scmj_version scmj = job_version declared \<and>
     (\<exists>tx txid_list.
        reconstruct_coinbase X (job_coinbase_tx_prefix declared) (job_coinbase_tx_suffix declared) = Ok tx \<and>
        coinbase_agrees X scmj tx \<and> job_txid_list declared = Some txid_list \<and>
        list_all (\<lambda>h. length h = 32) (scmj_merkle_path scmj) \<and>
        merkle_path X (compute_txid X tx) txid_list = scmj_merkle_path scmj)"

lemma scmj_check_coinbase_Ok_iff:
  "scmj_check_coinbase X declared scmj = Ok tx \<longleftrightarrow>
     reconstruct_coinbase X (job_coinbase_tx_prefix declared) (job_coinbase_tx_suffix declared) = Ok tx \<and>
     coinbase_agrees X scmj tx"
  by (cases "reconstruct_coinbase X (job_coinbase_tx_prefix declared) (job_coinbase_tx_suffix declared)")
    (auto simp: scmj_check_coinbase_def coinbase_agrees_def split: if_splits list.splits)

lemma scmj_check_merkle_path_Ok_iff:
  "scmj_check_merkle_path X declared scmj tx = Ok u \<longleftrightarrow>
     (\<exists>ids. job_txid_list declared = Some ids \<and> list_all (\<lambda>h. length h = 32) (scmj_merkle_path scmj) \<and>
        merkle_path X (compute_txid X tx) ids = scmj_merkle_path scmj)"
  by (auto simp: scmj_check_merkle_path_def rbind_iffs decode_u256s_Ok_iff list_all_iff)

lemma scmj_cross_checks_Ok_iff: "scmj_cross_checks X declared scmj = Ok u \<longleftrightarrow> scmj_matches X declared scmj"
proof -
  have tip: "scmj_check_tip declared scmj = Ok v \<longleftrightarrow>
     (tip_was_captured declared \<longrightarrow>
        scmj_prev_hash scmj = tip_prev_hash (job_tip declared) \<and> length (scmj_prev_hash scmj) = 32 \<and>
        scmj_nbits scmj = tip_nbits (job_tip declared))" for v
    by (auto simp: scmj_check_tip_def to_array32_def)
  have ver: "scmj_check_version declared scmj = Ok v \<longleftrightarrow> scmj_version scmj = job_version declared" for v
    by (simp add: scmj_check_version_def)
  show ?thesis
    by (auto simp: scmj_cross_checks_def scmj_matches_def rbind_Ok_iff tip ver
        scmj_check_coinbase_Ok_iff scmj_check_merkle_path_Ok_iff)
qed

section \<open>Lemmas on the stages\<close>

lemma remove_fields [simp, engine_simps]:
  "declared_jobs (remove_token t e) = declared_jobs e"
  "allocated_tokens (remove_token t e) = dm_remove t (allocated_tokens e)"
  "allocated_tokens (remove_job k e) = allocated_tokens e"
  "declared_jobs (remove_job k e) = dm_remove k (declared_jobs e)"
  "tdp (remove_token t e) = tdp e" "tdp (remove_job k e) = tdp e"
  "handles (remove_token t e) = handles e" "handles (remove_job k e) = handles e"
  "metrics (remove_token t e) = metrics e" "metrics (remove_job k e) = metrics e"
  by (simp_all add: remove_token_def remove_job_def jobs_remove_def)

lemma scmj_consume_Ok_iff:
  "fst (scmj_consume env token e) = Ok job \<longleftrightarrow>
     (\<exists>rid. dm_get (allocated_tokens e) token = Some rid \<and>
        dm_get (declared_jobs (env 1 (remove_token token (env 0 e)))) rid = Some job \<and> job_validated job)"
  by (auto simp: scmj_consume_def Let_def jobs_remove_def split: option.splits)

lemma scmj_consume_state:
  "snd (scmj_consume env token e) =
     (case dm_get (allocated_tokens e) token of
        None \<Rightarrow> e | Some rid \<Rightarrow> remove_job rid (env 1 (remove_token token (env 0 e))))"
  by (auto simp: scmj_consume_def Let_def split: option.splits)

lemma scmj_consume_no_Panic [simp]: "fst (scmj_consume env token e) \<noteq> Panic"
  by (auto simp: scmj_consume_def Let_def split: option.splits)

lemma decode_bodies_no_Panic [simp]: "decode_bodies X l \<noteq> Panic"
  by (induction l) (auto simp: rbind_iffs)

lemma finish_wait_no_Panic [simp]: "finish_wait X t i oc h \<noteq> (Panic, h')"
  by (cases oc) (auto simp: finish_wait_def decode_response_def split: tx_data_result.splits)

lemma tdp_register_no_Panic [simp]: "tdp_register t h \<noteq> (Panic, h')"
  by (auto simp: tdp_register_def Let_def split: option.splits)

lemma tdp_send_no_Panic [simp]: "tdp_send t h \<noteq> (Panic, h')"
  by (auto simp: tdp_send_def)

lemma engine_request_no_Panic [simp]: "engine_request_tx_bodies X env t e \<noteq> (Panic, e')"
  by (auto simp: engine_request_tx_bodies_def request_tx_bodies_def Let_def
      split: prod.splits result.splits)

definition proposal_passes ::
  "externals \<Rightarrow> env \<Rightarrow> declared_job \<Rightarrow> set_custom_mining_job \<Rightarrow> engine \<Rightarrow> bool" where
  "proposal_passes X env declared scmj e \<longleftrightarrow>
     (case (tdp e, handles e, job_template_id declared) of
        (Some _, Some h, Some template_id) \<Rightarrow>
          (case fst (engine_request_tx_bodies X (env_from 2 env) template_id e) of
             Ok bodies \<Rightarrow> (\<exists>cand. build_candidate_block X declared scmj bodies = Ok cand \<and>
                hnd_validate_block_proposal h cand \<in> {Inr Accepted, Inr Duplicate})
           | _ \<Rightarrow> True)
      | _ \<Rightarrow> True)"

lemma scmj_verdict_Ok_iff [simp]:
  "fst (scmj_verdict oc e) = Ok u \<longleftrightarrow> oc \<in> {Inr Accepted, Inr Duplicate}"
  by (auto simp: scmj_verdict_def split: sum.splits proposal_outcome.splits)

lemma scmj_proposal_Ok_iff: "fst (scmj_proposal X env declared scmj e) = Ok u \<longleftrightarrow> proposal_passes X env declared scmj e"
  by (auto simp: scmj_proposal_def proposal_passes_def split: option.splits prod.splits result.splits)

lemma scmj_finish_Success_iff [simp]: "fst (scmj_finish re) = Reply ScmjSuccess \<longleftrightarrow> fst re = Ok ()"
  by (auto simp: scmj_finish_def scmj_return_def split: result.splits)

section \<open>Properties\<close>

lemma scmj_success_iff_aux:
  "fst (handle_set_custom_mining_job X env scmj token e) = Reply ScmjSuccess \<longleftrightarrow>
     (\<exists>rid job. dm_get (allocated_tokens e) token = Some rid \<and>
        dm_get (declared_jobs (env 1 (remove_token token (env 0 e)))) rid = Some job \<and>
        job_validated job \<and> scmj_matches X job scmj \<and>
        proposal_passes X env job scmj (remove_job rid (env 1 (remove_token token (env 0 e)))))"
proof (cases "fst (scmj_consume env token e)")
  case (Ok job)
  then obtain rid where rid: "dm_get (allocated_tokens e) token = Some rid"
    "dm_get (declared_jobs (env 1 (remove_token token (env 0 e)))) rid = Some job" "job_validated job"
    by (auto simp: scmj_consume_Ok_iff)
  obtain e1 where cons: "scmj_consume env token e = (Ok job, e1)"
    using Ok by (metis prod.collapse)
  with rid have e1: "e1 = remove_job rid (env 1 (remove_token token (env 0 e)))"
    using scmj_consume_state [of env token e] by simp
  show ?thesis
    using cons rid
    by (cases "scmj_cross_checks X job scmj")
      (auto simp: handle_set_custom_mining_job_def e1 scmj_return_def scmj_proposal_Ok_iff
        simp flip: scmj_cross_checks_Ok_iff [where u = "()"])
next
  case (Err c)
  then have no: "\<not> (\<exists>rid job. dm_get (allocated_tokens e) token = Some rid \<and>
      dm_get (declared_jobs (env 1 (remove_token token (env 0 e)))) rid = Some job \<and> job_validated job)"
    using scmj_consume_Ok_iff [of env token e] by (metis result.distinct(1))
  obtain e1 where "scmj_consume env token e = (Err c, e1)"
    using Err by (metis prod.collapse)
  then have "fst (handle_set_custom_mining_job X env scmj token e) \<noteq> Reply ScmjSuccess"
    by (simp add: handle_set_custom_mining_job_def scmj_return_def)
  with no show ?thesis by blast
qed (simp)

text \<open>
  C3: a \<open>SetCustomMiningJob\<close> succeeds, under any interference of other tasks, exactly when its token
  is bound to a request id, a validated job is cached under that id when the handler removes it, the
  custom job agrees with the declared one in the tip (when one was captured), the version, every
  coinbase field and the Merkle path, and the proposal check passes: bitcoind accepted the candidate
  block built from the fetched transactions, or the transactions could not be fetched or no backend
  and template are wired.
\<close>

theorem scmj_success_iff:
  "fst (handle_set_custom_mining_job X env scmj token e) = Reply ScmjSuccess \<longleftrightarrow>
     (\<exists>rid job. dm_get (allocated_tokens e) token = Some rid \<and>
        dm_get (declared_jobs (env 1 (remove_token token (env 0 e)))) rid = Some job \<and>
        job_validated job \<and> scmj_matches X job scmj \<and>
        proposal_passes X env job scmj (remove_job rid (env 1 (remove_token token (env 0 e)))))"
  by (rule scmj_success_iff_aux)

lemma scmj_proposal_tdp_only:
  assumes "tdp_only env"
  shows "allocated_tokens (snd (scmj_proposal X env declared scmj e)) = allocated_tokens e"
    and "declared_jobs (snd (scmj_proposal X env declared scmj e)) = declared_jobs e"
proof -
  note shift = tdp_only_shift [OF assms, of 2]
  have fields: "allocated_tokens e' = allocated_tokens e \<and> declared_jobs e' = declared_jobs e"
    if "engine_request_tx_bodies X (env_from 2 env) t e = (r, e')" for t r e'
    using request_tdp_only [OF that shift] by simp_all
  show "allocated_tokens (snd (scmj_proposal X env declared scmj e)) = allocated_tokens e"
    and "declared_jobs (snd (scmj_proposal X env declared scmj e)) = declared_jobs e"
    by (auto simp: scmj_proposal_def scmj_verdict_def tdp_only_fields [OF assms] dest!: fields
        split: option.splits prod.splits result.splits sum.splits proposal_outcome.splits)
qed

lemma scmj_finish_fields [simp]:
  "allocated_tokens (snd (scmj_finish re)) = allocated_tokens (snd re)"
  "declared_jobs (snd (scmj_finish re)) = declared_jobs (snd re)"
  by (auto simp: scmj_finish_def scmj_return_def split: result.splits)

lemma scmj_state:
  assumes "tdp_only env"
  shows "allocated_tokens (snd (handle_set_custom_mining_job X env scmj token e)) =
     (case dm_get (allocated_tokens e) token of None \<Rightarrow> allocated_tokens e | Some _ \<Rightarrow> dm_remove token (allocated_tokens e))"
    and "declared_jobs (snd (handle_set_custom_mining_job X env scmj token e)) =
     (case dm_get (allocated_tokens e) token of None \<Rightarrow> declared_jobs e | Some rid \<Rightarrow> dm_remove rid (declared_jobs e))"
  using scmj_consume_state [of env token e]
  by (auto simp: handle_set_custom_mining_job_def scmj_return_def scmj_proposal_tdp_only [OF assms]
      tdp_only_fields [OF assms] split: prod.splits result.splits option.splits)

lemma unbound_scmj:
  "dm_get (allocated_tokens e) token = None \<Longrightarrow>
   handle_set_custom_mining_job X env scmj token e = scmj_return (ScmjError ScmjInvalidMiningJobToken) e"
  by (simp add: handle_set_custom_mining_job_def scmj_consume_def)

lemma request_keeps:
  assumes "engine_request_tx_bodies X env t e = (r, e')" and "P e"
    and "\<And>n e. P e \<Longrightarrow> P (env n e)" and "\<And>h e. P e \<Longrightarrow> P (put_tdp h e)"
  shows "P e'"
  using assms
  by (auto simp: engine_request_tx_bodies_def request_tx_bodies_def Let_def
      split: prod.splits result.splits)

lemma scmj_unbinds:
  assumes "\<And>n e. dm_get (allocated_tokens e) token = None \<Longrightarrow> dm_get (allocated_tokens (env n e)) token = None"
  shows "dm_get (allocated_tokens (snd (handle_set_custom_mining_job X env scmj token e))) token = None"
proof (cases "dm_get (allocated_tokens e) token")
  case None
  then show ?thesis by (simp add: unbound_scmj scmj_return_def)
next
  case (Some rid)
  let ?P = "\<lambda>e. dm_get (allocated_tokens e) token = None"
  have start: "?P (snd (scmj_consume env token e))"
    using Some assms by (simp add: scmj_consume_state)
  have proposal: "?P (snd (scmj_proposal X env job scmj e1))" if "?P e1" for job e1
  proof -
    have req: "?P e'" if "engine_request_tx_bodies X (env_from 2 env) t e1 = (r, e')" for t r e'
      using request_keeps [OF that, of ?P] \<open>?P e1\<close> assms by (simp add: env_from_def)
    show ?thesis
      using that assms
      by (auto simp: scmj_proposal_def scmj_verdict_def dest!: req
          split: option.splits prod.splits result.splits sum.splits proposal_outcome.splits)
  qed
  show ?thesis
    using start proposal
    by (auto simp: handle_set_custom_mining_job_def scmj_return_def
        split: prod.splits result.splits)
qed

text \<open>
  a token is good for one \<open>SetCustomMiningJob\<close> whatever its outcome and whatever other tasks do
  meanwhile, short of binding the same token again: after the handler has run, the token is
  unbound, and the next attempt with it is answered with \<open>invalid-mining-job-token\<close> and changes
  nothing but the rejection counter.
\<close>

lemma scmj_one_shot:
  assumes "\<And>n e. dm_get (allocated_tokens e) token = None \<Longrightarrow> dm_get (allocated_tokens (env n e)) token = None"
    and "e' = snd (handle_set_custom_mining_job X env scmj token e)"
  shows "dm_get (allocated_tokens e') token = None \<and>
    handle_set_custom_mining_job X env' scmj' token e' =
      (Reply (ScmjError ScmjInvalidMiningJobToken), bump (scmj_counter (ScmjError ScmjInvalidMiningJobToken)) e')"
  using scmj_unbinds [OF assms(1)] by (simp add: assms(2) unbound_scmj scmj_return_def)

text \<open>
  what the handler removes: with interference on the bridge only, every outcome of
  \<open>SetCustomMiningJob\<close> with a bound token takes exactly the token and the job cached under its
  request id out of the maps, and with an unbound token nothing.
\<close>

lemma scmj_consumes_exactly:
  assumes "tdp_only env"
  shows "dm_get (allocated_tokens (snd (handle_set_custom_mining_job X env scmj token e))) t =
      (if t = token then None else dm_get (allocated_tokens e) t) \<and>
    dm_get (declared_jobs (snd (handle_set_custom_mining_job X env scmj token e))) rid =
      (if dm_get (allocated_tokens e) token = Some rid then None else dm_get (declared_jobs e) rid)"
  by (auto simp: scmj_state [OF assms] split: option.splits)

section \<open>Declared jobs never break the handler\<close>

lemma job_ok_coinbase:
  assumes "job_ok X job"
  obtains tx inp where "reconstruct_coinbase X (job_coinbase_tx_prefix job) (job_coinbase_tx_suffix job) = Ok tx"
    "tx_input tx = [inp]"
  using assms unfolding job_ok_def
  by (auto simp: length_Suc_conv split: result.splits)

lemma job_ok_txids: "job_ok X job \<Longrightarrow> \<exists>ids. job_txid_list job = Some ids"
  by (auto simp: job_ok_def)

lemma cross_checks_job_ok:
  assumes "job_ok X job" and "scmj_typed scmj"
  shows "scmj_cross_checks X job scmj \<noteq> Panic \<and> scmj_cross_checks X job scmj \<noteq> Err ScmjJobNotYetValidated
    \<and> scmj_cross_checks X job scmj \<noteq> Err ScmjInvalidCoinbaseTx"
proof -
  obtain tx inp where tx: "reconstruct_coinbase X (job_coinbase_tx_prefix job) (job_coinbase_tx_suffix job) = Ok tx"
    "tx_input tx = [inp]" using assms(1) by (rule job_ok_coinbase)
  obtain ids where ids: "job_txid_list job = Some ids" using job_ok_txids [OF assms(1)] by blast
  have path: "decode_u256s (scmj_merkle_path scmj) = Ok (scmj_merkle_path scmj)"
    using assms(2) by (simp add: decode_u256s_Ok_iff scmj_typed_def list_all_iff)
  show ?thesis
    using assms(2) unfolding scmj_typed_def
    by (auto simp: scmj_cross_checks_def scmj_check_tip_def scmj_check_version_def scmj_check_coinbase_def
        scmj_check_merkle_path_def tx ids path to_array32_def rbind_iffs split: if_splits)
qed

lemma proposal_job_ok:
  assumes "job_ok X job"
  shows "fst (scmj_proposal X env job scmj e) \<noteq> Panic"
    and "fst (scmj_proposal X env job scmj e) \<noteq> Err ScmjJobNotYetValidated"
proof -
  obtain tx inp where tx: "reconstruct_coinbase X (job_coinbase_tx_prefix job) (job_coinbase_tx_suffix job) = Ok tx"
    "tx_input tx = [inp]" using assms(1) by (rule job_ok_coinbase)
  have "build_candidate_block X job scmj bodies \<noteq> Panic" for bodies
    by (auto simp: build_candidate_block_def rbind_iffs tx Let_def)
  then show "fst (scmj_proposal X env job scmj e) \<noteq> Panic"
    and "fst (scmj_proposal X env job scmj e) \<noteq> Err ScmjJobNotYetValidated"
    by (auto simp: scmj_proposal_def scmj_verdict_def split: option.splits prod.splits result.splits
        sum.splits proposal_outcome.splits)
qed

lemma jobs_ok_remove_job: "jobs_ok X e \<Longrightarrow> jobs_ok X (remove_job k e)"
  by (auto simp: jobs_ok_def split: if_splits)

lemma jobs_ok_remove_token: "jobs_ok X e \<Longrightarrow> jobs_ok X (remove_token t e)"
  by (auto simp: jobs_ok_def)

text \<open>
  C10: when every cached job is one that \<open>DeclareMiningJob\<close> admitted and the hash fields of the
  message have their wire width, \<open>SetCustomMiningJob\<close> neither panics nor answers that the job is
  not yet validated, whatever other tasks do to the engine meanwhile as long as they keep the cache
  in that condition: its \<open>expect\<close>s, its unguarded access to the first coinbase input and its
  defensive branches are unreachable.
\<close>

theorem scmj_total:
  assumes "jobs_ok X e" and "scmj_typed scmj" and "\<And>n e. jobs_ok X e \<Longrightarrow> jobs_ok X (env n e)"
  shows "\<exists>r. fst (handle_set_custom_mining_job X env scmj token e) = Reply r \<and>
    r \<noteq> ScmjError ScmjJobNotYetValidated"
proof (cases "scmj_consume env token e")
  case (Pair c e1)
  show ?thesis
  proof (cases c)
    case (Ok job)
    with Pair obtain rid where "dm_get (declared_jobs (env 1 (remove_token token (env 0 e)))) rid = Some job"
      using scmj_consume_Ok_iff [of env token e job] by auto
    then have job: "job_ok X job"
      using assms(1,3) jobs_ok_remove_token jobs_okD by metis
    show ?thesis
      using cross_checks_job_ok [OF job assms(2)] proposal_job_ok [OF job, of env scmj e1] Pair Ok
      by (cases "scmj_cross_checks X job scmj"; cases "fst (scmj_proposal X env job scmj e1)")
        (auto simp: handle_set_custom_mining_job_def scmj_return_def scmj_finish_def)
  next
    case (Err er)
    have "er \<noteq> ScmjJobNotYetValidated"
    proof
      assume nv: "er = ScmjJobNotYetValidated"
      with Pair Err obtain rid job where
        "dm_get (declared_jobs (env 1 (remove_token token (env 0 e)))) rid = Some job" "\<not> job_validated job"
        by (auto simp: scmj_consume_def Let_def jobs_remove_def split: option.splits if_splits)
      moreover have "jobs_ok X (env 1 (remove_token token (env 0 e)))"
        using assms(1,3) jobs_ok_remove_token by metis
      ultimately show False using jobs_okD unfolding job_ok_def by blast
    qed
    with Pair Err show ?thesis by (simp add: handle_set_custom_mining_job_def scmj_return_def)
  next
    case Panic
    with Pair show ?thesis using scmj_consume_no_Panic [of env token e] by simp
  qed
qed

definition sample_engine :: engine where
  "sample_engine = engine_default\<lparr>declared_jobs := [(1, sample_job)], allocated_tokens := [(42, 1)]\<rparr>"

lemma sample_engine_ok: "jobs_ok sample_ext sample_engine"
  by (simp add: jobs_ok_def sample_engine_def dm_wf_def job_ok_def sample_job_def sample_zero_coinbase
      sample_coinbase_def)

theorem scmj_total_witness:
  "\<exists>r. fst (handle_set_custom_mining_job sample_ext quiet sample_scmj 42 sample_engine) = Reply r"
  using scmj_total [OF sample_engine_ok, of sample_scmj quiet 42]
  by (auto simp: scmj_typed_def sample_scmj_def)

section \<open>Which error is reported\<close>

definition scmj_check_list ::
  "externals \<Rightarrow> declared_job \<Rightarrow> set_custom_mining_job \<Rightarrow> transaction \<Rightarrow> txid list \<Rightarrow> (bool \<times> scmj_error) list" where
  "scmj_check_list X job scmj tx ids =
     [(tip_was_captured job \<longrightarrow> scmj_prev_hash scmj = tip_prev_hash (job_tip job), ScmjStaleChainTip),
      (tip_was_captured job \<longrightarrow> scmj_nbits scmj = tip_nbits (job_tip job), ScmjInvalidNbits),
      (scmj_version scmj = job_version job, ScmjInvalidVersion),
      (tx_version tx = scmj_coinbase_tx_version scmj, ScmjInvalidCoinbaseTxVersion),
      (starts_with (script_sig (hd (tx_input tx))) (scmj_coinbase_prefix scmj), ScmjInvalidCoinbasePrefix),
      (sequence (hd (tx_input tx)) = scmj_coinbase_tx_input_n_sequence scmj, ScmjInvalidCoinbaseTxInputNSequence),
      (serialize_txouts X (tx_output tx) = scmj_coinbase_tx_outputs scmj, ScmjInvalidCoinbaseTxOutputs),
      (lock_time tx = scmj_coinbase_tx_locktime scmj, ScmjInvalidCoinbaseTxLocktime),
      (merkle_path X (compute_txid X tx) ids = scmj_merkle_path scmj, ScmjInvalidMerklePath)]"

definition first_failure :: "(bool \<times> scmj_error) list \<Rightarrow> unit scmj_check" where
  "first_failure cs = (case List.find (\<lambda>c. \<not> fst c) cs of None \<Rightarrow> Ok () | Some c \<Rightarrow> Err (snd c))"

lemma first_failure_simps [simp]:
  "first_failure [] = Ok ()"
  "first_failure ((b, c) # cs) = (if b then first_failure cs else Err c)"
  by (simp_all add: first_failure_def)

lemma first_failure_append:
  "first_failure (xs @ ys) = rbind (first_failure xs) (\<lambda>_. first_failure ys)"
  by (induction xs) auto

text \<open>
  C23: for a job that \<open>DeclareMiningJob\<close> admitted, the cross-checks report the error code of the
  first of the nine conditions, in the documented order, that fails, and succeed when none does.
\<close>

theorem scmj_first_failure:
  assumes "job_ok X job" and "scmj_typed scmj"
    and "reconstruct_coinbase X (job_coinbase_tx_prefix job) (job_coinbase_tx_suffix job) = Ok tx"
    and "job_txid_list job = Some ids"
  shows "scmj_cross_checks X job scmj =
    (case List.find (\<lambda>c. \<not> fst c) (scmj_check_list X job scmj tx ids) of
       None \<Rightarrow> Ok ()
     | Some c \<Rightarrow> Err (snd c))"
proof -
  obtain inp where inp: "tx_input tx = [inp]"
    using job_ok_coinbase [OF assms(1)] assms(3) by (metis result.inject(1))
  have path: "decode_u256s (scmj_merkle_path scmj) = Ok (scmj_merkle_path scmj)"
    using assms(2) by (simp add: decode_u256s_Ok_iff scmj_typed_def list_all_iff)
  let ?cs = "scmj_check_list X job scmj tx ids"
  have tip: "scmj_check_tip job scmj = first_failure (take 2 ?cs)"
    using assms(2) by (auto simp: scmj_check_tip_def scmj_check_list_def to_array32_def scmj_typed_def)
  have ver: "scmj_check_version job scmj = first_failure (take 1 (drop 2 ?cs))"
    by (simp add: scmj_check_version_def scmj_check_list_def)
  have cb: "scmj_check_coinbase X job scmj = rbind (first_failure (take 5 (drop 3 ?cs))) (\<lambda>_. Ok tx)"
    by (simp add: scmj_check_coinbase_def scmj_check_list_def assms(3) inp)
  have mp: "scmj_check_merkle_path X job scmj tx = first_failure (drop 8 ?cs)"
    by (simp add: scmj_check_merkle_path_def scmj_check_list_def assms(4) path)
  have "?cs = take 2 ?cs @ take 1 (drop 2 ?cs) @ take 5 (drop 3 ?cs) @ drop 8 ?cs"
    by (simp add: scmj_check_list_def)
  then have "first_failure ?cs = first_failure (take 2 ?cs @ take 1 (drop 2 ?cs) @ take 5 (drop 3 ?cs) @ drop 8 ?cs)"
    by simp
  also have "\<dots> = scmj_cross_checks X job scmj"
    by (cases "first_failure (take 5 (drop 3 ?cs))")
      (simp_all only: first_failure_append scmj_cross_checks_def tip ver cb mp rbind.simps)
  finally show ?thesis by (simp add: first_failure_def)
qed

theorem scmj_first_failure_witness:
  "scmj_cross_checks sample_ext sample_job (sample_scmj\<lparr>scmj_nbits := 18, scmj_version := 0\<rparr>) = Err ScmjInvalidNbits"
proof -
  have ok: "job_ok sample_ext sample_job"
    using sample_engine_ok by (simp add: jobs_ok_def sample_engine_def)
  have cb: "reconstruct_coinbase sample_ext (job_coinbase_tx_prefix sample_job) (job_coinbase_tx_suffix sample_job) =
      Ok (sample_coinbase [7, 0, 0])"
    by (simp add: sample_job_def sample_zero_coinbase)
  have ids: "job_txid_list sample_job = Some []" by (simp add: sample_job_def)
  show ?thesis
    using scmj_first_failure [OF ok _ cb ids, of "sample_scmj\<lparr>scmj_nbits := 18, scmj_version := 0\<rparr>"]
    by (simp add: scmj_check_list_def scmj_typed_def sample_scmj_def sample_job_def tip_was_captured_def)
qed

section \<open>A declared job can be used\<close>

lemma branch_loop_width:
  "hash_width X \<Longrightarrow> list_all (\<lambda>h. length h = 32) hs \<Longrightarrow> list_all (\<lambda>h. length h = 32) (merkle_branch_loop X hs [])"
proof (induction X hs rule: merkle_root_loop.induct)
  case (1 X hs)
  have "list_all (\<lambda>h. length h = 32) (next_level X hs)"
    using 1(2) by (auto simp: next_level_def merkle_hash_def hash_width_def list_all_iff)
  with 1 show ?case
    by (auto simp: merkle_branch_loop_unfold [of X hs] list_all_iff)
qed

definition honest_scmj :: "externals \<Rightarrow> declared_job \<Rightarrow> transaction \<Rightarrow> txid list \<Rightarrow> nat \<Rightarrow> u32 \<Rightarrow> set_custom_mining_job" where
  "honest_scmj X job tx ids n ntime =
     \<lparr>scmj_version = job_version job, scmj_prev_hash = tip_prev_hash (job_tip job), scmj_min_ntime = ntime,
      scmj_nbits = tip_nbits (job_tip job), scmj_coinbase_tx_version = tx_version tx,
      scmj_coinbase_prefix = take n (script_sig (hd (tx_input tx))),
      scmj_coinbase_tx_input_n_sequence = sequence (hd (tx_input tx)),
      scmj_coinbase_tx_outputs = serialize_txouts X (tx_output tx),
      scmj_coinbase_tx_locktime = lock_time tx,
      scmj_merkle_path = merkle_path X (compute_txid X tx) ids\<rparr>"

lemma honest_matches:
  assumes "hash_width X" "txid_width X" and "list_all (\<lambda>h. length h = 32) ids"
    and "length (tip_prev_hash (job_tip job)) = 32"
    and "reconstruct_coinbase X (job_coinbase_tx_prefix job) (job_coinbase_tx_suffix job) = Ok tx"
    and "length (tx_input tx) = 1" and "job_txid_list job = Some ids"
  shows "scmj_matches X job (honest_scmj X job tx ids n ntime)"
proof -
  have "list_all (\<lambda>h. length h = 32) (merkle_path X (compute_txid X tx) ids)"
    using assms(1-3) by (simp add: merkle_path_loop branch_loop_width txid_width_def)
  moreover obtain inp where "tx_input tx = [inp]" using assms(6) by (auto simp: length_Suc_conv)
  ultimately show ?thesis
    using assms(4,5,7)
    by (auto simp: scmj_matches_def honest_scmj_def coinbase_agrees_def starts_with_def min_def)
qed

text \<open>
  C11: the round trip from declaration to use, in the mode without a block-proposal backend: after a
  successful \<open>DeclareMiningJob\<close> a \<open>SetCustomMiningJob\<close> with the same token that repeats the declared
  version, the tip, the coinbase fields (any prefix of the scriptSig) and the Merkle path of the
  provided transactions succeeds, for every declaration and every state of the engine.
\<close>

theorem declare_scmj_roundtrip:
  assumes "hash_width X" and "txid_width X" and "handles e = None"
    and "handle_declare_mining_job X quiet dmj pmts e = (Reply DeclareSuccess, e')"
    and "decode_token dmj = Some token"
    and "reconstruct_coinbase X (dmj_coinbase_tx_prefix dmj) (dmj_coinbase_tx_suffix dmj) = Ok tx"
  shows "\<exists>job ids. jobs_get (declared_jobs e') (dmj_request_id dmj) = Some job \<and>
    ids = map (compute_txid X) (parse_missing X pmts) \<and>
    fst (handle_set_custom_mining_job X quiet (honest_scmj X job tx ids n ntime) token e') = Reply ScmjSuccess"
proof -
  obtain t ws where ok: "declare_checks X dmj pmts = Ok (t, ws)"
    using assms(4) declare_checks_not_success [of X dmj pmts]
    by (auto simp: handle_declare_mining_job_def declare_return_def split: result.splits)
  then have t: "t = token" and one: "length (tx_input tx) = 1"
    using assms(5,6) by (auto simp: declare_checks_Ok_iff)
  let ?job = "declared_snapshot X dmj token ws (parse_missing X pmts) (capture_tip e) None"
  let ?ids = "map (compute_txid X) (parse_missing X pmts)"
  have e': "e' = bump (declare_counter DeclareSuccess)
      (insert_token token (dmj_request_id dmj) (insert_job (dmj_request_id dmj) ?job e))"
    using assms(3,4) ok t
    by (simp add: handle_declare_mining_job_def declare_return_def Let_def capture_share_chain_tip_def)
  have "scmj_matches X ?job (honest_scmj X ?job tx ?ids n ntime)"
    using assms(1,2,6) one capture_tip_width
    by (intro honest_matches) (auto simp: declared_snapshot_def txid_width_def list_all_iff)
  then have "fst (handle_set_custom_mining_job X quiet (honest_scmj X ?job tx ?ids n ntime) token e') = Reply ScmjSuccess"
    using assms(3)
    by (subst scmj_success_iff_aux)
      (auto simp: e' proposal_passes_def split: option.splits, simp_all add: declared_snapshot_def)
  then show ?thesis by (auto simp: e' jobs_get_def)
qed

theorem declare_scmj_roundtrip_witness:
  "\<exists>job e'. handle_declare_mining_job sample_ext quiet sample_dmj (Some sample_pmts) engine_default =
       (Reply DeclareSuccess, e') \<and>
     fst (handle_set_custom_mining_job sample_ext quiet
       (honest_scmj sample_ext job (sample_coinbase [7, 0, 0]) [] 1 9) 42 e') = Reply ScmjSuccess"
proof -
  obtain e' where run: "handle_declare_mining_job sample_ext quiet sample_dmj (Some sample_pmts) engine_default =
      (Reply DeclareSuccess, e')"
    by (simp add: handle_declare_mining_job_def sample_declare_checks capture_share_chain_tip_def
        engine_default_def engine_new_def Let_def declare_return_def)
  have tok: "decode_token sample_dmj = Some 42"
    by (simp add: decode_token_def sample_dmj_def)
  have cb: "reconstruct_coinbase sample_ext (dmj_coinbase_tx_prefix sample_dmj) (dmj_coinbase_tx_suffix sample_dmj) =
      Ok (sample_coinbase [7, 0, 0])"
    by (simp add: sample_dmj_def sample_zero_coinbase)
  have none: "parse_missing sample_ext (Some sample_pmts) = []"
    by (simp add: parse_missing_def sample_pmts_def map_filter_simps sample_decode_tx_def compact_size_decode_def)
  have h: "handles engine_default = None" by (simp add: engine_default_def engine_new_def)
  show ?thesis
    using declare_scmj_roundtrip [OF sample_ext_laws(2,3) h run tok cb, of 1 9] run none by auto
qed

theorem scmj_one_shot_witness:
  "fst (handle_set_custom_mining_job sample_ext quiet sample_scmj 42
      (snd (handle_set_custom_mining_job sample_ext quiet sample_scmj 42 sample_engine))) =
   Reply (ScmjError ScmjInvalidMiningJobToken)"
  using scmj_one_shot [of 42 quiet _ sample_ext sample_scmj sample_engine quiet sample_scmj] by simp

theorem scmj_consumes_exactly_witness:
  "dm_get (allocated_tokens sample_engine) 42 = Some 1 \<and>
   dm_get (declared_jobs (snd (handle_set_custom_mining_job sample_ext quiet sample_scmj 42 sample_engine))) 1 = None"
  using scmj_consumes_exactly [OF tdp_only_quiet, of sample_ext sample_scmj 42 sample_engine 0 1]
  by (simp add: sample_engine_def)

end
