(* ===== verification/Engine_Push.thy ===== *)
theory Engine_Push
  imports Engine_Scmj
begin

text \<open>
  \<open>handle_push_solution\<close> of \<open>crates/sv2-p2pool-engine/src/engine_impl.rs\<close> and the submission task it
  spawns. \<open>now\<close> is \<open>Instant::now()\<close> at the buffer's \<open>record\<close>. \<open>env 0\<close> runs between
  \<open>find_by_solution\<close> and \<open>get\<close>, \<open>env 2\<close> and \<open>env 3\<close> at the suspension points of
  \<open>request_tx_bodies\<close>.
\<close>

definition le_bytes4 :: "u32 \<Rightarrow> bytes" where
  "le_bytes4 w = [ucast w, ucast (drop_bit 8 w), ucast (drop_bit 16 w), ucast (drop_bit 24 w)]"

definition synthetic_share_hash :: "externals \<Rightarrow> push_solution \<Rightarrow> block_hash" where
  "synthetic_share_hash X ps =
     sha256d X (ps_prev_hash ps @ le_bytes4 (ps_nonce ps) @ le_bytes4 (ps_ntime ps) @ le_bytes4 (ps_version ps))"

definition record_solution :: "instant \<Rightarrow> block_hash \<Rightarrow> block_hash \<Rightarrow> engine \<Rightarrow> engine" where
  "record_solution now share blk e = e\<lparr>recent_sols := rs_record now share blk (recent_sols e)\<rparr>"

definition push_received :: "engine_metrics \<Rightarrow> engine_metrics" where
  "push_received m = m\<lparr>push_solution_received := push_solution_received m + 1\<rparr>"

definition push_drop :: "push_solution_drop_reason \<Rightarrow> engine \<Rightarrow> unit handled \<times> engine" where
  "push_drop reason e = (Reply (), bump (record_push_solution_drop reason) e)"

definition push_no_tdp :: "instant \<Rightarrow> block_hash \<Rightarrow> engine \<Rightarrow> unit handled \<times> engine" where
  "push_no_tdp now share e = push_drop NoHandles (record_solution now share share e)"

definition push_no_template :: "instant \<Rightarrow> block_hash \<Rightarrow> engine \<Rightarrow> unit handled \<times> engine" where
  "push_no_template now share e = push_drop NoTemplateId (record_solution now share share e)"

definition push_submit :: "block \<Rightarrow> engine \<Rightarrow> engine" where
  "push_submit blk e =
     (case handles e of
        Some _ \<Rightarrow>
          (bump (\<lambda>m. m\<lparr>blocks_submitted := blocks_submitted m + 1\<rparr>) e)\<lparr>submit_queue := submit_queue e @ [blk]\<rparr>
      | None \<Rightarrow> e)"

text \<open>
  The payout lookup of the handler only feeds its log line.
\<close>

definition push_payout_script :: "declared_job \<Rightarrow> engine \<Rightarrow> script option" where
  "push_payout_script declared e =
     (case job_allocated_token declared of
        Some token \<Rightarrow> lookup_payout_script e token
      | None \<Rightarrow> None)"

definition push_block ::
  "externals \<Rightarrow> env \<Rightarrow> instant \<Rightarrow> push_solution \<Rightarrow> block_hash \<Rightarrow> declared_job \<Rightarrow> u64 \<Rightarrow> engine \<Rightarrow>
     unit handled \<times> engine" where
  "push_block X env now ps share declared template_id e =
     (case engine_request_tx_bodies X (env_from 2 env) template_id e of
        (Err _, e1) \<Rightarrow> push_drop TdpFetchFailed e1
      | (Panic, e1) \<Rightarrow> (Panicked, e1)
      | (Ok tx_bodies, e1) \<Rightarrow>
          (case reconstruct_block X declared ps tx_bodies of
             Err _ \<Rightarrow> push_drop ReconstructFailed e1
           | Panic \<Rightarrow> (Panicked, e1)
           | Ok blk \<Rightarrow>
               let hash = header_hash X (blk_header blk);
                   payout_script = push_payout_script declared e1;
                   e2 = record_solution now share hash e1
               in (Reply (), push_submit blk e2)))"

definition push_lookup ::
  "externals \<Rightarrow> env \<Rightarrow> push_solution \<Rightarrow> block_hash \<Rightarrow> engine \<Rightarrow>
     (push_solution_drop_reason, declared_job) result \<times> engine" where
  "push_lookup X env ps prev e =
     (case find_by_solution X (declared_jobs e) prev (ps_nbits ps) (ps_version ps) of
        None \<Rightarrow> (Err NoMatchingJob, e)
      | Some request_id \<Rightarrow>
          let e1 = env 0 e
          in (case jobs_get (declared_jobs e1) request_id of
                None \<Rightarrow> (Err CacheRace, e1)
              | Some declared \<Rightarrow> (Ok declared, e1)))"

definition handle_push_solution ::
  "externals \<Rightarrow> env \<Rightarrow> instant \<Rightarrow> push_solution \<Rightarrow> engine \<Rightarrow> unit handled \<times> engine" where
  "handle_push_solution X env now ps e0 =
     (let e = bump push_received e0;
          share = synthetic_share_hash X ps
      in case tdp e of
           None \<Rightarrow> push_no_tdp now share e
         | Some _ \<Rightarrow>
             (case to_array32 (ps_prev_hash ps) of
                None \<Rightarrow> (Reply (), e)
              | Some prev \<Rightarrow>
                  (case push_lookup X env ps prev e of
                     (Err reason, e1) \<Rightarrow> push_drop reason e1
                   | (Panic, e1) \<Rightarrow> (Panicked, e1)
                   | (Ok declared, e1) \<Rightarrow>
                       (case job_template_id declared of
                          None \<Rightarrow> push_no_template now share e1
                        | Some template_id \<Rightarrow>
                            push_block X env now ps share declared template_id e1))))"

text \<open>
  The spawned submission: bitcoind answers \<open>null\<close> on acceptance, a reason string on rejection.
\<close>

definition submit_accepted :: "string + string \<Rightarrow> bool" where
  "submit_accepted reply = (reply = Inr ''null'')"

definition submit_task :: "engine_handles \<Rightarrow> block \<Rightarrow> engine \<Rightarrow> engine" where
  "submit_task h blk e =
     (if submit_accepted (hnd_submit_block h blk) then e
      else bump (\<lambda>m. m\<lparr>blocks_submit_failed := blocks_submit_failed m + 1\<rparr>) e)"

definition run_submit :: "engine \<Rightarrow> engine" where
  "run_submit e =
     (case (submit_queue e, handles e) of
        (blk # rest, Some h) \<Rightarrow> submit_task h blk (e\<lparr>submit_queue := rest\<rparr>)
      | _ \<Rightarrow> e)"

section \<open>Lemmas\<close>

lemma record_solution_fields [simp, engine_simps]:
  "declared_jobs (record_solution n s b e) = declared_jobs e"
  "allocated_tokens (record_solution n s b e) = allocated_tokens e"
  "token_payout (record_solution n s b e) = token_payout e"
  "user_identifier_index (record_solution n s b e) = user_identifier_index e"
  "submit_queue (record_solution n s b e) = submit_queue e"
  "handles (record_solution n s b e) = handles e" "tdp (record_solution n s b e) = tdp e"
  "metrics (record_solution n s b e) = metrics e"
  "recent_sols (record_solution n s b e) = rs_record n s b (recent_sols e)"
  by (simp_all add: record_solution_def)

lemma push_submit_fields [simp, engine_simps]:
  "declared_jobs (push_submit b e) = declared_jobs e"
  "allocated_tokens (push_submit b e) = allocated_tokens e"
  "token_payout (push_submit b e) = token_payout e"
  "user_identifier_index (push_submit b e) = user_identifier_index e"
  "recent_sols (push_submit b e) = recent_sols e"
  "submit_queue (push_submit b e) = submit_queue e @ (if handles e = None then [] else [b])"
  by (auto simp: push_submit_def split: option.splits)

lemma push_drop_fields [simp, engine_simps]:
  "declared_jobs (snd (push_drop r e)) = declared_jobs e"
  "allocated_tokens (snd (push_drop r e)) = allocated_tokens e"
  "token_payout (snd (push_drop r e)) = token_payout e"
  "user_identifier_index (snd (push_drop r e)) = user_identifier_index e"
  "recent_sols (snd (push_drop r e)) = recent_sols e"
  "submit_queue (snd (push_drop r e)) = submit_queue e" "fst (push_drop r e) = Reply ()"
  by (simp_all add: push_drop_def)

lemma push_lookup_quiet:
  "push_lookup X quiet ps prev e =
     (case find_by_solution X (declared_jobs e) prev (ps_nbits ps) (ps_version ps) of
        None \<Rightarrow> (Err NoMatchingJob, e)
      | Some k \<Rightarrow> (Ok (the (dm_get (declared_jobs e) k)), e))"
  by (auto simp: push_lookup_def Let_def jobs_get_def dest: find_by_solution_Some split: option.splits)

lemma push_lookup_tdp_only:
  assumes "tdp_only env"
  shows "push_lookup X env ps prev e =
     (case find_by_solution X (declared_jobs e) prev (ps_nbits ps) (ps_version ps) of
        None \<Rightarrow> (Err NoMatchingJob, e)
      | Some k \<Rightarrow> (Ok (the (dm_get (declared_jobs e) k)), env 0 e))"
  by (auto simp: push_lookup_def Let_def jobs_get_def tdp_only_fields [OF assms]
      dest: find_by_solution_Some split: option.splits)

text \<open>
  \<open>push_reconstructs\<close> is the handler's way to a block: the job it finds, the transactions it is
  given for the job's template and the block it assembles from them.
\<close>

definition push_reconstructs :: "externals \<Rightarrow> env \<Rightarrow> push_solution \<Rightarrow> engine \<Rightarrow> block \<Rightarrow> bool" where
  "push_reconstructs X env ps e blk \<longleftrightarrow>
     tdp e \<noteq> None \<and> length (ps_prev_hash ps) = 32 \<and>
     (\<exists>rid job tid bodies.
        find_by_solution X (declared_jobs e) (ps_prev_hash ps) (ps_nbits ps) (ps_version ps) = Some rid \<and>
        jobs_get (declared_jobs e) rid = Some job \<and> job_template_id job = Some tid \<and>
        fst (engine_request_tx_bodies X (env_from 2 env) tid (env 0 (bump push_received e))) = Ok bodies \<and>
        reconstruct_block X job ps bodies = Ok blk)"

lemma push_block_queue:
  assumes "tdp_only env"
  shows "submit_queue (snd (push_block X env now ps share job tid e)) = submit_queue e @
     (case fst (engine_request_tx_bodies X (env_from 2 env) tid e) of
        Ok bodies \<Rightarrow> (case reconstruct_block X job ps bodies of
            Ok blk \<Rightarrow> if handles e = None then [] else [blk] | _ \<Rightarrow> [])
      | _ \<Rightarrow> [])"
proof -
  obtain r e1 where req: "engine_request_tx_bodies X (env_from 2 env) tid e = (r, e1)" by force
  note same = request_tdp_only [OF req tdp_only_shift [OF assms]]
  show ?thesis
    using same
    by (cases r) (auto simp: push_block_def req Let_def split: result.splits)
qed

lemma push_block_credit:
  assumes "engine_request_tx_bodies X (env_from 2 env) tid e = (Ok bodies, e1)"
    and "reconstruct_block X job ps bodies = Ok blk"
  shows "recent_sols (snd (push_block X env now ps share job tid e)) =
     rs_record now share (header_hash X (blk_header blk)) (recent_sols e1)"
  by (simp add: push_block_def assms Let_def)

lemma push_queue_grows:
  assumes "tdp_only env"
  shows "submit_queue (snd (handle_push_solution X env now ps e)) = submit_queue e @ bs \<longleftrightarrow>
     (if handles e \<noteq> None \<and> (\<exists>blk. push_reconstructs X env ps e blk)
      then \<exists>blk. push_reconstructs X env ps e blk \<and> bs = [blk] else bs = [])"
proof (cases "tdp e = None \<or> length (ps_prev_hash ps) \<noteq> 32")
  case True
  then show ?thesis
    by (auto simp: handle_push_solution_def Let_def push_no_tdp_def to_array32_def push_reconstructs_def
        split: option.splits)
next
  case False
  then obtain h where h: "tdp e = Some h" and len: "length (ps_prev_hash ps) = 32" by auto
  let ?e = "bump push_received e"
  let ?find = "find_by_solution X (declared_jobs e) (ps_prev_hash ps) (ps_nbits ps) (ps_version ps)"
  show ?thesis
  proof (cases ?find)
    case None
    then show ?thesis
      by (auto simp: handle_push_solution_def Let_def h len to_array32_def push_lookup_tdp_only [OF assms]
          push_reconstructs_def)
  next
    case (Some rid)
    then obtain job where job: "dm_get (declared_jobs e) rid = Some job"
      using find_by_solution_Some by blast
    show ?thesis
    proof (cases "job_template_id job")
      case None
      with Some job show ?thesis
        by (auto simp: handle_push_solution_def Let_def h len to_array32_def push_lookup_tdp_only [OF assms]
            push_reconstructs_def push_no_template_def jobs_get_def tdp_only_fields [OF assms])
    next
      case tid: (Some tid)
      have q: "submit_queue (snd (handle_push_solution X env now ps e)) =
          submit_queue (snd (push_block X env now ps (synthetic_share_hash X ps) job tid (env 0 ?e)))"
        by (simp add: handle_push_solution_def Let_def h len to_array32_def push_lookup_tdp_only [OF assms]
            Some job tid)
      have hd: "handles (env 0 ?e) = handles e" and sq: "submit_queue (env 0 ?e) = submit_queue e"
        by (simp_all add: tdp_only_fields [OF assms])
      have rec: "push_reconstructs X env ps e blk \<longleftrightarrow>
          (\<exists>bodies. fst (engine_request_tx_bodies X (env_from 2 env) tid (env 0 ?e)) = Ok bodies \<and>
             reconstruct_block X job ps bodies = Ok blk)" for blk
        by (auto simp: push_reconstructs_def h len Some job tid jobs_get_def)
      show ?thesis
        unfolding q push_block_queue [OF assms] hd sq rec
        by (auto split: result.splits)
    qed
  qed
qed

section \<open>Properties\<close>

text \<open>
  C4: a \<open>PushSolution\<close> hands a block to bitcoind exactly when a backend is wired and the handler can
  reconstruct a block: a cached job matches the solution's previous hash, target and version, it has
  a template id, the template provider returns its transactions, and these hash to the declared
  txids. It then submits that one block; in every other case it submits nothing.
\<close>

theorem push_submits_iff:
  assumes "tdp_only env"
  shows "submit_queue (snd (handle_push_solution X env now ps e)) = submit_queue e @ bs \<longleftrightarrow>
    (if handles e \<noteq> None \<and> (\<exists>blk. push_reconstructs X env ps e blk)
     then \<exists>blk. push_reconstructs X env ps e blk \<and> bs = [blk] else bs = [])"
  using push_queue_grows [OF assms] .

section \<open>A responsive template provider\<close>

definition deliver_env :: "u64 \<Rightarrow> tx_data_result \<Rightarrow> env" where
  "deliver_env t r n e =
     (if n = 3 \<and> tdp e \<noteq> None then put_tdp (snd (deliver_response t r (tdp_state e))) e else e)"

lemma tdp_only_deliver_env [simp]: "tdp_only (deliver_env t r)"
  by (auto simp: tdp_only_def deliver_env_def)

lemma fetch_delivered:
  assumes "dm_get (pending_requests (tdp_state e)) t = None" and "\<not> tx_request_closed (tdp_state e)"
  shows "fst (engine_request_tx_bodies X (env_from 2 (deliver_env t r)) t e) = decode_response X t r"
  using assms
  by (auto simp: engine_request_tx_bodies_def request_tx_bodies_def tdp_register_def tdp_send_def
      env_from_def deliver_env_def deliver_response_def poll_oneshot_def finish_wait_def Let_def
      split: prod.splits option.splits)

lemma bump_tdp_state [simp]: "tdp_state (bump f e) = tdp_state e"
  by (simp add: tdp_state_def)

lemma deliver_env_0 [simp]: "deliver_env t r 0 e = e"
  by (simp add: deliver_env_def)

lemma push_queue_delivered:
  assumes "tdp e = Some h" and "handles e \<noteq> None" and "length (ps_prev_hash ps) = 32"
    and "find_by_solution X (declared_jobs e) (ps_prev_hash ps) (ps_nbits ps) (ps_version ps) = Some rid"
    and "jobs_get (declared_jobs e) rid = Some job" and "job_template_id job = Some tid"
    and "dm_get (pending_requests h) tid = None" and "\<not> tx_request_closed h"
    and "decode_response X tid r = Ok bodies" and "reconstruct_block X job ps bodies = Ok blk"
  shows "fst (engine_request_tx_bodies X (env_from 2 (deliver_env tid r)) tid (bump push_received e)) = Ok bodies"
    and "submit_queue (snd (handle_push_solution X (deliver_env tid r) now ps e)) = submit_queue e @ [blk]"
proof -
  show fetch: "fst (engine_request_tx_bodies X (env_from 2 (deliver_env tid r)) tid (bump push_received e)) = Ok bodies"
    using fetch_delivered [of "bump push_received e" tid X r] assms(1,7-9) by (simp add: tdp_state_def)
  have "push_reconstructs X (deliver_env tid r) ps e blk"
    using assms fetch by (auto simp: push_reconstructs_def)
  then show "submit_queue (snd (handle_push_solution X (deliver_env tid r) now ps e)) = submit_queue e @ [blk]"
    unfolding push_queue_grows [OF tdp_only_deliver_env] using assms(2) by auto
qed

text \<open>
  a found block reaches bitcoind and its finder can be credited: when the job that the solution
  matches has its template, no request for that template is in flight, the provider answers with
  transactions that decode and reassemble to a block, and a backend is wired, then the block is
  queued for submission and a share with the solution's share hash that arrives within the buffer's
  TTL takes exactly this block's hash.
\<close>

lemma push_delivers_block:
  assumes "tdp e = Some h" and "handles e \<noteq> None" and "length (ps_prev_hash ps) = 32"
    and "find_by_solution X (declared_jobs e) (ps_prev_hash ps) (ps_nbits ps) (ps_version ps) = Some rid"
    and "jobs_get (declared_jobs e) rid = Some job" and "job_template_id job = Some tid"
    and "dm_get (pending_requests h) tid = None" and "\<not> tx_request_closed h"
    and "decode_response X tid r = Ok bodies" and "reconstruct_block X job ps bodies = Ok blk"
    and "now' \<le> now + rs_ttl (recent_sols e)"
  shows "submit_queue (snd (handle_push_solution X (deliver_env tid r) now ps e)) = submit_queue e @ [blk] \<and>
    fst (rs_take now' (synthetic_share_hash X ps)
      (recent_sols (snd (handle_push_solution X (deliver_env tid r) now ps e)))) =
      Some (header_hash X (blk_header blk))"
proof -
  let ?e = "bump push_received e"
  note delivered = push_queue_delivered [OF assms(1-10)]
  then obtain e1 where req: "engine_request_tx_bodies X (env_from 2 (deliver_env tid r)) tid ?e = (Ok bodies, e1)"
    by (metis prod.collapse)
  have same: "recent_sols e1 = recent_sols e"
    using request_tdp_only [OF req tdp_only_shift [OF tdp_only_deliver_env]] by simp
  have "recent_sols (snd (handle_push_solution X (deliver_env tid r) now ps e)) =
      rs_record now (synthetic_share_hash X ps) (header_hash X (blk_header blk)) (recent_sols e)"
    using push_block_credit [OF req assms(10), of now "synthetic_share_hash X ps"] assms(1,3-6) same
    by (simp add: handle_push_solution_def Let_def to_array32_def
        push_lookup_tdp_only [OF tdp_only_deliver_env] jobs_get_def)
  then have credit: "fst (rs_take now' (synthetic_share_hash X ps)
      (recent_sols (snd (handle_push_solution X (deliver_env tid r) now ps e)))) =
      Some (header_hash X (blk_header blk))"
    using assms(11) by (simp add: fst_rs_take rs_record_def)
  from delivered(2) credit show ?thesis ..
qed

definition sample_handles :: engine_handles where
  "sample_handles =
     \<lparr>hnd_chain = mock_reader mock_new, hnd_validate_block_proposal = (\<lambda>_. Inr Accepted),
      hnd_submit_block = (\<lambda>_. Inr ''null'')\<rparr>"

definition live_engine :: engine where
  "live_engine = sample_engine\<lparr>tdp := Some tdp_new, handles := Some sample_handles\<rparr>"

lemma live_find:
  "find_by_solution sample_ext (declared_jobs live_engine) (ps_prev_hash sample_solution)
     (ps_nbits sample_solution) (ps_version sample_solution) = Some 1"
  by (simp add: find_by_solution_def job_matches_def live_engine_def sample_engine_def sample_job_def
      sample_solution_def)

lemma live_simps:
  "tdp live_engine = Some tdp_new" "handles live_engine = Some sample_handles"
  "jobs_get (declared_jobs live_engine) 1 = Some sample_job"
  "job_template_id sample_job = Some 4" "length (ps_prev_hash sample_solution) = 32"
  "dm_get (pending_requests tdp_new) t = None" "\<not> tx_request_closed tdp_new"
  "recent_sols live_engine = rs_new default_recent_solutions_ttl"
  "submit_queue live_engine = []"
  by (simp_all add: live_engine_def sample_engine_def sample_job_def sample_solution_def jobs_get_def
      tdp_new_def engine_default_def engine_new_def)

theorem push_delivers_block_witness:
  "\<exists>blk. submit_queue (snd (handle_push_solution sample_ext (deliver_env 4 (TxSuccess [])) 100 sample_solution
       live_engine)) = [blk] \<and> txdata blk = [sample_coinbase [7, 8, 9]]"
proof -
  obtain blk where blk: "reconstruct_block sample_ext sample_job sample_solution [] = Ok blk"
    "txdata blk = [sample_coinbase [7, 8, 9]]"
    using sample_block by auto
  have dec: "decode_response sample_ext 4 (TxSuccess []) = Ok []" by (simp add: decode_response_def)
  have "submit_queue (snd (handle_push_solution sample_ext (deliver_env 4 (TxSuccess [])) 100 sample_solution
       live_engine)) = submit_queue live_engine @ [blk]"
    using push_delivers_block [OF live_simps(1) _ live_simps(5) live_find live_simps(3,4,6,7) dec blk(1), of 100 100]
    by (simp add: live_simps)
  with blk(2) show ?thesis by (simp add: live_simps)
qed

theorem push_submits_iff_witness:
  "\<exists>blk. submit_queue (snd (handle_push_solution sample_ext quiet 100 sample_solution live_engine)) = [] \<and>
     \<not> push_reconstructs sample_ext quiet sample_solution live_engine blk"
proof -
  have "fst (engine_request_tx_bodies sample_ext quiet 4 (bump push_received live_engine)) =
      Err (TdpTimeout 4 default_tx_bodies_timeout)"
    by (simp add: engine_request_tx_bodies_def request_tx_bodies_def tdp_state_def live_simps
        tdp_register_def tdp_send_def poll_oneshot_def finish_wait_def Let_def tdp_new_def)
  then have none: "\<not> push_reconstructs sample_ext quiet sample_solution live_engine blk" for blk
    by (auto simp: push_reconstructs_def live_find live_simps)
  then show ?thesis
    using push_submits_iff [OF tdp_only_quiet, of sample_ext 100 sample_solution live_engine "[]"]
    by (simp add: live_simps)
qed

section \<open>Solutions for accepted custom jobs\<close>

lemma scmj_keeps_tdp:
  assumes "tdp_only env" and "tdp e \<noteq> None"
  shows "tdp (snd (handle_set_custom_mining_job X env scmj token e)) \<noteq> None"
proof -
  let ?P = "\<lambda>e. tdp e \<noteq> None"
  have env: "?P e \<Longrightarrow> ?P (env n e)" for n e using tdp_only_fields(9) [OF assms(1)] .
  have start: "?P (snd (scmj_consume env token e))"
    using assms(2) env by (auto simp: scmj_consume_state split: option.splits)
  have proposal: "?P (snd (scmj_proposal X env job scmj e1))" if "?P e1" for job e1
  proof -
    have req: "?P e'" if "engine_request_tx_bodies X (env_from 2 env) t e1 = (r, e')" for t r e'
      using request_keeps [OF that, of ?P] \<open>?P e1\<close> env by (simp add: env_from_def)
    show ?thesis
      using that env
      by (auto simp: scmj_proposal_def scmj_verdict_def dest!: req
          split: option.splits prod.splits result.splits sum.splits proposal_outcome.splits)
  qed
  show ?thesis
    using start proposal
    by (auto simp: handle_set_custom_mining_job_def scmj_return_def scmj_finish_def
        split: prod.splits result.splits)
qed

text \<open>
  C24: \<open>SetCustomMiningJob\<close> takes the declared job out of the cache, accepted or not, and
  \<open>PushSolution\<close> looks for it there: once the custom job has been set, a solution that matches it and
  no other cached job is dropped as \<open>no_matching_job\<close>. No block is submitted and no finder is
  credited.
\<close>

theorem push_after_scmj_dropped:
  assumes "tdp_only env" and "tdp_only env'" and "tdp e \<noteq> None" and "length (ps_prev_hash ps) = 32"
    and "\<And>k job. dm_get (declared_jobs e) k = Some job \<Longrightarrow>
        job_matches (ps_prev_hash ps) (ps_nbits ps) (ps_version ps) job \<Longrightarrow>
        dm_get (allocated_tokens e) token = Some k"
    and "e1 = snd (handle_set_custom_mining_job X env scmj token e)"
  shows "handle_push_solution X env' now ps e1 =
    (Reply (), bump (record_push_solution_drop NoMatchingJob) (bump push_received e1))"
proof -
  have none: "find_by_solution X (declared_jobs e1) (ps_prev_hash ps) (ps_nbits ps) (ps_version ps) = None"
  proof (rule ccontr)
    assume "find_by_solution X (declared_jobs e1) (ps_prev_hash ps) (ps_nbits ps) (ps_version ps) \<noteq> None"
    then obtain k job where k: "dm_get (declared_jobs e1) k = Some job"
      "job_matches (ps_prev_hash ps) (ps_nbits ps) (ps_version ps) job"
      using find_by_solution_Some by blast
    have "dm_get (declared_jobs e) k = Some job"
      using k(1) by (auto simp: assms(6) scmj_state [OF assms(1)] split: option.splits if_splits)
    from assms(5) [OF this k(2)] k(1) show False
      by (simp add: assms(6) scmj_state [OF assms(1)])
  qed
  moreover obtain h where "tdp e1 = Some h"
    using scmj_keeps_tdp [OF assms(1,3), of X scmj token] assms(6) by auto
  ultimately show ?thesis
    by (simp add: handle_push_solution_def Let_def to_array32_def assms(4) push_lookup_tdp_only [OF assms(2)]
        push_drop_def)
qed

lemma sample_scmj_facts:
  "dm_get (allocated_tokens live_engine) 42 = Some 1" "dm_get (declared_jobs live_engine) 1 = Some sample_job"
  "job_validated sample_job" "scmj_matches sample_ext sample_job sample_scmj"
proof -
  show "scmj_matches sample_ext sample_job sample_scmj"
    by (simp add: scmj_matches_def sample_job_def sample_scmj_def sample_zero_coinbase coinbase_agrees_def
        sample_coinbase_def starts_with_def merkle_path_def tip_was_captured_def)
       (simp add: sample_ext_def)
qed (simp_all add: live_engine_def sample_engine_def sample_job_def)

lemma live_scmj_accepted:
  "fst (handle_set_custom_mining_job sample_ext quiet sample_scmj 42 live_engine) = Reply ScmjSuccess"
proof -
  have timeout: "fst (engine_request_tx_bodies sample_ext quiet 4 (remove_job 1 (remove_token 42 live_engine))) =
      Err (TdpTimeout 4 default_tx_bodies_timeout)"
    by (simp add: engine_request_tx_bodies_def request_tx_bodies_def tdp_state_def live_simps
        tdp_register_def tdp_send_def poll_oneshot_def finish_wait_def Let_def tdp_new_def)
  then show ?thesis
    by (subst scmj_success_iff_aux) (simp add: sample_scmj_facts proposal_passes_def live_simps timeout)
qed

theorem push_after_scmj_dropped_witness:
  "fst (handle_set_custom_mining_job sample_ext quiet sample_scmj 42 live_engine) = Reply ScmjSuccess \<and>
   submit_queue (snd (handle_push_solution sample_ext (deliver_env 4 (TxSuccess [])) 100 sample_solution
     (snd (handle_set_custom_mining_job sample_ext quiet sample_scmj 42 live_engine)))) =
   submit_queue (snd (handle_set_custom_mining_job sample_ext quiet sample_scmj 42 live_engine))"
proof -
  have uniq: "dm_get (allocated_tokens live_engine) 42 = Some k"
    if "dm_get (declared_jobs live_engine) k = Some job" for k job
    using that by (auto simp: live_engine_def sample_engine_def split: if_splits)
  show ?thesis
    using push_after_scmj_dropped [OF tdp_only_quiet tdp_only_deliver_env, of live_engine sample_solution 42]
      live_scmj_accepted uniq
    by (simp add: live_simps)
qed

section \<open>Accounting\<close>

text \<open>
  Interference that leaves the counters to the handler (those of other tasks are set aside) and does not
  rewire the engine; it may do anything else, to the cache in particular.
\<close>

definition spares_metrics :: "env \<Rightarrow> bool" where
  "spares_metrics env \<longleftrightarrow> (\<forall>n e. metrics (env n e) = metrics e \<and> handles (env n e) = handles e)"

text \<open>
  What a message runs into: the job it works on, the transactions it gets, the one reason for which it is
  dropped.
\<close>

definition push_finds :: "externals \<Rightarrow> env \<Rightarrow> push_solution \<Rightarrow> engine \<Rightarrow> declared_job option \<Rightarrow> bool" where
  "push_finds X env ps e j \<longleftrightarrow> tdp e \<noteq> None \<and> length (ps_prev_hash ps) = 32 \<and>
     (\<exists>rid. find_by_solution X (declared_jobs e) (ps_prev_hash ps) (ps_nbits ps) (ps_version ps) = Some rid \<and>
        j = jobs_get (declared_jobs (env 0 (bump push_received e))) rid)"

definition push_fetches :: "externals \<Rightarrow> env \<Rightarrow> u64 \<Rightarrow> engine \<Rightarrow> (tdp_error, transaction list) result" where
  "push_fetches X env tid e = fst (engine_request_tx_bodies X (env_from 2 env) tid (env 0 (bump push_received e)))"

definition push_assembles ::
  "externals \<Rightarrow> env \<Rightarrow> push_solution \<Rightarrow> engine \<Rightarrow> (block_reconstruct_error, block) result \<Rightarrow> bool" where
  "push_assembles X env ps e r \<longleftrightarrow>
     (\<exists>job tid bodies. push_finds X env ps e (Some job) \<and> job_template_id job = Some tid \<and>
        push_fetches X env tid e = Ok bodies \<and> r = reconstruct_block X job ps bodies)"

fun drop_cause :: "externals \<Rightarrow> env \<Rightarrow> push_solution \<Rightarrow> engine \<Rightarrow> push_solution_drop_reason \<Rightarrow> bool" where
  "drop_cause X env ps e NoHandles \<longleftrightarrow> tdp e = None"
| "drop_cause X env ps e NoMatchingJob \<longleftrightarrow> tdp e \<noteq> None \<and> length (ps_prev_hash ps) = 32 \<and>
     find_by_solution X (declared_jobs e) (ps_prev_hash ps) (ps_nbits ps) (ps_version ps) = None"
| "drop_cause X env ps e CacheRace \<longleftrightarrow> push_finds X env ps e None"
| "drop_cause X env ps e NoTemplateId \<longleftrightarrow> (\<exists>job. push_finds X env ps e (Some job) \<and> job_template_id job = None)"
| "drop_cause X env ps e TdpFetchFailed \<longleftrightarrow>
     (\<exists>job tid err. push_finds X env ps e (Some job) \<and> job_template_id job = Some tid \<and> push_fetches X env tid e = Err err)"
| "drop_cause X env ps e ReconstructFailed \<longleftrightarrow> (\<exists>err. push_assembles X env ps e (Err err))"

lemma metrics_push_submit [simp]:
  "metrics (push_submit blk e) = (if handles e = None then metrics e
     else map_option (\<lambda>m. m\<lparr>blocks_submitted := blocks_submitted m + 1\<rparr>) (metrics e))"
  by (auto simp: push_submit_def split: option.splits)

lemma push_received_simps [simp]:
  "push_solution_received (push_received m) = push_solution_received m + 1"
  "push_solution_dropped (push_received m) = push_solution_dropped m"
  "blocks_submitted (push_received m) = blocks_submitted m"
  "push_solution_received (record_push_solution_drop r m) = push_solution_received m"
  "blocks_submitted (record_push_solution_drop r m) = blocks_submitted m"
  by (simp_all add: push_received_def record_push_solution_drop_def)

text \<open>
  The handler after its look-up, by the job it found: the metrics it leaves.
\<close>

lemma metrics_push_block:
  assumes "spares_metrics env" and "metrics e = Some m"
  shows "metrics (snd (push_block X env now ps share job tid e)) = Some
    (case fst (engine_request_tx_bodies X (env_from 2 env) tid e) of
       Err _ \<Rightarrow> record_push_solution_drop TdpFetchFailed m
     | Panic \<Rightarrow> m
     | Ok bodies \<Rightarrow>
         (case reconstruct_block X job ps bodies of
            Err _ \<Rightarrow> record_push_solution_drop ReconstructFailed m
          | Panic \<Rightarrow> m
          | Ok _ \<Rightarrow> if handles e = None then m else m\<lparr>blocks_submitted := blocks_submitted m + 1\<rparr>))"
    and "fst (push_block X env now ps share job tid e) = Panicked \<longleftrightarrow>
      fst (engine_request_tx_bodies X (env_from 2 env) tid e) = Panic \<or>
      (\<exists>bodies. fst (engine_request_tx_bodies X (env_from 2 env) tid e) = Ok bodies \<and> reconstruct_block X job ps bodies = Panic)"
proof -
  obtain r e1 where req: "engine_request_tx_bodies X (env_from 2 env) tid e = (r, e1)" by force
  have "metrics e1 = metrics e" "handles e1 = handles e"
    by (rule fields_request_quiet [OF req]; use assms(1) in \<open>simp add: spares_metrics_def env_from_def\<close>)+
  then show "metrics (snd (push_block X env now ps share job tid e)) = Some
    (case fst (engine_request_tx_bodies X (env_from 2 env) tid e) of
       Err _ \<Rightarrow> record_push_solution_drop TdpFetchFailed m
     | Panic \<Rightarrow> m
     | Ok bodies \<Rightarrow>
         (case reconstruct_block X job ps bodies of
            Err _ \<Rightarrow> record_push_solution_drop ReconstructFailed m
          | Panic \<Rightarrow> m
          | Ok _ \<Rightarrow> if handles e = None then m else m\<lparr>blocks_submitted := blocks_submitted m + 1\<rparr>))"
    using assms(2) by (cases r) (auto simp: push_block_def req Let_def push_drop_def split: result.splits)
  show "fst (push_block X env now ps share job tid e) = Panicked \<longleftrightarrow>
      fst (engine_request_tx_bodies X (env_from 2 env) tid e) = Panic \<or>
      (\<exists>bodies. fst (engine_request_tx_bodies X (env_from 2 env) tid e) = Ok bodies \<and> reconstruct_block X job ps bodies = Panic)"
    by (cases r) (auto simp: push_block_def req Let_def push_drop_def split: result.splits)
qed

text \<open>
  Either nothing is counted, or one drop reason, or the submission.
\<close>

definition counted :: "engine_metrics \<Rightarrow> engine_metrics \<Rightarrow> (push_solution_drop_reason \<Rightarrow> bool) \<Rightarrow> bool \<Rightarrow> bool \<Rightarrow> bool" where
  "counted m m' cause submitted silent \<longleftrightarrow>
     push_solution_received m' = push_solution_received m + 1 \<and>
     (\<forall>r. dropped m' r = dropped m r + (if cause r then 1 else 0)) \<and>
     blocks_submitted m' = blocks_submitted m + (if submitted then 1 else 0) \<and>
     card {r. cause r} + (if submitted then 1 else 0) = (if silent then 0 else 1)"

lemma counted_drop: "(\<And>r'. cause r' \<longleftrightarrow> r' = r) \<Longrightarrow> \<not> submitted \<Longrightarrow> \<not> silent \<Longrightarrow>
  counted m (record_push_solution_drop r (push_received m)) cause submitted silent"
  by (simp add: counted_def)

lemma counted_submit: "(\<And>r'. \<not> cause r') \<Longrightarrow> submitted \<Longrightarrow> \<not> silent \<Longrightarrow>
  counted m ((push_received m)\<lparr>blocks_submitted := blocks_submitted m + 1\<rparr>) cause submitted silent"
  by (simp add: counted_def)

lemma counted_silent: "(\<And>r'. \<not> cause r') \<Longrightarrow> \<not> submitted \<Longrightarrow> silent \<Longrightarrow> counted m (push_received m) cause submitted silent"
  by (simp add: counted_def)

text \<open>
  C26: the counters of \<open>PushSolution\<close>, whatever other tasks do to the cache meanwhile (their own counts set
  aside). Every message is counted as received. Each drop reason goes up by one when its cause applies
  and stays otherwise, a job that vanishes between the two reads of the cache included; submissions go
  up by one when the block was assembled and a backend is wired. Exactly one of these seven counters
  goes up, except in three cases where none does: the handler panics, the previous hash has the wrong
  width, or a block was assembled with no backend wired.
\<close>

theorem push_accounting:
  assumes "spares_metrics env" and "metrics e = Some m"
  shows "\<exists>m'. metrics (snd (handle_push_solution X env now ps e)) = Some m' \<and>
    (let assembled = (\<exists>blk. push_assembles X env ps e (Ok blk));
         submitted = (assembled \<and> handles e \<noteq> None);
         silent = (fst (handle_push_solution X env now ps e) = Panicked \<or> tdp e \<noteq> None \<and> length (ps_prev_hash ps) \<noteq> 32 \<or>
           assembled \<and> handles e = None)
     in push_solution_received m' = push_solution_received m + 1 \<and>
        (\<forall>r. dropped m' r = dropped m r + (if drop_cause X env ps e r then 1 else 0)) \<and>
        blocks_submitted m' = blocks_submitted m + (if submitted then 1 else 0) \<and>
        card {r. drop_cause X env ps e r} + (if submitted then 1 else 0) = (if silent then 0 else 1))"
proof -
  let ?find = "find_by_solution X (declared_jobs e) (ps_prev_hash ps) (ps_nbits ps) (ps_version ps)"
  let ?e = "env 0 (bump push_received e)" and ?run = "handle_push_solution X env now ps e"
  let ?asm = "\<exists>blk. push_assembles X env ps e (Ok blk)"
  have env: "metrics ?e = Some (push_received m)" "handles ?e = handles e"
    using assms by (simp_all add: spares_metrics_def)
  have "\<exists>m'. metrics (snd ?run) = Some m' \<and> counted m m' (drop_cause X env ps e) (?asm \<and> handles e \<noteq> None)
     (fst ?run = Panicked \<or> tdp e \<noteq> None \<and> length (ps_prev_hash ps) \<noteq> 32 \<or> ?asm \<and> handles e = None)"
  proof (cases "tdp e = None \<or> length (ps_prev_hash ps) \<noteq> 32")
    case True
    have cause: "drop_cause X env ps e r \<longleftrightarrow> r = NoHandles \<and> tdp e = None" for r
      using True by (cases r) (auto simp: push_finds_def push_assembles_def)
    have asm: "\<not> ?asm" using True by (auto simp: push_finds_def push_assembles_def)
    show ?thesis
      using True assms(2) cause asm
      by (cases "tdp e") (auto simp: handle_push_solution_def Let_def push_no_tdp_def push_drop_def to_array32_def
          intro!: counted_drop counted_silent)
  next
    case False
    then obtain h where h: "tdp e = Some h" and len: "length (ps_prev_hash ps) = 32" by auto
    note run = handle_push_solution_def Let_def h len to_array32_def push_lookup_def
    show ?thesis
    proof (cases ?find)
      case None
      have "drop_cause X env ps e r \<longleftrightarrow> r = NoMatchingJob" for r
        using None h len by (cases r) (auto simp: push_finds_def push_assembles_def)
      moreover have "\<not> ?asm" using None by (auto simp: push_finds_def push_assembles_def)
      ultimately show ?thesis
        using None assms(2) by (auto simp: run push_drop_def intro!: counted_drop)
    next
      case (Some rid)
      have finds: "push_finds X env ps e j \<longleftrightarrow> j = jobs_get (declared_jobs ?e) rid" for j
        using Some h len by (auto simp: push_finds_def)
      show ?thesis
      proof (cases "jobs_get (declared_jobs ?e) rid")
        case None
        have "drop_cause X env ps e r \<longleftrightarrow> r = CacheRace" for r
          using None Some h by (cases r) (auto simp: finds push_assembles_def)
        moreover have "\<not> ?asm" using None by (auto simp: finds push_assembles_def)
        ultimately show ?thesis
          using None Some env by (auto simp: run push_drop_def intro!: counted_drop)
      next
        case job: (Some job)
        show ?thesis
        proof (cases "job_template_id job")
          case None
          have "drop_cause X env ps e r \<longleftrightarrow> r = NoTemplateId" for r
            using None Some job h by (cases r) (auto simp: finds push_assembles_def)
          moreover have "\<not> ?asm" using None job by (auto simp: finds push_assembles_def)
          ultimately show ?thesis
            using None Some job env by (auto simp: run push_drop_def push_no_template_def intro!: counted_drop)
        next
          case tid: (Some tid)
          have eq: "?run = push_block X env now ps (synthetic_share_hash X ps) job tid ?e"
            using Some job tid by (simp add: run)
          have asm: "push_assembles X env ps e r \<longleftrightarrow> (\<exists>bodies. push_fetches X env tid e = Ok bodies \<and>
              r = reconstruct_block X job ps bodies)" for r
            using job tid by (auto simp: finds push_assembles_def)
          have cause: "drop_cause X env ps e r \<longleftrightarrow>
              r = TdpFetchFailed \<and> (\<exists>err. push_fetches X env tid e = Err err) \<or>
              r = ReconstructFailed \<and> (\<exists>err. push_assembles X env ps e (Err err))" for r
            using Some job tid h by (cases r) (auto simp: finds)
          note blk = metrics_push_block [OF assms(1) env(1), folded push_fetches_def, where job = job and tid = tid]
          show ?thesis
            unfolding eq
            using len
            by (cases "push_fetches X env tid e"; cases "handles e = None")
              (auto simp: blk cause asm env(2) simp del: drop_cause.simps
                intro!: counted_drop counted_submit counted_silent split: result.splits)
        qed
      qed
    qed
  qed
  then show ?thesis by (simp add: counted_def Let_def)
qed

text \<open>
  The witness: the cached job is flushed between the two reads.
\<close>

definition flush_between :: env where
  "flush_between n e = (if n = 0 then e\<lparr>declared_jobs := dm_empty\<rparr> else e)"

theorem push_accounting_witness:
  "\<exists>m'. metrics (snd (handle_push_solution sample_ext flush_between 7 sample_solution
       (live_engine\<lparr>metrics := Some initial_metrics\<rparr>))) = Some m' \<and>
     dropped m' CacheRace = dropped initial_metrics CacheRace + 1 \<and>
     dropped m' NoMatchingJob = dropped initial_metrics NoMatchingJob \<and>
     blocks_submitted m' = blocks_submitted initial_metrics"
proof -
  let ?e = "live_engine\<lparr>metrics := Some initial_metrics\<rparr>"
  have spares: "spares_metrics flush_between" by (simp add: spares_metrics_def flush_between_def)
  have race: "push_finds sample_ext flush_between sample_solution ?e j \<longleftrightarrow> j = None" for j
    using live_find live_simps(1,5) by (auto simp: push_finds_def flush_between_def jobs_get_def)
  then have none: "\<not> (\<exists>blk. push_assembles sample_ext flush_between sample_solution ?e (Ok blk))"
    by (simp add: push_assembles_def)
  obtain m' where m': "metrics (snd (handle_push_solution sample_ext flush_between 7 sample_solution ?e)) = Some m'"
    "\<And>r. dropped m' r = dropped initial_metrics r + (if drop_cause sample_ext flush_between sample_solution ?e r then 1 else 0)"
    "blocks_submitted m' = blocks_submitted initial_metrics"
    using push_accounting [OF spares, of ?e initial_metrics sample_ext 7 sample_solution] none by (auto simp: Let_def)
  show ?thesis
    using m'(1,3) m'(2) [of CacheRace] m'(2) [of NoMatchingJob] live_find race by simp
qed

text \<open>
  while a request for a template is in flight, every other solution for a job of that template is
  dropped as \<open>tdp_fetch_failed\<close>, whatever the provider answers: requests are not shared between
  callers, so of two solutions found at the same time only the first can reach bitcoind.
\<close>

lemma push_concurrent_dropped:
  assumes "tdp e = Some h" and "length (ps_prev_hash ps) = 32"
    and "find_by_solution X (declared_jobs e) (ps_prev_hash ps) (ps_nbits ps) (ps_version ps) = Some rid"
    and "jobs_get (declared_jobs e) rid = Some job" and "job_template_id job = Some tid"
    and "dm_get (pending_requests h) tid \<noteq> None"
  shows "handle_push_solution X (deliver_env tid r) now ps e =
    (Reply (), bump (record_push_solution_drop TdpFetchFailed) (bump push_received e))"
proof -
  let ?e = "bump push_received e"
  have st: "tdp_state e = h" using assms(1) by (simp add: tdp_state_def)
  obtain i where "dm_get (pending_requests h) tid = Some i" using assms(6) by auto
  then have "tdp_register tid h = (Err (DuplicateRequest tid), h)" by (simp add: tdp_register_def)
  moreover have "put_tdp h ?e = ?e" using assms(1) by (simp add: put_tdp_def bump_def)
  ultimately have "engine_request_tx_bodies X (env_from 2 (deliver_env tid r)) tid ?e =
      (Err (DuplicateRequest tid), ?e)"
    by (simp add: engine_request_tx_bodies_def request_tx_bodies_def st)
  with assms(1-5) show ?thesis
    by (simp add: handle_push_solution_def Let_def to_array32_def jobs_get_def
        push_lookup_tdp_only [OF tdp_only_deliver_env] push_block_def push_drop_def)
qed

theorem push_concurrent_dropped_witness:
  "fst (handle_push_solution sample_ext (deliver_env 4 (TxSuccess [])) 7 sample_solution
     (live_engine\<lparr>tdp := Some (tdp_new\<lparr>pending_requests := [(4, 0)], oneshots := [OWaiting]\<rparr>)\<rparr>)) = Reply ()"
proof -
  let ?h = "tdp_new\<lparr>pending_requests := [(4, 0)], oneshots := [OWaiting]\<rparr>"
  let ?e = "live_engine\<lparr>tdp := Some ?h\<rparr>"
  have "tdp ?e = Some ?h" "declared_jobs ?e = declared_jobs live_engine" by simp_all
  then show ?thesis
    using push_concurrent_dropped [of ?e ?h sample_solution sample_ext 1 sample_job 4 "TxSuccess []" 7]
      live_find live_simps(3,4,5) by simp
qed

end
