(* ===== verification/Engine_Token.thy ===== *)
theory Engine_Token
  imports Engine_State
begin

text \<open>
  \<open>handle_allocate_mining_job_token\<close> and the \<open>TokenPayoutEvictor\<close> of
  \<open>crates/sv2-p2pool-engine/src/engine_impl.rs\<close>: the binding of a job token to a miner's payout
  script and its inverse index. The NFKC normalisation of the \<open>unicode-normalization\<close> crate is the
  parameter \<open>nfkc\<close>; the accounting selector is \<open>hook\<close>, as in \<open>resolve_payout_script\<close>.
\<close>

definition is_ascii_whitespace :: "char \<Rightarrow> bool" where
  "is_ascii_whitespace c = (c \<in> {CHR '' '', CHR 0x09, CHR 0x0A, CHR 0x0C, CHR 0x0D})"

definition trim_ascii :: "string \<Rightarrow> string" where
  "trim_ascii s = rev (dropWhile is_ascii_whitespace (rev (dropWhile is_ascii_whitespace s)))"

definition normalize_user :: "externals \<Rightarrow> string \<Rightarrow> string" where
  "normalize_user X user_identifier = nfkc X (trim_ascii user_identifier)"

definition bound_elsewhere :: "jd_token \<Rightarrow> string \<Rightarrow> engine \<Rightarrow> bool" where
  "bound_elsewhere token user e =
     (case dm_get (user_identifier_index e) user of
        Some existing_token \<Rightarrow> existing_token \<noteq> token
      | None \<Rightarrow> False)"

definition payout_candidate :: "script \<Rightarrow> tx_out" where
  "payout_candidate s = \<lparr>txo_value = 0, script_pubkey = s\<rparr>"

text \<open>
  The two writes of a binding. \<open>env 0\<close> runs after the checks, \<open>env 1\<close> between the writes.
\<close>

definition bind_forward :: "jd_token \<Rightarrow> script \<Rightarrow> engine \<Rightarrow> engine" where
  "bind_forward token s e = e\<lparr>token_payout := dm_insert token s (token_payout e)\<rparr>"

definition bind_inverse :: "string \<Rightarrow> jd_token \<Rightarrow> engine \<Rightarrow> engine" where
  "bind_inverse user token e = e\<lparr>user_identifier_index := dm_insert user token (user_identifier_index e)\<rparr>"

definition handle_allocate_mining_job_token ::
  "externals \<Rightarrow> (string \<Rightarrow> script option) option \<Rightarrow> env \<Rightarrow> jd_token \<Rightarrow> string \<Rightarrow> nat \<Rightarrow> engine \<Rightarrow>
     tx_out option \<times> engine" where
  "handle_allocate_mining_job_token X hook env token user_identifier budget e =
     (let normalized = normalize_user X user_identifier
      in if normalized = [] then (None, e)
         else case resolve_payout_script hook normalized of
           None \<Rightarrow> (None, e)
         | Some s \<Rightarrow>
             if bound_elsewhere token normalized e then (None, e)
             else let candidate = payout_candidate s
                  in if length (serialize_txout X candidate) > budget then (None, e)
                     else (Some candidate,
                           bind_inverse normalized token (env 1 (bind_forward token s (env 0 e)))))"

definition on_allocated_evicted :: "jd_token \<Rightarrow> engine \<Rightarrow> engine" where
  "on_allocated_evicted token e = drop_token_payout token e"

definition on_active_evicted :: "jd_token \<Rightarrow> jd_token \<Rightarrow> engine \<Rightarrow> engine" where
  "on_active_evicted active_token allocated_token e = drop_token_payout allocated_token e"

section \<open>The index invariant\<close>

text \<open>
  Every entry of the inverse index points at a live binding, and every binding has a user.
\<close>

definition index_live :: "engine \<Rightarrow> bool" where
  "index_live e \<longleftrightarrow> dm_wf (token_payout e) \<and> dm_wf (user_identifier_index e) \<and>
     (\<forall>u t. dm_get (user_identifier_index e) u = Some t \<longrightarrow> dm_get (token_payout e) t \<noteq> None)"

definition bindings_indexed :: "engine \<Rightarrow> bool" where
  "bindings_indexed e \<longleftrightarrow>
     (\<forall>t s. dm_get (token_payout e) t = Some s \<longrightarrow> (\<exists>u. dm_get (user_identifier_index e) u = Some t))"

lemma bind_fields [simp, engine_simps]:
  "token_payout (bind_forward t s e) = dm_insert t s (token_payout e)"
  "user_identifier_index (bind_forward t s e) = user_identifier_index e"
  "token_payout (bind_inverse u t e) = token_payout e"
  "user_identifier_index (bind_inverse u t e) = dm_insert u t (user_identifier_index e)"
  "declared_jobs (bind_forward t s e) = declared_jobs e" "declared_jobs (bind_inverse u t e) = declared_jobs e"
  "submit_queue (bind_forward t s e) = submit_queue e" "submit_queue (bind_inverse u t e) = submit_queue e"
  "allocated_tokens (bind_forward t s e) = allocated_tokens e"
  "allocated_tokens (bind_inverse u t e) = allocated_tokens e"
  by (simp_all add: bind_forward_def bind_inverse_def)

lemma drop_token_payout_get:
  assumes "index_live e"
  shows "dm_get (token_payout (drop_token_payout token e)) t =
      (if t = token then None else dm_get (token_payout e) t)"
    and "dm_get (user_identifier_index (drop_token_payout token e)) u =
      (if dm_get (user_identifier_index e) u = Some token then None else dm_get (user_identifier_index e) u)"
  using assms unfolding index_live_def
  by (auto simp: drop_token_payout_def dm_get_retain split: option.splits)
    (metis option.distinct(1))+

lemma drop_wf:
  "index_live e \<Longrightarrow> dm_wf (token_payout (drop_token_payout t e)) \<and> dm_wf (user_identifier_index (drop_token_payout t e))"
  by (auto simp: index_live_def drop_token_payout_def split: option.splits)

lemma index_live_drop: "index_live e \<Longrightarrow> index_live (drop_token_payout token e)"
  using drop_wf [of e token] unfolding index_live_def [of "drop_token_payout token e"]
  by (auto simp: drop_token_payout_get index_live_def split: if_splits)

lemma bindings_indexed_drop:
  "index_live e \<Longrightarrow> bindings_indexed e \<Longrightarrow> bindings_indexed (drop_token_payout token e)"
  unfolding bindings_indexed_def
  by (simp add: drop_token_payout_get) (metis option.inject)

lemma index_live_bind:
  assumes "index_live e"
  shows "index_live (bind_inverse u token (bind_forward token s e))"
  using assms by (auto simp: index_live_def)

lemma index_live_allocate:
  "index_live e \<Longrightarrow> index_live (snd (handle_allocate_mining_job_token X hook quiet token user budget e))"
  by (auto simp: handle_allocate_mining_job_token_def Let_def index_live_bind split: option.splits)

lemma bindings_indexed_allocate:
  assumes "bindings_indexed e"
  shows "bindings_indexed (snd (handle_allocate_mining_job_token X hook quiet token user budget e))"
proof -
  have "bindings_indexed (bind_inverse u token (bind_forward token s e))"
    if free: "\<not> bound_elsewhere token u e" for u s
    unfolding bindings_indexed_def
  proof (intro allI impI)
    fix t s' assume t: "dm_get (token_payout (bind_inverse u token (bind_forward token s e))) t = Some s'"
    show "\<exists>v. dm_get (user_identifier_index (bind_inverse u token (bind_forward token s e))) v = Some t"
    proof (cases "t = token")
      case True
      then show ?thesis by (intro exI [of _ u]) simp
    next
      case False
      with t assms obtain v where v: "dm_get (user_identifier_index e) v = Some t"
        unfolding bindings_indexed_def by auto
      with free False have "v \<noteq> u" by (auto simp: bound_elsewhere_def)
      with v show ?thesis by (intro exI [of _ v]) simp
    qed
  qed
  with assms show ?thesis
    by (auto simp: handle_allocate_mining_job_token_def Let_def split: option.splits)
qed

section \<open>Token events\<close>

datatype token_event = Allocate jd_token string nat | EvictAllocated jd_token | EvictActive jd_token jd_token

fun token_step :: "externals \<Rightarrow> (string \<Rightarrow> script option) option \<Rightarrow> engine \<Rightarrow> token_event \<Rightarrow> engine" where
  "token_step X hook e (Allocate t u n) = snd (handle_allocate_mining_job_token X hook quiet t u n e)"
| "token_step X hook e (EvictAllocated t) = on_allocated_evicted t e"
| "token_step X hook e (EvictActive a t) = on_active_evicted a t e"

definition token_run :: "externals \<Rightarrow> (string \<Rightarrow> script option) option \<Rightarrow> engine \<Rightarrow> token_event list \<Rightarrow> engine" where
  "token_run X hook e evs = foldl (token_step X hook) e evs"

lemma token_step_invs:
  "index_live e \<Longrightarrow> index_live (token_step X hook e ev)"
  "index_live e \<Longrightarrow> bindings_indexed e \<Longrightarrow> bindings_indexed (token_step X hook e ev)"
  by (cases ev; simp add: index_live_allocate index_live_drop bindings_indexed_allocate bindings_indexed_drop
      on_allocated_evicted_def on_active_evicted_def)+

lemma token_run_invs:
  "index_live e \<Longrightarrow> bindings_indexed e \<Longrightarrow> index_live (token_run X hook e evs) \<and> bindings_indexed (token_run X hook e evs)"
  by (induction evs arbitrary: e) (simp_all add: token_run_def token_step_invs)

lemma new_invs: "index_live (engine_new net)" "bindings_indexed (engine_new net)"
  by (simp_all add: index_live_def bindings_indexed_def engine_new_def)

section \<open>Properties\<close>

text \<open>
  C15: over every sequence of allocations and evictions run one after the other from a new engine, the
  payout map and its inverse index stay consistent: each user in the index points at a live binding
  and each binding is indexed by some user, so evicting a token always frees its user.
\<close>

theorem payout_maps_consistent:
  "index_live (token_run X hook (engine_new net) evs) \<and> bindings_indexed (token_run X hook (engine_new net) evs)"
  by (rule token_run_invs [OF new_invs])

text \<open>
  C33: an allocation that no other allocation or eviction interrupts. When it returns an output, the
  output pays zero to the script the selector gave for the normalised user, its serialisation fits the
  budget, the user was not bound to another token, and afterwards exactly that binding is added to the
  payout map and the index, every other entry of both is as before, and nothing else of the engine
  changes; when it returns none, the engine is unchanged, and the user name is empty, the selector has
  no script, the user is bound to another token or the output is too large. (Two allocations for one
  user that interleave can both bind, see \<open>allocation_race\<close>.)
\<close>

theorem allocate_outcome:
  "case handle_allocate_mining_job_token X hook quiet token user budget e of
     (None, e') \<Rightarrow> e' = e \<and>
       (normalize_user X user = [] \<or> resolve_payout_script hook (normalize_user X user) = None \<or>
        (\<exists>t. t \<noteq> token \<and> dm_get (user_identifier_index e) (normalize_user X user) = Some t) \<or>
        (\<exists>s. resolve_payout_script hook (normalize_user X user) = Some s \<and>
           budget < length (serialize_txout X \<lparr>txo_value = 0, script_pubkey = s\<rparr>)))
   | (Some out, e') \<Rightarrow>
       e' = e\<lparr>token_payout := token_payout e', user_identifier_index := user_identifier_index e'\<rparr> \<and>
       txo_value out = 0 \<and> length (serialize_txout X out) \<le> budget \<and>
       normalize_user X user \<noteq> [] \<and>
       resolve_payout_script hook (normalize_user X user) = Some (script_pubkey out) \<and>
       dm_get (user_identifier_index e) (normalize_user X user) \<in> {None, Some token} \<and>
       (\<forall>t. lookup_payout_script e' t = (if t = token then Some (script_pubkey out) else lookup_payout_script e t)) \<and>
       (\<forall>u. dm_get (user_identifier_index e') u =
          (if u = normalize_user X user then Some token else dm_get (user_identifier_index e) u))"
  by (auto simp: handle_allocate_mining_job_token_def Let_def payout_candidate_def lookup_payout_script_def
      bound_elsewhere_def bind_forward_def bind_inverse_def split: option.splits)



text \<open>
  the two writes of a binding are not atomic: when the token is evicted between them, the
  inverse index keeps an entry for a token without binding. No later eviction of that token removes
  it, and every allocation of another token for this user falls back to the pool-wide script.
\<close>

lemma eviction_between_writes:
  assumes "index_live e" and "normalize_user X user \<noteq> []"
    and "resolve_payout_script hook (normalize_user X user) = Some s"
    and "\<not> bound_elsewhere token (normalize_user X user) e"
    and "length (serialize_txout X (payout_candidate s)) \<le> budget"
    and "e' = snd (handle_allocate_mining_job_token X hook
      (\<lambda>n. if n = 1 then on_allocated_evicted token else (\<lambda>e. e)) token user budget e)"
  shows "dm_get (user_identifier_index e') (normalize_user X user) = Some token \<and>
    dm_get (token_payout e') token = None \<and>
    on_allocated_evicted token e' = e' \<and>
    (\<forall>t. t \<noteq> token \<longrightarrow> handle_allocate_mining_job_token X hook env t user budget' e' = (None, e'))"
proof -
  let ?u = "normalize_user X user"
  let ?e1 = "on_allocated_evicted token (bind_forward token s e)"
  have e': "e' = bind_inverse ?u token ?e1"
    using assms(2-6) by (simp add: handle_allocate_mining_job_token_def Let_def)
  have gone: "dm_get (token_payout ?e1) token = None"
    by (auto simp: on_allocated_evicted_def drop_token_payout_def)
  have bound: "dm_get (user_identifier_index e') ?u = Some token" and unbound: "dm_get (token_payout e') token = None"
    using gone by (simp_all add: e')
  moreover have "on_allocated_evicted token e' = e'"
    using unbound by (simp add: on_allocated_evicted_def drop_token_payout_def)
  moreover have "handle_allocate_mining_job_token X hook env t user budget' e' = (None, e')" if "t \<noteq> token" for t
    using that bound assms(2,3)
    by (simp add: handle_allocate_mining_job_token_def Let_def bound_elsewhere_def)
  ultimately show ?thesis by blast
qed

theorem eviction_between_writes_witness:
  "dm_get (user_identifier_index (snd (handle_allocate_mining_job_token sample_ext (Some (\<lambda>_. Some [1]))
     (\<lambda>n. if n = 1 then on_allocated_evicted 5 else (\<lambda>e. e)) 5 ''bob'' 100 engine_default))) ''bob'' = Some 5"
proof -
  have n: "normalize_user sample_ext ''bob'' = ''bob''"
    by (simp add: normalize_user_def trim_ascii_def is_ascii_whitespace_def)
  have live: "index_live engine_default" using new_invs(1) by (simp add: engine_default_def)
  have sz: "length (serialize_txout sample_ext (payout_candidate [1])) \<le> 100"
    by (simp add: payout_candidate_def sample_ext_def)
  have free: "\<not> bound_elsewhere 5 ''bob'' engine_default"
    by (simp add: bound_elsewhere_def engine_default_def engine_new_def)
  show ?thesis
    using eviction_between_writes [OF live, of sample_ext "''bob''" "Some (\<lambda>_. Some [1])" "[1]" 5 100] n sz free
    by (simp add: resolve_payout_script_def)
qed

end
