(* ===== verification/Chain_Walk.thy ===== *)
theory Chain_Walk
  imports Share_Chain_Reader
begin

text \<open>
  The ancestry walk of \<open>notify_share_chain_reorg\<close> (\<open>crates/sv2-p2pool-engine/src/engine_impl.rs\<close>)
  over the share-chain reader, and its reading in terms of parents: \<open>nth_parent lookup k h\<close> is the
  share reached from \<open>h\<close> by \<open>k\<close> parent links.
\<close>

definition reorg_ancestry_depth :: nat where
  "reorg_ancestry_depth = 100"

datatype walk = Walked "block_hash list" | WalkFailed | WalkPanicked

fun ancestry_walk ::
  "(block_hash \<Rightarrow> share_header_lookup ipc_result) \<Rightarrow> nat \<Rightarrow> block_hash \<Rightarrow> block_hash list \<Rightarrow> walk" where
  "ancestry_walk lookup 0 cursor ancestors = Walked ancestors"
| "ancestry_walk lookup (Suc n) cursor ancestors =
     (case lookup cursor of
        Ok (Found hdr) \<Rightarrow>
          (case prev_share_blockhash hdr of
             Some prev \<Rightarrow> ancestry_walk lookup n prev (prev # ancestors)
           | None \<Rightarrow> Walked ancestors)
      | Ok Genesis \<Rightarrow> Walked ancestors
      | Ok NotFound \<Rightarrow> WalkFailed
      | Err e \<Rightarrow> WalkFailed
      | Panic \<Rightarrow> WalkPanicked)"

definition parent :: "(block_hash \<Rightarrow> share_header_lookup ipc_result) \<Rightarrow> block_hash \<Rightarrow> block_hash option" where
  "parent lookup h = (case lookup h of Ok (Found hdr) \<Rightarrow> prev_share_blockhash hdr | _ \<Rightarrow> None)"

fun nth_parent ::
  "(block_hash \<Rightarrow> share_header_lookup ipc_result) \<Rightarrow> nat \<Rightarrow> block_hash \<Rightarrow> block_hash option" where
  "nth_parent lookup 0 h = Some h"
| "nth_parent lookup (Suc k) h =
     (case parent lookup h of Some p \<Rightarrow> nth_parent lookup k p | None \<Rightarrow> None)"

definition readable :: "(block_hash \<Rightarrow> share_header_lookup ipc_result) \<Rightarrow> block_hash \<Rightarrow> bool" where
  "readable lookup h = (case lookup h of Ok (Found _) \<Rightarrow> True | Ok Genesis \<Rightarrow> True | _ \<Rightarrow> False)"

lemma ancestry_walk_Walked:
  "ancestry_walk lookup n c anc = Walked as \<Longrightarrow>
   set as = set anc \<union> {h. \<exists>k. 1 \<le> k \<and> k \<le> n \<and> nth_parent lookup k c = Some h}"
proof (induction lookup n c anc rule: ancestry_walk.induct)
  case (1 lookup c anc)
  then show ?case by auto
next
  case (2 lookup n c anc)
  show ?case
  proof (cases "parent lookup c")
    case None
    then have "as = anc" using 2(2)
      by (auto simp: parent_def split: result.splits share_header_lookup.splits option.splits)
    moreover have "nth_parent lookup k c = None" if "1 \<le> k" for k
      using that None by (cases k) auto
    ultimately show ?thesis by auto
  next
    case (Some p)
    then obtain hdr where hdr: "lookup c = Ok (Found hdr)" "prev_share_blockhash hdr = Some p"
      by (auto simp: parent_def split: result.splits share_header_lookup.splits)
    from 2 hdr have IH: "set as = set (p # anc) \<union> {h. \<exists>k. 1 \<le> k \<and> k \<le> n \<and> nth_parent lookup k p = Some h}"
      by simp
    have "{h. \<exists>k. 1 \<le> k \<and> k \<le> Suc n \<and> nth_parent lookup k c = Some h} =
        {h. \<exists>k \<le> n. nth_parent lookup k p = Some h}"
      using Some by (auto simp: gr0_conv_Suc Suc_le_eq intro: exI [of _ "Suc _"])
    also have "\<dots> = {p} \<union> {h. \<exists>k. 1 \<le> k \<and> k \<le> n \<and> nth_parent lookup k p = Some h}"
      by (auto simp: Suc_le_eq) (metis bot_nat_0.not_eq_extremum nth_parent.simps(1) option.inject)
    finally show ?thesis using IH by auto
  qed
qed

lemma ancestry_walk_complete:
  "(\<exists>as. ancestry_walk lookup n c anc = Walked as) \<longleftrightarrow>
   (\<forall>k < n. \<forall>h. nth_parent lookup k c = Some h \<longrightarrow> readable lookup h)"
proof (induction lookup n c anc rule: ancestry_walk.induct)
  case (1 lookup c anc)
  then show ?case by simp
next
  case (2 lookup n c anc)
  have split: "(\<forall>k < Suc n. \<forall>h. nth_parent lookup k c = Some h \<longrightarrow> readable lookup h) \<longleftrightarrow>
      readable lookup c \<and> (\<forall>k < n. \<forall>h. nth_parent lookup (Suc k) c = Some h \<longrightarrow> readable lookup h)"
    by (auto simp: less_Suc_eq_0_disj)
  show ?case
  proof (cases "parent lookup c")
    case None
    then show ?thesis unfolding split
      by (auto simp: parent_def readable_def split: result.splits share_header_lookup.splits option.splits)
  next
    case (Some p)
    then obtain hdr where hdr: "lookup c = Ok (Found hdr)" "prev_share_blockhash hdr = Some p"
      by (auto simp: parent_def split: result.splits share_header_lookup.splits)
    with 2 Some show ?thesis unfolding split by (simp add: readable_def)
  qed
qed

lemma ancestry_walk_from:
  assumes "ancestry_walk lookup n c [c] = Walked as"
  shows "h \<in> set as \<longleftrightarrow> (\<exists>k \<le> n. nth_parent lookup k c = Some h)"
  using ancestry_walk_Walked [OF assms]
  by (auto simp: Suc_le_eq) (metis bot_nat_0.not_eq_extremum nth_parent.simps(1) option.inject)+

context share_reader
begin

lemma nth_parent_not_sentinel: "nth_parent lookup (Suc k) h = Some p \<Longrightarrow> \<not> is_zero_hash p"
proof (induction k arbitrary: h)
  case 0
  then show ?case
    using parent_not_sentinel
    by (auto simp: parent_def split: option.splits result.splits share_header_lookup.splits)
next
  case (Suc k)
  then show ?case by (auto split: option.splits)
qed

lemma walk_avoids_sentinel:
  assumes "ancestry_walk lookup n c [c] = Walked as" and "\<not> is_zero_hash c" and "h \<in> set as"
  shows "\<not> is_zero_hash h"
proof -
  from assms obtain k where "nth_parent lookup k c = Some h"
    using ancestry_walk_from [OF assms(1)] by blast
  then show ?thesis using assms(2) nth_parent_not_sentinel by (cases k) auto
qed

end

end
