(* ===== verification/Engine_Reorg.thy ===== *)
theory Engine_Reorg
  imports Engine_State Reorg_Detector Chain_Walk
begin

text \<open>
  \<open>notify_share_chain_reorg\<close> of \<open>crates/sv2-p2pool-engine/src/engine_impl.rs\<close> and the background
  tasks of \<open>crates/sv2-p2pool-engine/src/lib.rs\<close>: the reorg watcher with its invalidator loop, and
  the sweeper. Tasks follow tokio's rules: aborting a task ends that task, and dropping the join
  handle of another task detaches it and leaves it running.
\<close>

section \<open>Reorg notification\<close>

definition count_reorg :: "engine_metrics \<Rightarrow> engine_metrics" where
  "count_reorg m = m\<lparr>reorg_notifications := reorg_notifications m + 1\<rparr>"

definition flush_jobs :: "engine \<Rightarrow> engine" where
  "flush_jobs e =
     (let (dropped, c) = invalidate_all (declared_jobs e)
      in bump (inc_jobs_invalidated dropped) (e\<lparr>declared_jobs := c\<rparr>))"

definition tip_on_chain :: "block_hash list \<Rightarrow> declared_job \<Rightarrow> bool" where
  "tip_on_chain ancestors job =
     (case job_share_chain_tip job of Some tip \<Rightarrow> tip \<in> set ancestors | None \<Rightarrow> False)"

definition retain_on_chain :: "block_hash list \<Rightarrow> engine \<Rightarrow> engine" where
  "retain_on_chain ancestors e =
     (let (dropped, c) = jobs_retain (tip_on_chain ancestors) (declared_jobs e)
      in bump (inc_jobs_invalidated dropped) (e\<lparr>declared_jobs := c\<rparr>))"

text \<open>
  \<open>env 0\<close> is what other tasks do during the walk's awaits.
\<close>

definition notify_share_chain_reorg :: "env \<Rightarrow> block_hash \<Rightarrow> engine \<Rightarrow> unit handled \<times> engine" where
  "notify_share_chain_reorg env new_tip e0 =
     (let e = bump count_reorg e0
      in case handles e of
           None \<Rightarrow> (Reply (), flush_jobs e)
         | Some h \<Rightarrow>
             (case ancestry_walk (rd_get_share_header (hnd_chain h)) reorg_ancestry_depth new_tip [new_tip] of
                Walked ancestors \<Rightarrow> (Reply (), retain_on_chain ancestors (env 0 e))
              | WalkFailed \<Rightarrow> (Reply (), flush_jobs (env 0 e))
              | WalkPanicked \<Rightarrow> (Panicked, env 0 e)))"

section \<open>Background tasks\<close>

definition spawn_task :: "task \<Rightarrow> engine \<Rightarrow> nat \<times> engine" where
  "spawn_task t e =
     (next_task e, e\<lparr>tasks := dm_insert (next_task e) t (tasks e), next_task := Suc (next_task e)\<rparr>)"

definition abort_task :: "nat \<Rightarrow> engine \<Rightarrow> engine" where
  "abort_task i e = e\<lparr>tasks := dm_remove i (tasks e)\<rparr>"

definition stop_reorg_watcher :: "engine \<Rightarrow> engine" where
  "stop_reorg_watcher e =
     (case reorg_watcher e of
        Some i \<Rightarrow> abort_task i (e\<lparr>reorg_watcher := None\<rparr>)
      | None \<Rightarrow> e)"

definition start_reorg_watcher :: "engine \<Rightarrow> engine" where
  "start_reorg_watcher e0 =
     (let e = (case reorg_watcher e0 of Some i \<Rightarrow> abort_task i (e0\<lparr>reorg_watcher := None\<rparr>) | None \<Rightarrow> e0);
          (inv, e1) = spawn_task InvalidatorTask e;
          (det, e2) = spawn_task DetectorTask e1;
          (sup, e3) = spawn_task (SupervisorTask det inv) e2
      in e3\<lparr>reorg_watcher := Some sup\<rparr>)"

definition stop_recent_solutions_sweeper :: "engine \<Rightarrow> engine" where
  "stop_recent_solutions_sweeper e =
     (case sweeper e of
        Some i \<Rightarrow> abort_task i (e\<lparr>sweeper := None\<rparr>)
      | None \<Rightarrow> e)"

definition start_recent_solutions_sweeper :: "engine \<Rightarrow> engine" where
  "start_recent_solutions_sweeper e0 =
     (let e = (case sweeper e0 of Some i \<Rightarrow> abort_task i (e0\<lparr>sweeper := None\<rparr>) | None \<Rightarrow> e0);
          (i, e1) = spawn_task SweeperTask e
      in e1\<lparr>sweeper := Some i\<rparr>)"

definition engine_drop :: "engine \<Rightarrow> engine" where
  "engine_drop e = stop_recent_solutions_sweeper (stop_reorg_watcher e)"

definition sweeper_tick :: "instant \<Rightarrow> nat option \<Rightarrow> engine \<Rightarrow> engine" where
  "sweeper_tick now unix_secs e =
     (let e1 = e\<lparr>recent_sols := rs_sweep now (recent_sols e)\<rparr>
      in bump (\<lambda>m. m\<lparr>declared_jobs_cache_size := word_of_nat (jobs_len (declared_jobs e1)),
                     recent_solutions_buffer_size := word_of_nat (rs_len (recent_sols e1)),
                     sweeper_last_run_timestamp_seconds :=
                       (case unix_secs of Some s \<Rightarrow> word_of_nat s | None \<Rightarrow> 0)\<rparr>) e1)"

datatype recv_result = RecvOk block_hash | Lagged u64 | ChannelClosed

definition invalidator_event :: "engine \<Rightarrow> engine" where
  "invalidator_event e =
     (let (dropped, c) = invalidate_all (declared_jobs e)
      in bump (\<lambda>m. inc_jobs_invalidated dropped (count_reorg m)) (e\<lparr>declared_jobs := c\<rparr>))"

text \<open>
  The loop over what \<open>recv\<close> returns; \<open>env n\<close> is what other tasks do before receive number \<open>n\<close>.
\<close>

fun reorg_invalidator_loop :: "env \<Rightarrow> nat \<Rightarrow> recv_result list \<Rightarrow> engine \<Rightarrow> engine" where
  "reorg_invalidator_loop env n [] e = e"
| "reorg_invalidator_loop env n (RecvOk new_tip # rest) e =
     reorg_invalidator_loop env (Suc n) rest (invalidator_event (env n e))"
| "reorg_invalidator_loop env n (Lagged missed # rest) e =
     reorg_invalidator_loop env (Suc n) rest (invalidator_event (env n e))"
| "reorg_invalidator_loop env n (ChannelClosed # rest) e = env n e"

section \<open>Lemmas\<close>

lemma jobs_flush [simp]: "declared_jobs (flush_jobs e) = dm_empty"
  by (simp add: flush_jobs_def Let_def invalidate_all_def)

lemma jobs_retain_on_chain:
  "declared_jobs (retain_on_chain as e) = snd (jobs_retain (tip_on_chain as) (declared_jobs e))"
  by (simp add: retain_on_chain_def Let_def split: prod.split)

lemma get_retain_on_chain:
  "dm_wf (declared_jobs e) \<Longrightarrow> dm_get (declared_jobs (retain_on_chain as e)) rid = Some job \<longleftrightarrow>
     dm_get (declared_jobs e) rid = Some job \<and> tip_on_chain as job"
  by (simp add: jobs_retain_on_chain jobs_retain_def dm.retain_Some_iff)

lemma flush_frame: "flush_jobs e = e\<lparr>declared_jobs := declared_jobs (flush_jobs e), metrics := metrics (flush_jobs e)\<rparr>"
  by (simp add: flush_jobs_def bump_def split_beta split: option.splits)

lemma retain_frame:
  "retain_on_chain as e = e\<lparr>declared_jobs := declared_jobs (retain_on_chain as e), metrics := metrics (retain_on_chain as e)\<rparr>"
  by (simp add: retain_on_chain_def bump_def split_beta split: option.splits)

lemma tip_on_chain_iff: "tip_on_chain as job \<longleftrightarrow> (\<exists>h \<in> set as. job_share_chain_tip job = Some h)"
  by (auto simp: tip_on_chain_def split: option.splits)

definition dropped_between :: "engine \<Rightarrow> engine \<Rightarrow> engine_metrics \<Rightarrow> engine_metrics \<Rightarrow> bool" where
  "dropped_between e e' m m' \<longleftrightarrow>
     (\<exists>n. n + jobs_len (declared_jobs e') = jobs_len (declared_jobs e) \<and>
        jobs_invalidated_total m' = jobs_invalidated_total m + word_of_nat n)"

lemma flush_counts:
  assumes "metrics e = Some m"
  shows "\<exists>m'. metrics (flush_jobs e) = Some m' \<and> dropped_between e (flush_jobs e) m m' \<and>
    reorg_notifications m' = reorg_notifications m"
  using assms
  by (simp add: flush_jobs_def Let_def invalidate_all_def dropped_between_def inc_jobs_invalidated_def
      jobs_len_def) (simp add: dm_len_def dm_empty_def)

lemma retain_counts:
  assumes "metrics e = Some m"
  shows "\<exists>m'. metrics (retain_on_chain as e) = Some m' \<and> dropped_between e (retain_on_chain as e) m m' \<and>
    reorg_notifications m' = reorg_notifications m"
proof -
  let ?r = "jobs_retain (tip_on_chain as) (declared_jobs e)"
  have "fst ?r + jobs_len (snd ?r) = jobs_len (declared_jobs e)"
    using dm_len_retain [of "\<lambda>_. tip_on_chain as" "declared_jobs e"]
    by (simp add: jobs_retain_def jobs_len_def)
  then show ?thesis
    using assms
    by (auto simp: retain_on_chain_def Let_def dropped_between_def inc_jobs_invalidated_def split: prod.split)
qed

section \<open>Properties\<close>

lemma reorg_frame:
  assumes "notify_share_chain_reorg env new_tip e = (Reply (), e')"
  shows "let walked = (if handles e = None then bump count_reorg e else env 0 (bump count_reorg e))
    in e' = walked\<lparr>declared_jobs := declared_jobs e', metrics := metrics e'\<rparr>"
  using assms flush_frame retain_frame
  by (auto simp: notify_share_chain_reorg_def Let_def split: option.splits walk.splits)

lemma reorg_jobs:
  assumes "dm_wf (declared_jobs (env 0 (bump count_reorg e)))"
    and "notify_share_chain_reorg env new_tip e = (Reply (), e')"
  shows "case handles e of
      None \<Rightarrow> declared_jobs e' = dm_empty
    | Some h \<Rightarrow>
        let lookup = rd_get_share_header (hnd_chain h) in
        if (\<forall>k < 100. \<forall>a. nth_parent lookup k new_tip = Some a \<longrightarrow> readable lookup a)
        then \<forall>rid job. dm_get (declared_jobs e') rid = Some job \<longleftrightarrow>
           dm_get (declared_jobs (env 0 (bump count_reorg e))) rid = Some job \<and>
           (\<exists>k \<le> 100. \<exists>a. nth_parent lookup k new_tip = Some a \<and> job_share_chain_tip job = Some a)
        else declared_jobs e' = dm_empty"
proof (cases "handles e")
  case None
  with assms(2) show ?thesis by (auto simp: notify_share_chain_reorg_def Let_def)
next
  case (Some h)
  let ?lookup = "rd_get_share_header (hnd_chain h)"
  note complete = ancestry_walk_complete [of ?lookup 100 new_tip "[new_tip]"]
  show ?thesis
  proof (cases "ancestry_walk ?lookup 100 new_tip [new_tip]")
    case (Walked as)
    with assms(2) Some have e': "e' = retain_on_chain as (env 0 (bump count_reorg e))"
      by (simp add: notify_share_chain_reorg_def Let_def reorg_ancestry_depth_def)
    show ?thesis
      using Walked complete ancestry_walk_from [OF Walked]
      by (simp add: Some Let_def e' get_retain_on_chain [OF assms(1)] tip_on_chain_iff) blast
  qed (use assms(2) Some complete in \<open>auto simp: notify_share_chain_reorg_def Let_def reorg_ancestry_depth_def\<close>)
qed

text \<open>
  C6: selective invalidation on a reorg with a share-chain reader: when the headers along the new
  tip's ancestry can be read, a cached job survives exactly when the share-chain tip it was declared
  on is the new tip or one of its first hundred ancestors; a job without captured tip never
  survives. When a header is missing or unreadable, or no reader is wired, the whole cache is
  flushed. Nothing but the cache and the metrics of the engine changes after the walk: the token maps,
  the payout bindings, the buffered solutions, the bridge and the tasks are as the walk left them.
\<close>

theorem reorg_keeps_exactly:
  assumes "dm_wf (declared_jobs (env 0 (bump count_reorg e)))"
    and "notify_share_chain_reorg env new_tip e = (Reply (), e')"
  shows "(let walked = (if handles e = None then bump count_reorg e else env 0 (bump count_reorg e))
     in e' = walked\<lparr>declared_jobs := declared_jobs e', metrics := metrics e'\<rparr>) \<and>
    (case handles e of
      None \<Rightarrow> declared_jobs e' = dm_empty
    | Some h \<Rightarrow>
        let lookup = rd_get_share_header (hnd_chain h) in
        if (\<forall>k < 100. \<forall>a. nth_parent lookup k new_tip = Some a \<longrightarrow> readable lookup a)
        then \<forall>rid job. dm_get (declared_jobs e') rid = Some job \<longleftrightarrow>
           dm_get (declared_jobs (env 0 (bump count_reorg e))) rid = Some job \<and>
           (\<exists>k \<le> 100. \<exists>a. nth_parent lookup k new_tip = Some a \<and> job_share_chain_tip job = Some a)
        else declared_jobs e' = dm_empty)"
  using reorg_frame [OF assms(2)] reorg_jobs [OF assms] by blast

definition chain_a :: block_hash where "chain_a = 1 # replicate 31 0"
definition chain_b :: block_hash where "chain_b = 2 # replicate 31 0"

definition sample_chain :: mock_share_chain where
  "sample_chain = mock_with_header chain_b (Some chain_a) (mock_with_header chain_a None mock_new)"

definition reorg_engine :: engine where
  "reorg_engine = engine_default\<lparr>
     handles := Some \<lparr>hnd_chain = mock_reader sample_chain, hnd_validate_block_proposal = (\<lambda>_. Inr Accepted),
                      hnd_submit_block = (\<lambda>_. Inr ''null'')\<rparr>,
     declared_jobs := [(1, sample_job\<lparr>job_share_chain_tip := Some chain_a\<rparr>),
                       (2, sample_job\<lparr>job_share_chain_tip := None\<rparr>)]\<rparr>"

lemma sample_chain_lookup:
  "mock_get_share_header sample_chain chain_b = Ok (Found \<lparr>prev_share_blockhash = Some chain_a\<rparr>)"
  "mock_get_share_header sample_chain chain_a = Ok (Found \<lparr>prev_share_blockhash = None\<rparr>)"
  by (simp_all add: mock_get_share_header_def sample_chain_def mock_with_header_def chain_a_def chain_b_def
      is_zero_hash_def mock_new_def mock_with_network_def)

lemma sample_walk: "ancestry_walk (mock_get_share_header sample_chain) 100 chain_b [chain_b] = Walked [chain_a, chain_b]"
proof -
  have "ancestry_walk (mock_get_share_header sample_chain) (Suc (Suc n)) chain_b [chain_b] =
      Walked [chain_a, chain_b]" for n
    by (simp add: sample_chain_lookup)
  from this [of 98] show ?thesis by simp
qed

theorem reorg_keeps_exactly_witness:
  "\<exists>e'. notify_share_chain_reorg quiet chain_b reorg_engine = (Reply (), e') \<and>
     dm_get (declared_jobs e') 1 \<noteq> None \<and> dm_get (declared_jobs e') 2 = None \<and>
     allocated_tokens e' = allocated_tokens reorg_engine"
proof -
  have lk: "rd_get_share_header (mock_reader sample_chain) = mock_get_share_header sample_chain"
    by (simp add: mock_reader_def)
  obtain e' where run: "notify_share_chain_reorg quiet chain_b reorg_engine = (Reply (), e')"
    using sample_walk by (simp add: notify_share_chain_reorg_def reorg_engine_def Let_def lk reorg_ancestry_depth_def)
  have wf: "dm_wf (declared_jobs (quiet 0 (bump count_reorg reorg_engine)))"
    by (simp add: reorg_engine_def dm_wf_def)
  have all: "\<forall>k < 100. \<forall>a. nth_parent (mock_get_share_header sample_chain) k chain_b = Some a \<longrightarrow>
      readable (mock_get_share_header sample_chain) a"
    using sample_walk ancestry_walk_complete by blast
  have "nth_parent (mock_get_share_header sample_chain) 1 chain_b = Some chain_a"
    by (simp add: parent_def sample_chain_lookup)
  then have anc: "\<exists>k \<le> 100. \<exists>a. nth_parent (mock_get_share_header sample_chain) k chain_b = Some a \<and> a = chain_a"
    by (intro exI [of _ 1]) simp
  have keep: "dm_get (declared_jobs e') rid = Some job \<longleftrightarrow>
      dm_get (declared_jobs reorg_engine) rid = Some job \<and>
      (\<exists>k \<le> 100. \<exists>a. nth_parent (mock_get_share_header sample_chain) k chain_b = Some a \<and>
         job_share_chain_tip job = Some a)" for rid job
    using conjunct2 [OF reorg_keeps_exactly [OF wf run]] all
    by (simp add: Let_def reorg_engine_def lk split: if_splits)
  have "dm_get (declared_jobs e') 1 = Some (sample_job\<lparr>job_share_chain_tip := Some chain_a\<rparr>)"
    using anc by (subst keep) (auto simp: reorg_engine_def)
  moreover have "dm_get (declared_jobs e') 2 = None"
    by (rule ccontr) (auto simp: keep, auto simp: reorg_engine_def)
  moreover have "allocated_tokens e' = allocated_tokens reorg_engine"
    using arg_cong [OF conjunct1 [OF reorg_keeps_exactly [OF wf run], unfolded Let_def], of allocated_tokens]
    by (simp add: reorg_engine_def)
  ultimately show ?thesis using run by auto
qed

text \<open>
  the counters of a reorg notification: the notification counter goes up by one and the
  invalidation counter by exactly the number of jobs that left the cache, on every path.
\<close>

lemma reorg_counts:
  assumes "metrics e = Some m" and "tdp_only env" and "notify_share_chain_reorg env new_tip e = (Reply (), e')"
  shows "\<exists>m'. metrics e' = Some m' \<and> reorg_notifications m' = reorg_notifications m + 1 \<and>
    dropped_between e e' m m'"
proof -
  let ?e = "bump count_reorg e"
  have met: "metrics ?e = Some (count_reorg m)" "metrics (env 0 ?e) = Some (count_reorg m)"
    using assms(1) by (simp_all add: tdp_only_fields [OF assms(2)])
  have jobs: "declared_jobs (env 0 ?e) = declared_jobs e" by (simp add: tdp_only_fields [OF assms(2)])
  have e': "e' = flush_jobs ?e \<or> e' = flush_jobs (env 0 ?e) \<or> (\<exists>as. e' = retain_on_chain as (env 0 ?e))"
    using assms(3) by (auto simp: notify_share_chain_reorg_def Let_def split: option.splits walk.splits)
  show ?thesis
    using e' flush_counts [OF met(1)] flush_counts [OF met(2)] retain_counts [OF met(2)] jobs
    by (auto simp: dropped_between_def count_reorg_def) metis+
qed

theorem reorg_counts_witness:
  "\<exists>m' e'. notify_share_chain_reorg quiet [] (with_metrics initial_metrics engine_default) = (Reply (), e') \<and>
     metrics e' = Some m' \<and> reorg_notifications m' = 1"
proof -
  let ?e = "with_metrics initial_metrics engine_default"
  obtain e' where run: "notify_share_chain_reorg quiet [] ?e = (Reply (), e')"
    by (simp add: notify_share_chain_reorg_def with_metrics_def engine_default_def engine_new_def Let_def)
  have "metrics ?e = Some initial_metrics" by (simp add: with_metrics_def)
  from reorg_counts [OF this tdp_only_quiet run] run show ?thesis
    by (auto simp: initial_metrics_def zero_metrics_def Let_def)
qed

section \<open>The background tasks\<close>

definition next_fresh :: "engine \<Rightarrow> bool" where
  "next_fresh e \<longleftrightarrow> (\<forall>i t. dm_get (tasks e) i = Some t \<longrightarrow> i < next_task e) \<and>
     (\<forall>i. sweeper e = Some i \<longrightarrow> i < next_task e)"

lemma next_fresh_start [simp]: "next_fresh e \<Longrightarrow> next_fresh (start_reorg_watcher e)"
  by (auto simp: next_fresh_def start_reorg_watcher_def spawn_task_def abort_task_def Let_def
      less_Suc_eq split: option.splits if_splits)

text \<open>
  C30: aborting the watcher's supervisor does not stop what it supervises: after the watcher has been
  started and stopped again, by \<open>stop_reorg_watcher\<close> or by dropping the engine, the supervisor is
  gone, but the detector and the invalidator, which flushes the declared-jobs cache on every tip
  change, are still running; and starting the watcher a second time leaves two of each.
\<close>

theorem stop_watcher_leaves_children:
  assumes "next_fresh e" and "e' = start_reorg_watcher e"
  shows "\<exists>det inv sup. reorg_watcher e' = Some sup \<and> dm_get (tasks e') sup = Some (SupervisorTask det inv) \<and>
    dm_get (tasks (stop_reorg_watcher e')) sup = None \<and>
    dm_get (tasks (stop_reorg_watcher e')) det = Some DetectorTask \<and>
    dm_get (tasks (stop_reorg_watcher e')) inv = Some InvalidatorTask \<and>
    dm_get (tasks (engine_drop e')) sup = None \<and>
    dm_get (tasks (engine_drop e')) det = Some DetectorTask \<and>
    dm_get (tasks (engine_drop e')) inv = Some InvalidatorTask \<and>
    dm_get (tasks (start_reorg_watcher e')) det = Some DetectorTask \<and>
    dm_get (tasks (start_reorg_watcher e')) inv = Some InvalidatorTask \<and>
    (\<exists>det' inv'. det' \<noteq> det \<and> inv' \<noteq> inv \<and>
       dm_get (tasks (start_reorg_watcher e')) det' = Some DetectorTask \<and>
       dm_get (tasks (start_reorg_watcher e')) inv' = Some InvalidatorTask)"
proof -
  let ?n = "next_task e"
  have nt: "next_task (case reorg_watcher e of None \<Rightarrow> e | Some i \<Rightarrow> abort_task i (e\<lparr>reorg_watcher := None\<rparr>)) = ?n"
    by (auto simp: abort_task_def split: option.splits)
  have facts: "reorg_watcher e' = Some (Suc (Suc ?n))" "next_task e' = Suc (Suc (Suc ?n))"
    "dm_get (tasks e') (Suc (Suc ?n)) = Some (SupervisorTask (Suc ?n) ?n)"
    "dm_get (tasks e') (Suc ?n) = Some DetectorTask" "dm_get (tasks e') ?n = Some InvalidatorTask"
    by (simp_all add: assms(2) start_reorg_watcher_def spawn_task_def Let_def nt)
  have again: "dm_get (tasks (start_reorg_watcher e')) (Suc (Suc (Suc (Suc ?n)))) = Some DetectorTask"
    "dm_get (tasks (start_reorg_watcher e')) (Suc (Suc (Suc ?n))) = Some InvalidatorTask"
    "dm_get (tasks (start_reorg_watcher e')) (Suc ?n) = Some DetectorTask"
    "dm_get (tasks (start_reorg_watcher e')) ?n = Some InvalidatorTask"
    using facts by (simp_all add: start_reorg_watcher_def spawn_task_def abort_task_def Let_def)
  have stopped: "dm_get (tasks (stop_reorg_watcher e')) (Suc (Suc ?n)) = None"
    "dm_get (tasks (stop_reorg_watcher e')) (Suc ?n) = Some DetectorTask"
    "dm_get (tasks (stop_reorg_watcher e')) ?n = Some InvalidatorTask"
    using facts by (simp_all add: stop_reorg_watcher_def abort_task_def)
  have sw: "sweeper (stop_reorg_watcher e') = sweeper e"
    by (auto simp: assms(2) start_reorg_watcher_def stop_reorg_watcher_def spawn_task_def abort_task_def Let_def
        split: option.splits)
  have dropped: "dm_get (tasks (engine_drop e')) (Suc (Suc ?n)) = None"
    "dm_get (tasks (engine_drop e')) (Suc ?n) = Some DetectorTask"
    "dm_get (tasks (engine_drop e')) ?n = Some InvalidatorTask"
    using stopped assms(1)
    by (auto simp: engine_drop_def stop_recent_solutions_sweeper_def abort_task_def sw next_fresh_def split: option.splits)
  have "\<exists>det' inv'. det' \<noteq> Suc ?n \<and> inv' \<noteq> ?n \<and>
       dm_get (tasks (start_reorg_watcher e')) det' = Some DetectorTask \<and>
       dm_get (tasks (start_reorg_watcher e')) inv' = Some InvalidatorTask"
    using again(1,2) by (intro exI [of _ "Suc (Suc (Suc (Suc ?n)))"] exI [of _ "Suc (Suc (Suc ?n))"]) simp
  with facts stopped dropped again(3,4) show ?thesis by blast
qed

theorem stop_watcher_leaves_children_witness:
  "\<exists>inv. dm_get (tasks (stop_reorg_watcher (start_reorg_watcher engine_default))) inv = Some InvalidatorTask \<and>
     dm_get (tasks (engine_drop (start_reorg_watcher engine_default))) inv = Some InvalidatorTask"
proof -
  have "next_fresh engine_default" by (simp add: next_fresh_def engine_default_def engine_new_def)
  from stop_watcher_leaves_children [OF this refl] show ?thesis by blast
qed

lemma loop_flushes:
  "reorg_invalidator_loop env n rs e = e' \<Longrightarrow> rs \<noteq> [] \<Longrightarrow> ChannelClosed \<notin> set rs \<Longrightarrow> declared_jobs e' = dm_empty"
proof (induction env n rs e rule: reorg_invalidator_loop.induct)
  case (2 env n tip rest e)
  then show ?case
    by (cases rest) (auto simp: invalidator_event_def Let_def invalidate_all_def)
next
  case (3 env n missed rest e)
  then show ?case
    by (cases rest) (auto simp: invalidator_event_def Let_def invalidate_all_def)
qed auto

lemma event_counts:
  assumes "metrics e = Some m"
  shows "\<exists>m'. metrics (invalidator_event e) = Some m' \<and> reorg_notifications m' = reorg_notifications m + 1 \<and>
    jobs_invalidated_total m' = jobs_invalidated_total m + word_of_nat (jobs_len (declared_jobs e)) \<and>
    declared_jobs (invalidator_event e) = dm_empty"
  using assms
  by (simp add: invalidator_event_def Let_def invalidate_all_def inc_jobs_invalidated_def count_reorg_def
      jobs_len_def)

text \<open>
  the invalidator never lets a tip change pass: after any number of receives that end with a tip
  change or a lag report, whatever other tasks cached in between, the cache is empty; with nothing
  else running, each receive counts as one reorg notification and the jobs counted as invalidated are
  those that were cached at the start.
\<close>

lemma invalidator_flushes:
  assumes "rs \<noteq> []" and "ChannelClosed \<notin> set rs"
  shows "declared_jobs (reorg_invalidator_loop env n rs e) = dm_empty \<and>
    (\<forall>m. metrics e = Some m \<longrightarrow>
       (\<exists>m'. metrics (reorg_invalidator_loop quiet n rs e) = Some m' \<and>
          reorg_notifications m' = reorg_notifications m + word_of_nat (length rs) \<and>
          jobs_invalidated_total m' = jobs_invalidated_total m + word_of_nat (jobs_len (declared_jobs e))))"
proof (intro conjI allI impI)
  show "declared_jobs (reorg_invalidator_loop env n rs e) = dm_empty"
    using loop_flushes [OF refl assms] .
  fix m assume "metrics e = Some m"
  then show "\<exists>m'. metrics (reorg_invalidator_loop quiet n rs e) = Some m' \<and>
      reorg_notifications m' = reorg_notifications m + word_of_nat (length rs) \<and>
      jobs_invalidated_total m' = jobs_invalidated_total m + word_of_nat (jobs_len (declared_jobs e))"
    using assms
  proof (induction rs arbitrary: n e m)
    case Nil
    then show ?case by simp
  next
    case (Cons r rs)
    from Cons.prems(3) have step: "reorg_invalidator_loop quiet n (r # rs) e =
        reorg_invalidator_loop quiet (Suc n) rs (invalidator_event e)"
      by (cases r) auto
    obtain m1 where m1: "metrics (invalidator_event e) = Some m1" "reorg_notifications m1 = reorg_notifications m + 1"
      "jobs_invalidated_total m1 = jobs_invalidated_total m + word_of_nat (jobs_len (declared_jobs e))"
      "declared_jobs (invalidator_event e) = dm_empty"
      using event_counts [OF Cons.prems(1)] by blast
    have "\<exists>m'. metrics (reorg_invalidator_loop quiet (Suc n) rs (invalidator_event e)) = Some m' \<and>
      reorg_notifications m' = reorg_notifications m + word_of_nat (length (r # rs)) \<and>
      jobs_invalidated_total m' = jobs_invalidated_total m + word_of_nat (jobs_len (declared_jobs e))"
    proof (cases "rs = []")
      case True
      with m1 show ?thesis by simp
    next
      case False
      from Cons.IH [OF m1(1) False] Cons.prems(3) obtain m2 where
        "metrics (reorg_invalidator_loop quiet (Suc n) rs (invalidator_event e)) = Some m2"
        "reorg_notifications m2 = reorg_notifications m1 + word_of_nat (length rs)"
        "jobs_invalidated_total m2 = jobs_invalidated_total m1 + word_of_nat (jobs_len (declared_jobs (invalidator_event e)))"
        by fastforce
      with m1 show ?thesis by (simp add: jobs_len_def dm_len_def dm_empty_def algebra_simps)
    qed
    then show ?case unfolding step .
  qed
qed

theorem invalidator_flushes_witness:
  "declared_jobs (reorg_invalidator_loop quiet 0 [RecvOk chain_a, Lagged 3] reorg_engine) = dm_empty"
  using invalidator_flushes [of "[RecvOk chain_a, Lagged 3]" quiet 0 reorg_engine] by simp

text \<open>
  a sweeper tick leaves only unexpired entries in the buffer, changes no answer that a later take
  would get, and publishes the sizes of the cache and of the swept buffer.
\<close>

lemma sweeper_tick_publishes:
  assumes "rs_wf (recent_sols e)" and "now \<le> later"
  shows "fst (rs_take later k (recent_sols (sweeper_tick now unix e))) = fst (rs_take later k (recent_sols e)) \<and>
    list_all (\<lambda>(_, t, _). now - t \<le> rs_ttl (recent_sols e)) (rs_inner (recent_sols (sweeper_tick now unix e))) \<and>
    (case metrics (sweeper_tick now unix e) of
       None \<Rightarrow> metrics e = None
     | Some m \<Rightarrow>
         declared_jobs_cache_size m = word_of_nat (jobs_len (declared_jobs (sweeper_tick now unix e))) \<and>
         recent_solutions_buffer_size m = word_of_nat (rs_len (recent_sols (sweeper_tick now unix e))))"
  using credit.take_sweep [OF assms]
  by (auto simp: sweeper_tick_def Let_def rs_sweep_def dm_retain_def elapsed_def list_all_iff
      split: option.splits)

theorem sweeper_tick_publishes_witness:
  "list_all (\<lambda>(_, t, _). 9 - t \<le> rs_ttl (recent_sols engine_default))
     (rs_inner (recent_sols (sweeper_tick 9 None engine_default)))"
  using sweeper_tick_publishes [of engine_default 9 9 "[]" None]
  by (simp add: engine_default_def engine_new_def)

text \<open>
  with the IPC reader, a job declared while the share-chain tip read as the all-zeros sentinel is
  dropped by every reorg to a proper tip: no ancestry walk ever runs into the sentinel.
\<close>

lemma reorg_drops_sentinel_jobs:
  assumes "dm_wf (declared_jobs e)" and "handles e = Some h"
    and "rd_get_share_header (hnd_chain h) = ipc_get_share_header S" and "\<not> is_zero_hash new_tip"
    and "dm_get (declared_jobs e) rid = Some job" and "job_share_chain_tip job = Some all_zeros"
  shows "dm_get (declared_jobs (snd (notify_share_chain_reorg quiet new_tip e))) rid \<noteq> Some job
    \<or> (fst (notify_share_chain_reorg quiet new_tip e) = Panicked)"
proof (cases "ancestry_walk (ipc_get_share_header S) reorg_ancestry_depth new_tip [new_tip]")
  case (Walked as)
  have "all_zeros \<notin> set as"
    using ipc_reader.walk_avoids_sentinel [OF Walked assms(4)] is_zero_hash_all_zeros [of all_zeros] by auto
  then have "\<not> tip_on_chain as job" using assms(6) by (simp add: tip_on_chain_def)
  with Walked assms(1-3) show ?thesis
    by (simp add: notify_share_chain_reorg_def Let_def get_retain_on_chain)
qed (use assms(2,3) in \<open>auto simp: notify_share_chain_reorg_def Let_def\<close>)

definition sample_server :: rpc_server where
  "sample_server =
     \<lparr>rpc_connect = Inr (), rpc_validate_template = (\<lambda>_ _ _ _. Which WireOk),
      rpc_submit_solution = (\<lambda>_ _. Inr True), rpc_subscribe_chain_tip = Inr (),
      rpc_get_chain_tip = Which (WireTip (Inr chain_a)),
      rpc_get_share_header = (\<lambda>_. Which (WireFound (Inr all_zeros))),
      rpc_get_tip_height = Which (WireHeight 7), rpc_get_network = Which WireSignet,
      rpc_utf8 = (\<lambda>_. Inr [])\<rparr>"

definition sentinel_engine :: engine where
  "sentinel_engine =
     engine_default\<lparr>handles := Some \<lparr>hnd_chain = \<lparr>rd_get_chain_tip = Ok None,
          rd_get_share_header = ipc_get_share_header sample_server, rd_get_tip_height = Ok None,
          rd_network = Signet\<rparr>, hnd_validate_block_proposal = (\<lambda>_. Inr Accepted),
          hnd_submit_block = (\<lambda>_. Inr ''null'')\<rparr>,
        declared_jobs := [(1, sample_job\<lparr>job_share_chain_tip := Some all_zeros\<rparr>)]\<rparr>"

theorem reorg_drops_sentinel_jobs_witness:
  "dm_get (declared_jobs (snd (notify_share_chain_reorg quiet chain_b sentinel_engine))) 1
     \<noteq> Some (sample_job\<lparr>job_share_chain_tip := Some all_zeros\<rparr>)"
proof -
  have hdr: "ipc_get_share_header sample_server h = Ok (Found \<lparr>prev_share_blockhash = None\<rparr>)" for h
    by (simp add: ipc_get_share_header_def sample_server_def decode_block_hash_def is_zero_hash_all_zeros)
  have walk: "ancestry_walk (ipc_get_share_header sample_server) (Suc n) chain_b [chain_b] = Walked [chain_b]" for n
    by (simp add: hdr)
  have np: "fst (notify_share_chain_reorg quiet chain_b sentinel_engine) \<noteq> Panicked"
    using walk [of 99]
    by (simp add: notify_share_chain_reorg_def Let_def reorg_ancestry_depth_def sentinel_engine_def)
  show ?thesis
    using reorg_drops_sentinel_jobs [of sentinel_engine _ sample_server chain_b 1
        "sample_job\<lparr>job_share_chain_tip := Some all_zeros\<rparr>"] np
    by (simp add: sentinel_engine_def dm_wf_def chain_b_def is_zero_hash_def)
qed

end
