(* ===== verification/Tdp_Demux.thy ===== *)
theory Tdp_Demux
  imports Tdp
begin

text \<open>
  \<open>crates/sv2-p2pool-pool/src/tdp_demux.rs\<close>: the tee task that observes the provider's messages on
  their way to the channel manager, and the merge task that puts the channel manager's and the
  engine's messages on one stream to the provider.
\<close>

datatype tdp_message =
    SetNewPrevHash set_new_prev_hash
  | NewTemplate new_template
  | RequestTransactionDataSuccess u64 "bytes list"
  | RequestTransactionDataError u64 bytes
  | RequestTransactionData u64
  | OtherTdp bytes

section \<open>The tee\<close>

fun tee_observe :: "tdp_message \<Rightarrow> tdp_handle \<Rightarrow> tdp_handle" where
  "tee_observe (SetNewPrevHash snph) h = record_set_new_prev_hash snph h"
| "tee_observe (NewTemplate nt) h = record_new_template nt h"
| "tee_observe (RequestTransactionDataSuccess t l) h = snd (deliver_response t (TxSuccess l) h)"
| "tee_observe (RequestTransactionDataError t c) h = snd (deliver_response t (TxError c) h)"
| "tee_observe _ h = h"

text \<open>
  \<open>accepts i\<close> says whether send number \<open>i\<close> on the channel manager's channel succeeds; the first
  failure ends the task. The list is what the input yields until it closes.
\<close>

fun tee_loop :: "(nat \<Rightarrow> bool) \<Rightarrow> nat \<Rightarrow> tdp_message list \<Rightarrow> tdp_handle \<Rightarrow> tdp_message list \<times> tdp_handle" where
  "tee_loop accepts i [] h = ([], h)"
| "tee_loop accepts i (msg # rest) h =
     (let h' = tee_observe msg h
      in if accepts i
         then let (out, h'') = tee_loop accepts (Suc i) rest h' in (msg # out, h'')
         else ([], h'))"

definition spawn_tp_to_cm_tee :: "(nat \<Rightarrow> bool) \<Rightarrow> tdp_message list \<Rightarrow> tdp_handle \<Rightarrow> tdp_message list \<times> tdp_handle" where
  "spawn_tp_to_cm_tee accepts tp_input h = tee_loop accepts 0 tp_input h"

section \<open>The merge\<close>

datatype source = FromCm | FromEngine

datatype merge_phase = Selecting | DrainEngine | DrainCm | Exited

record merge_state =
  cm_queue :: "tdp_message list"
  cm_closed :: bool
  eng_queue :: "tdp_message list"
  eng_closed :: bool
  tp_out :: "(source \<times> tdp_message) list"
  tp_closed :: bool
  tp_lost :: "(source \<times> tdp_message) list"
  mphase :: merge_phase
  cm_sent :: "tdp_message list"
  eng_sent :: "tdp_message list"

definition merge_new :: merge_state where
  "merge_new = \<lparr>cm_queue = [], cm_closed = False, eng_queue = [], eng_closed = False, tp_out = [],
     tp_closed = False, tp_lost = [], mphase = Selecting, cm_sent = [], eng_sent = []\<rparr>"

text \<open>
  \<open>recv\<close> on a closed channel still yields what is queued; \<open>is_closed\<close> does not look at the queue. A
  message that was taken from its queue when the provider's channel turns out to be closed is lost,
  and the task ends; ending drops the only receiver of the engine's channel, which closes it.
\<close>

definition merge_lose :: "source \<Rightarrow> tdp_message \<Rightarrow> merge_state \<Rightarrow> merge_state" where
  "merge_lose src m s = s\<lparr>tp_lost := tp_lost s @ [(src, m)], mphase := Exited, eng_closed := True\<rparr>"

definition merge_forward :: "source \<Rightarrow> tdp_message \<Rightarrow> merge_state \<Rightarrow> merge_state" where
  "merge_forward src m s = (if tp_closed s then merge_lose src m s else s\<lparr>tp_out := tp_out s @ [(src, m)]\<rparr>)"

text \<open>
  The first four rules are the two arms of the \<open>select!\<close>, the next four the two drain loops.
\<close>

inductive merge_task :: "merge_state \<Rightarrow> merge_state \<Rightarrow> bool" where
  cm_recv: "mphase s = Selecting \<Longrightarrow> cm_queue s = m # q \<Longrightarrow>
     merge_task s (merge_forward FromCm m (s\<lparr>cm_queue := q\<rparr>))"
| cm_end: "mphase s = Selecting \<Longrightarrow> cm_queue s = [] \<Longrightarrow> cm_closed s \<Longrightarrow>
     merge_task s (s\<lparr>mphase := if eng_closed s then Exited else DrainEngine\<rparr>)"
| eng_recv: "mphase s = Selecting \<Longrightarrow> eng_queue s = m # q \<Longrightarrow>
     merge_task s (merge_forward FromEngine m (s\<lparr>eng_queue := q\<rparr>))"
| eng_end: "mphase s = Selecting \<Longrightarrow> eng_queue s = [] \<Longrightarrow> eng_closed s \<Longrightarrow>
     merge_task s (s\<lparr>mphase := if cm_closed s then Exited else DrainCm\<rparr>)"
| drain_eng: "mphase s = DrainEngine \<Longrightarrow> eng_queue s = m # q \<Longrightarrow>
     merge_task s (merge_forward FromEngine m (s\<lparr>eng_queue := q\<rparr>))"
| drain_eng_end: "mphase s = DrainEngine \<Longrightarrow> eng_queue s = [] \<Longrightarrow> eng_closed s \<Longrightarrow>
     merge_task s (s\<lparr>mphase := Exited\<rparr>)"
| drain_cm: "mphase s = DrainCm \<Longrightarrow> cm_queue s = m # q \<Longrightarrow>
     merge_task s (merge_forward FromCm m (s\<lparr>cm_queue := q\<rparr>))"
| drain_cm_end: "mphase s = DrainCm \<Longrightarrow> cm_queue s = [] \<Longrightarrow> cm_closed s \<Longrightarrow>
     merge_task s (s\<lparr>mphase := Exited\<rparr>)"

definition cm_push :: "tdp_message \<Rightarrow> merge_state \<Rightarrow> merge_state" where
  "cm_push m s = s\<lparr>cm_queue := cm_queue s @ [m], cm_sent := cm_sent s @ [m]\<rparr>"

definition eng_push :: "tdp_message \<Rightarrow> merge_state \<Rightarrow> merge_state" where
  "eng_push m s = s\<lparr>eng_queue := eng_queue s @ [m], eng_sent := eng_sent s @ [m]\<rparr>"

inductive merge_step :: "merge_state \<Rightarrow> merge_state \<Rightarrow> bool" where
  task: "merge_task s t \<Longrightarrow> merge_step s t"
| cm_send: "\<not> cm_closed s \<Longrightarrow> merge_step s (cm_push m s)"
| eng_send: "\<not> eng_closed s \<Longrightarrow> merge_step s (eng_push m s)"
| cm_close: "merge_step s (s\<lparr>cm_closed := True\<rparr>)"
| eng_close: "merge_step s (s\<lparr>eng_closed := True\<rparr>)"
| tp_close: "merge_step s (s\<lparr>tp_closed := True\<rparr>)"

inductive_cases merge_taskE: "merge_task s t"
inductive_cases merge_stepE: "merge_step s t"

definition merge_start :: "merge_state \<Rightarrow> bool" where
  "merge_start s \<longleftrightarrow> s = merge_new"

definition from_source :: "source \<Rightarrow> (source \<times> tdp_message) list \<Rightarrow> tdp_message list" where
  "from_source src out = map snd (filter (\<lambda>sm. fst sm = src) out)"

lemma from_source_append [simp]:
  "from_source src (xs @ ys) = from_source src xs @ from_source src ys"
  "from_source src [(src', m)] = (if src' = src then [m] else [])" "from_source src [] = []"
  by (simp_all add: from_source_def)

lemmas merge_ops = merge_lose_def merge_forward_def cm_push_def eng_push_def

definition merge_inv :: "merge_state \<Rightarrow> bool" where
  "merge_inv s \<longleftrightarrow>
     from_source FromCm (tp_out s) @ from_source FromCm (tp_lost s) @ cm_queue s = cm_sent s \<and>
     from_source FromEngine (tp_out s) @ from_source FromEngine (tp_lost s) @ eng_queue s = eng_sent s \<and>
     length (tp_lost s) \<le> 1 \<and> (tp_lost s \<noteq> [] \<longrightarrow> tp_closed s \<and> mphase s = Exited) \<and>
     (mphase s = DrainEngine \<longrightarrow> cm_closed s \<and> cm_queue s = []) \<and>
     (mphase s = DrainCm \<longrightarrow> eng_closed s \<and> eng_queue s = []) \<and>
     (mphase s = Exited \<longrightarrow> eng_closed s) \<and>
     (mphase s = Exited \<and> tp_lost s = [] \<longrightarrow> cm_closed s \<and> (cm_queue s = [] \<or> eng_queue s = []))"

lemma merge_inv_task: "merge_inv s \<Longrightarrow> merge_task s t \<Longrightarrow> merge_inv t"
  by (erule merge_taskE) (auto simp: merge_inv_def merge_ops)

lemma merge_inv_step: "merge_inv s \<Longrightarrow> merge_step s t \<Longrightarrow> merge_inv t"
  by (erule merge_stepE) (auto dest: merge_inv_task, auto simp: merge_inv_def merge_ops)

interpretation merge: invariant_system merge_start merge_step merge_inv
  by unfold_locales (auto simp: merge_start_def merge_inv_step, simp add: merge_inv_def merge_new_def)

section \<open>Properties\<close>

lemma tee_loop_prefix:
  "tee_loop accepts i msgs h = (out, h') \<Longrightarrow>
     out = take (length out) msgs \<and>
     (out = msgs \<and> h' = fold tee_observe msgs h \<or>
      length out < length msgs \<and> \<not> accepts (i + length out) \<and> h' = fold tee_observe (take (Suc (length out)) msgs) h)"
proof (induction accepts i msgs h arbitrary: out h' rule: tee_loop.induct)
  case (1 accepts i h)
  then show ?case by simp
next
  case (2 accepts i msg rest h)
  show ?case
  proof (cases "accepts i")
    case True
    with 2(2) obtain out' where "tee_loop accepts (Suc i) rest (tee_observe msg h) = (out', h')" "out = msg # out'"
      by (auto simp: Let_def split: prod.splits)
    with 2(1) [OF refl True] show ?thesis by fastforce
  next
    case False
    with 2(2) show ?thesis by (auto simp: Let_def)
  qed
qed

definition last_template_in :: "tdp_message list \<Rightarrow> new_template option \<Rightarrow> new_template option" where
  "last_template_in msgs init = foldl (\<lambda>a m. case m of NewTemplate nt \<Rightarrow> Some nt | _ \<Rightarrow> a) init msgs"

definition last_prev_hash_in :: "tdp_message list \<Rightarrow> set_new_prev_hash option \<Rightarrow> set_new_prev_hash option" where
  "last_prev_hash_in msgs init = foldl (\<lambda>a m. case m of SetNewPrevHash p \<Rightarrow> Some p | _ \<Rightarrow> a) init msgs"

lemma deliver_snapshots [simp]:
  "last_template (snd (deliver_response t r h)) = last_template h"
  "last_prev_hash (snd (deliver_response t r h)) = last_prev_hash h"
  by (auto simp: deliver_response_def Let_def split: option.splits)

lemma observe_snapshots:
  "last_template (fold tee_observe msgs h) = last_template_in msgs (last_template h) \<and>
   last_prev_hash (fold tee_observe msgs h) = last_prev_hash_in msgs (last_prev_hash h)"
proof (induction msgs arbitrary: h)
  case Nil
  then show ?case by (simp add: last_template_in_def last_prev_hash_in_def)
next
  case (Cons m msgs)
  then show ?case
    by (cases m) (simp_all add: last_template_in_def last_prev_hash_in_def record_new_template_def
        record_set_new_prev_hash_def)
qed

text \<open>
  the tee forwards the provider's messages unchanged and in order, all of them as long as the
  channel manager takes them; the engine's snapshots are those of the last template and previous-hash
  messages it saw; and it has seen every message that was forwarded and at most one more.
\<close>

lemma tee_transparent:
  "case spawn_tp_to_cm_tee accepts msgs h of (out, h') \<Rightarrow>
     (\<exists>seen. (seen = out \<or> (\<exists>m. seen = out @ [m])) \<and> take (length seen) msgs = seen \<and>
        h' = fold tee_observe seen h \<and>
        last_template h' = last_template_in seen (last_template h) \<and>
        last_prev_hash h' = last_prev_hash_in seen (last_prev_hash h)) \<and>
     (if accepts (length out) then out = msgs else length out \<le> length msgs)"
proof (cases "spawn_tp_to_cm_tee accepts msgs h")
  case (Pair out h')
  then have loop: "tee_loop accepts 0 msgs h = (out, h')" by (simp add: spawn_tp_to_cm_tee_def)
  from tee_loop_prefix [OF loop] show ?thesis
  proof (elim conjE disjE)
    assume "out = msgs" "h' = fold tee_observe msgs h"
    with Pair show ?thesis
      using observe_snapshots [of msgs h] by auto
  next
    assume short: "length out < length msgs" "\<not> accepts (0 + length out)"
      and h': "h' = fold tee_observe (take (Suc (length out)) msgs) h"
      and pre: "out = take (length out) msgs"
    let ?seen = "take (Suc (length out)) msgs"
    have "?seen = out @ [msgs ! length out]"
      using short(1) pre by (simp add: take_Suc_conv_app_nth)
    moreover have "take (length ?seen) msgs = ?seen" using short(1) by simp
    ultimately show ?thesis
      using Pair short(2) less_imp_le [OF short(1)] h' observe_snapshots [of ?seen h] by auto
  qed
qed

text \<open>
  the merge keeps each source's messages in order, without duplication and, while the
  provider's channel is open, without loss: in every reachable state, the messages of a source that
  went to the provider, then the one that may have been lost, then those still queued are exactly
  the messages that source sent; at most one message of both sources together is lost, only after
  the provider's channel closed, and it ends the task; and a task that ended with nothing lost has
  emptied at least one of the two queues.
\<close>

lemma merge_preserves_order:
  assumes "reach merge_start merge_step s"
  shows "from_source FromCm (tp_out s) @ from_source FromCm (tp_lost s) @ cm_queue s = cm_sent s \<and>
    from_source FromEngine (tp_out s) @ from_source FromEngine (tp_lost s) @ eng_queue s = eng_sent s \<and>
    length (tp_lost s) \<le> 1 \<and> (tp_lost s = [] \<or> tp_closed s \<and> mphase s = Exited) \<and>
    (mphase s \<noteq> Exited \<or> tp_lost s \<noteq> [] \<or> cm_queue s = [] \<or> eng_queue s = [])"
  using merge.inv_reach [OF assms] by (auto simp: merge_inv_def)

text \<open>
  the merge can end with messages undelivered: when both inputs are closed and one is found empty
  first, the task exits at once although the other still has messages queued, here a transaction
  request of the engine.
\<close>

lemma merge_drops_queued:
  "\<exists>s. reach merge_start merge_step s \<and> mphase s = Exited \<and> eng_queue s = [RequestTransactionData t] \<and>
     tp_out s = [] \<and> \<not> tp_closed s"
proof -
  let ?s1 = "eng_push (RequestTransactionData t) merge_new"
  let ?s2 = "?s1\<lparr>eng_closed := True\<rparr>"
  let ?s3 = "?s2\<lparr>cm_closed := True\<rparr>"
  let ?s4 = "?s3\<lparr>mphase := Exited\<rparr>"
  have "reach merge_start merge_step merge_new" by (rule reach_start) (simp add: merge_start_def)
  moreover have "merge_step merge_new ?s1"
    by (rule merge_step.eng_send) (simp add: merge_new_def)
  ultimately have "reach merge_start merge_step ?s1" by (rule reach_step)
  then have "reach merge_start merge_step ?s2" using merge_step.eng_close by (rule reach_step)
  then have "reach merge_start merge_step ?s3" using merge_step.cm_close by (rule reach_step)
  moreover have "merge_step ?s3 ?s4"
    using merge_task.cm_end [of ?s3] by (auto simp: merge_new_def eng_push_def intro: merge_step.task)
  ultimately have "reach merge_start merge_step ?s4" by (rule reach_step)
  then show ?thesis by (intro exI [of _ ?s4]) (simp add: merge_new_def eng_push_def)
qed

theorem merge_preserves_order_witness:
  "\<exists>s. reach merge_start merge_step s \<and>
     from_source FromCm (tp_out s) @ from_source FromCm (tp_lost s) @ cm_queue s = cm_sent s \<and>
     cm_sent s = [OtherTdp [1]]"
proof -
  let ?s = "cm_push (OtherTdp [1]) merge_new"
  have "reach merge_start merge_step merge_new" by (rule reach_start) (simp add: merge_start_def)
  moreover have "merge_step merge_new ?s"
    by (rule merge_step.cm_send) (simp add: merge_new_def)
  ultimately have r: "reach merge_start merge_step ?s" by (rule reach_step)
  from merge_preserves_order [OF r] r show ?thesis
    by (intro exI [of _ ?s]) (simp add: cm_push_def merge_new_def)
qed

end
