(* ===== verification/Chain_Backends.thy ===== *)
theory Chain_Backends
  imports Chain_Walk
begin

text \<open>
  \<open>crates/sv2-p2pool-pool/src/share_chain.rs\<close>: the two share-chain backends behind the engine's
  reader. The in-process store (\<open>p2poolv2_lib\<close>) is a third-party object, the record
  \<open>chain_store\<close>; the daemon is the \<open>rpc_server\<close> of the IPC client. The IPC actor's handshake, its
  request handling and its push callback work on the state \<open>actor\<close>: the tip snapshot, what went to the
  tip broadcast and the height triggers that are queued.
\<close>

section \<open>The in-process backend\<close>

datatype store_error = StoreNotFound string | StoreOther string

record chain_store =
  cs_get_chain_tip :: "store_error + block_hash"
  cs_get_share_header :: "block_hash \<Rightarrow> store_error + block_hash"
  cs_get_tip_height :: "store_error + u32 option"
  cs_network :: network
  cs_fmt :: "store_error \<Rightarrow> string"

definition inproc_get_chain_tip :: "chain_store \<Rightarrow> block_hash option ipc_result" where
  "inproc_get_chain_tip cs =
     (case cs_get_chain_tip cs of
        Inr tip \<Rightarrow> Ok (Some tip)
      | Inl (StoreNotFound _) \<Rightarrow> Ok None
      | Inl e \<Rightarrow> Err (Capnp (''get_chain_tip: '' @ cs_fmt cs e)))"

definition inproc_get_share_header :: "chain_store \<Rightarrow> block_hash \<Rightarrow> share_header_lookup ipc_result" where
  "inproc_get_share_header cs share_hash =
     (if is_zero_hash share_hash then Ok Genesis
      else case cs_get_share_header cs share_hash of
        Inr prev \<Rightarrow> Ok (Found \<lparr>prev_share_blockhash = (if is_zero_hash prev then None else Some prev)\<rparr>)
      | Inl (StoreNotFound _) \<Rightarrow> Ok NotFound
      | Inl e \<Rightarrow> Err (Capnp (''get_share_header: '' @ cs_fmt cs e)))"

definition inproc_get_tip_height :: "chain_store \<Rightarrow> u32 option ipc_result" where
  "inproc_get_tip_height cs =
     (case cs_get_tip_height cs of
        Inr h \<Rightarrow> Ok h
      | Inl e \<Rightarrow> Err (Capnp (''get_tip_height: '' @ cs_fmt cs e)))"

definition in_process_chain :: "chain_store \<Rightarrow> share_chain_reader" where
  "in_process_chain cs =
     \<lparr>rd_get_chain_tip = inproc_get_chain_tip cs, rd_get_share_header = inproc_get_share_header cs,
      rd_get_tip_height = inproc_get_tip_height cs, rd_network = cs_network cs\<rparr>"

interpretation inproc_reader: share_reader "inproc_get_share_header cs" for cs
  by unfold_locales (auto simp: inproc_get_share_header_def split: if_splits sum.splits store_error.splits)

section \<open>The tip snapshot\<close>

record atomic_tip_snapshot =
  tip_set :: bool
  snap_tip :: block_hash
  height_set :: bool
  snap_height :: u32

definition snapshot_empty :: atomic_tip_snapshot where
  "snapshot_empty = \<lparr>tip_set = False, snap_tip = all_zeros, height_set = False, snap_height = 0\<rparr>"

definition load_tip :: "atomic_tip_snapshot \<Rightarrow> block_hash option" where
  "load_tip s = (if \<not> tip_set s then None else Some (snap_tip s))"

definition load_height :: "atomic_tip_snapshot \<Rightarrow> u32 option" where
  "load_height s = (if \<not> height_set s then None else Some (snap_height s))"

definition store_tip :: "block_hash \<Rightarrow> atomic_tip_snapshot \<Rightarrow> atomic_tip_snapshot" where
  "store_tip tip s = s\<lparr>snap_tip := tip, tip_set := True\<rparr>"

definition store_height :: "u32 \<Rightarrow> atomic_tip_snapshot \<Rightarrow> atomic_tip_snapshot" where
  "store_height h s = s\<lparr>snap_height := h, height_set := True\<rparr>"

section \<open>The actor\<close>

record actor =
  snapshot :: atomic_tip_snapshot
  tip_broadcast :: "block_hash list"
  height_triggers :: nat
  subscribed :: bool

definition actor_new :: actor where
  "actor_new = \<lparr>snapshot = snapshot_empty, tip_broadcast = [], height_triggers = 0, subscribed = False\<rparr>"

definition height_trigger_capacity :: nat where
  "height_trigger_capacity = 8"

text \<open>
  The push callback: a payload that is not 32 bytes is ignored, everything else is stored, broadcast
  and triggers a height fetch, unless the trigger channel is full.
\<close>

definition on_tip_push :: "bytes \<Rightarrow> actor \<Rightarrow> actor" where
  "on_tip_push bs a =
     (if length bs \<noteq> 32 then a
      else a\<lparr>snapshot := store_tip bs (snapshot a), tip_broadcast := tip_broadcast a @ [bs],
             height_triggers := (if height_triggers a < height_trigger_capacity
                                 then Suc (height_triggers a) else height_triggers a)\<rparr>)"

text \<open>
  One round of the height fetcher: it drains the triggers and makes one call.
\<close>

definition fetch_height :: "rpc_server \<Rightarrow> actor \<Rightarrow> actor" where
  "fetch_height S a =
     (if height_triggers a = 0 then a
      else let a' = a\<lparr>height_triggers := 0\<rparr>
           in case ipc_get_tip_height S of
                Ok (Height h) \<Rightarrow> a'\<lparr>snapshot := store_height h (snapshot a')\<rparr>
              | _ \<Rightarrow> a')"

definition init_tip :: "rpc_server \<Rightarrow> actor \<Rightarrow> actor" where
  "init_tip S a =
     (case ipc_get_chain_tip S of
        Ok (Tip tip) \<Rightarrow> a\<lparr>snapshot := store_tip tip (snapshot a)\<rparr>
      | _ \<Rightarrow> a)"

definition init_height :: "rpc_server \<Rightarrow> actor \<Rightarrow> actor" where
  "init_height S a =
     (case ipc_get_tip_height S of
        Ok (Height h) \<Rightarrow> a\<lparr>snapshot := store_height h (snapshot a)\<rparr>
      | _ \<Rightarrow> a)"

definition init_subscribe :: "rpc_server \<Rightarrow> actor \<Rightarrow> actor" where
  "init_subscribe S a =
     (case ipc_subscribe_chain_tip S of Ok _ \<Rightarrow> a\<lparr>subscribed := True\<rparr> | _ \<Rightarrow> a)"

definition actor_main_init :: "rpc_server \<Rightarrow> string \<Rightarrow> actor \<Rightarrow> network ipc_result \<times> actor" where
  "actor_main_init S socket_path a =
     (case ipc_connect S socket_path of
        Err e \<Rightarrow> (Err e, a)
      | Panic \<Rightarrow> (Panic, a)
      | Ok _ \<Rightarrow>
          (case ipc_get_network S of
             Err e \<Rightarrow> (Err e, a)
           | Panic \<Rightarrow> (Panic, a)
           | Ok net \<Rightarrow> (Ok net, init_subscribe S (init_height S (init_tip S a)))))"

text \<open>
  What the operating system and the runtime answer when the backend spawns its actor thread and the
  watchdog, awaits the initial handshake on a blocking task and, in the actor thread, builds a
  runtime.
\<close>

record spawn_results =
  spawn_actor :: "string + unit"
  spawn_watchdog :: "string + unit"
  join_init :: "string + unit"
  build_runtime :: "string + unit"

definition actor_thread_main :: "string + unit \<Rightarrow> rpc_server \<Rightarrow> string \<Rightarrow> actor \<Rightarrow> network ipc_result \<times> actor" where
  "actor_thread_main runtime S socket_path a =
     (case runtime of
        Inl e \<Rightarrow> (Err (Capnp (''build current-thread runtime: '' @ e)), a)
      | Inr _ \<Rightarrow> actor_main_init S socket_path a)"

definition ipc_chain_connect ::
  "spawn_results \<Rightarrow> rpc_server \<Rightarrow> string \<Rightarrow> (ipc_client_error, network \<times> actor) result" where
  "ipc_chain_connect T S socket_path =
     rbind (sum_result (\<lambda>e. Capnp (''spawn IpcChain actor thread: '' @ e)) (spawn_actor T)) (\<lambda>_.
     rbind (sum_result (\<lambda>e. Capnp (''spawn IpcChain watchdog thread: '' @ e)) (spawn_watchdog T)) (\<lambda>_.
     rbind (sum_result (\<lambda>e. Capnp (''IpcChain init blocking task panicked: '' @ e)) (join_init T)) (\<lambda>_.
     case actor_thread_main (build_runtime T) S socket_path actor_new of
        (Ok net, a) \<Rightarrow> Ok (net, a)
      | (Err e, a) \<Rightarrow> Err e
      | (Panic, a) \<Rightarrow> Err (Capnp ''IpcChain actor thread exited before init''))))"

section \<open>Requests\<close>

fun map_lookup :: "share_header_lookup \<Rightarrow> share_header_lookup" where
  "map_lookup (Found read) = Found \<lparr>prev_share_blockhash = prev_share_blockhash read\<rparr>"
| "map_lookup NotFound = NotFound"
| "map_lookup Genesis = Genesis"

fun tip_option :: "chain_tip_result \<Rightarrow> block_hash option" where
  "tip_option (Tip t) = Some t"
| "tip_option TipUninitialised = None"

fun height_option :: "tip_height_result \<Rightarrow> u32 option" where
  "height_option (Height h) = Some h"
| "height_option HeightUninitialised = None"

text \<open>
  A round trip through the actor: the request channel can be closed, and the reply can be dropped.
\<close>

datatype actor_link = LinkUp | RequestClosed | ReplyDropped

definition actor_call :: "actor_link \<Rightarrow> 'a ipc_result \<Rightarrow> 'a ipc_result" where
  "actor_call link r =
     (case link of
        RequestClosed \<Rightarrow> Err (Capnp ''IpcChain actor request channel closed'')
      | ReplyDropped \<Rightarrow> Err (Capnp ''IpcChain actor dropped reply channel'')
      | LinkUp \<Rightarrow> (case r of Panic \<Rightarrow> Err (Capnp ''IpcChain actor dropped reply channel'') | _ \<Rightarrow> r))"

definition ipcchain_get_chain_tip :: "actor_link \<Rightarrow> rpc_server \<Rightarrow> block_hash option ipc_result" where
  "ipcchain_get_chain_tip link S = actor_call link (rbind (ipc_get_chain_tip S) (\<lambda>r. Ok (tip_option r)))"

definition ipcchain_get_share_header ::
  "actor_link \<Rightarrow> rpc_server \<Rightarrow> block_hash \<Rightarrow> share_header_lookup ipc_result" where
  "ipcchain_get_share_header link S h =
     actor_call link (rbind (ipc_get_share_header S h) (\<lambda>r. Ok (map_lookup r)))"

definition ipcchain_get_tip_height :: "actor_link \<Rightarrow> rpc_server \<Rightarrow> u32 option ipc_result" where
  "ipcchain_get_tip_height link S = actor_call link (rbind (ipc_get_tip_height S) (\<lambda>r. Ok (height_option r)))"

definition ipc_chain :: "actor_link \<Rightarrow> rpc_server \<Rightarrow> network \<Rightarrow> share_chain_reader" where
  "ipc_chain link S net =
     \<lparr>rd_get_chain_tip = ipcchain_get_chain_tip link S,
      rd_get_share_header = ipcchain_get_share_header link S,
      rd_get_tip_height = ipcchain_get_tip_height link S, rd_network = net\<rparr>"

lemma map_lookup_id [simp]: "map_lookup l = l"
  by (cases l) auto

lemma actor_call_Ok_iff [simp]: "actor_call link r = Ok a \<longleftrightarrow> link = LinkUp \<and> r = Ok a"
  by (auto simp: actor_call_def split: actor_link.splits result.splits)

lemma actor_call_no_Panic [simp]: "actor_call link r \<noteq> Panic"
  by (auto simp: actor_call_def split: actor_link.splits result.splits)

interpretation ipcchain_reader: share_reader "ipcchain_get_share_header link S" for link S
  by unfold_locales
    (auto simp: ipcchain_get_share_header_def rbind_iffs dest: ipc_get_share_header_Found)

section \<open>Properties\<close>

text \<open>
  The daemon that serves a store: what the schema's answers are when a daemon answers for the same
  store, with its documented encodings (the sentinel query is \<open>genesis\<close>, a missing share
  \<open>notFound\<close>, an uninitialised store \<open>uninitialised\<close>). When the store fails otherwise, the call fails;
  its message is the RPC layer's and is not fixed.
\<close>

definition serves :: "rpc_server \<Rightarrow> chain_store \<Rightarrow> bool" where
  "serves S cs \<longleftrightarrow>
     (case cs_get_chain_tip cs of
        Inr tip \<Rightarrow> rpc_get_chain_tip S = Which (WireTip (Inr tip))
      | Inl (StoreNotFound _) \<Rightarrow> rpc_get_chain_tip S = Which WireTipUninit
      | Inl _ \<Rightarrow> (\<exists>m. rpc_get_chain_tip S = CapnpError m)) \<and>
     (\<forall>h. if is_zero_hash h then rpc_get_share_header S h = Which WireGenesis
        else case cs_get_share_header cs h of
          Inr prev \<Rightarrow> rpc_get_share_header S h = Which (WireFound (Inr prev))
        | Inl (StoreNotFound _) \<Rightarrow> rpc_get_share_header S h = Which WireNotFound
        | Inl _ \<Rightarrow> (\<exists>m. rpc_get_share_header S h = CapnpError m)) \<and>
     (case cs_get_tip_height cs of
        Inr (Some n) \<Rightarrow> rpc_get_tip_height S = Which (WireHeight n)
      | Inr None \<Rightarrow> rpc_get_tip_height S = Which WireHeightUninit
      | Inl _ \<Rightarrow> (\<exists>m. rpc_get_tip_height S = CapnpError m))"

definition store_typed :: "chain_store \<Rightarrow> bool" where
  "store_typed cs \<longleftrightarrow>
     (\<forall>t. cs_get_chain_tip cs = Inr t \<longrightarrow> length t = 32) \<and>
     (\<forall>h p. cs_get_share_header cs h = Inr p \<longrightarrow> length p = 32)"

text \<open>
  Two answers agree when both are the same value or both are errors, whatever the messages.
\<close>

fun same_answer :: "'a ipc_result \<Rightarrow> 'a ipc_result \<Rightarrow> bool" where
  "same_answer (Ok a) (Ok b) = (a = b)"
| "same_answer (Err _) (Err _) = True"
| "same_answer _ _ = False"

lemma walk_same_answers:
  assumes "\<And>h. same_answer (lookup h) (lookup' h)"
  shows "ancestry_walk lookup n c anc = ancestry_walk lookup' n c anc"
proof (induction n arbitrary: c anc)
  case (Suc n)
  then show ?case using assms [of c]
    by (cases "lookup c"; cases "lookup' c") (auto split: share_header_lookup.splits option.splits)
qed simp

lemma serves_tip:
  assumes "serves S cs" and "store_typed cs"
  shows "same_answer (ipcchain_get_chain_tip LinkUp S) (inproc_get_chain_tip cs)"
proof (cases "cs_get_chain_tip cs")
  case (Inl e)
  with assms show ?thesis
    by (cases e) (auto simp: serves_def ipcchain_get_chain_tip_def actor_call_def ipc_get_chain_tip_def
        inproc_get_chain_tip_def)
qed (use assms in \<open>auto simp: serves_def store_typed_def ipcchain_get_chain_tip_def actor_call_def
    ipc_get_chain_tip_def inproc_get_chain_tip_def decode_block_hash_def\<close>)

lemma serves_header:
  assumes "serves S cs" and "store_typed cs"
  shows "same_answer (ipcchain_get_share_header LinkUp S h) (inproc_get_share_header cs h)"
proof -
  from assms(1) have S: "if is_zero_hash h then rpc_get_share_header S h = Which WireGenesis
      else case cs_get_share_header cs h of
        Inr prev \<Rightarrow> rpc_get_share_header S h = Which (WireFound (Inr prev))
      | Inl (StoreNotFound _) \<Rightarrow> rpc_get_share_header S h = Which WireNotFound
      | Inl _ \<Rightarrow> (\<exists>m. rpc_get_share_header S h = CapnpError m)"
    by (simp add: serves_def)
  show ?thesis
  proof (cases "cs_get_share_header cs h")
    case (Inl e)
    with S show ?thesis
      by (cases e) (auto simp: ipcchain_get_share_header_def actor_call_def ipc_get_share_header_def
          inproc_get_share_header_def split: if_splits)
  next
    case (Inr prev)
    with S assms(2) show ?thesis
      by (auto simp: store_typed_def ipcchain_get_share_header_def actor_call_def ipc_get_share_header_def
          inproc_get_share_header_def decode_block_hash_def split: if_splits)
  qed
qed

lemma serves_height:
  assumes "serves S cs"
  shows "same_answer (ipcchain_get_tip_height LinkUp S) (inproc_get_tip_height cs)"
  using assms
  by (cases "cs_get_tip_height cs")
    (auto simp: serves_def ipcchain_get_tip_height_def actor_call_def ipc_get_tip_height_def
      inproc_get_tip_height_def split: option.splits)

text \<open>
  C18: the two backends are interchangeable: when a daemon answers for a store with the schema's
  encodings, and fails when the store fails, every accessor of the IPC backend over it returns the same
  value as the in-process backend over the store itself, or both return an error (the messages may
  differ); so the ancestry walk of a reorg notification, which only looks at whether a lookup failed,
  has the same outcome over both.
\<close>

theorem backends_agree:
  assumes "serves S cs" and "store_typed cs"
  shows "let ipc = ipc_chain LinkUp S (cs_network cs); local = in_process_chain cs
    in same_answer (rd_get_chain_tip ipc) (rd_get_chain_tip local) \<and>
       (\<forall>h. same_answer (rd_get_share_header ipc h) (rd_get_share_header local h)) \<and>
       same_answer (rd_get_tip_height ipc) (rd_get_tip_height local) \<and>
       rd_network ipc = rd_network local \<and>
       (\<forall>n c anc. ancestry_walk (rd_get_share_header ipc) n c anc = ancestry_walk (rd_get_share_header local) n c anc)"
  using serves_tip [OF assms] serves_header [OF assms] serves_height [OF assms(1)]
    walk_same_answers [of "ipcchain_get_share_header LinkUp S" "inproc_get_share_header cs", OF serves_header [OF assms]]
  by (simp add: Let_def ipc_chain_def in_process_chain_def)

definition sample_store :: chain_store where
  "sample_store = \<lparr>cs_get_chain_tip = Inr (replicate 32 3),
     cs_get_share_header = (\<lambda>h. if h = replicate 32 3 then Inr all_zeros else Inl (StoreNotFound [])),
     cs_get_tip_height = Inr (Some 1), cs_network = Signet, cs_fmt = (\<lambda>_. ''?'')\<rparr>"

definition sample_daemon :: rpc_server where
  "sample_daemon = \<lparr>rpc_connect = Inr (), rpc_validate_template = (\<lambda>_ _ _ _. Which WireOk),
     rpc_submit_solution = (\<lambda>_ _. Inr True), rpc_subscribe_chain_tip = Inr (),
     rpc_get_chain_tip = Which (WireTip (Inr (replicate 32 3))),
     rpc_get_share_header = (\<lambda>h. if is_zero_hash h then Which WireGenesis
        else if h = replicate 32 3 then Which (WireFound (Inr all_zeros)) else Which WireNotFound),
     rpc_get_tip_height = Which (WireHeight 1), rpc_get_network = Which WireSignet,
     rpc_utf8 = (\<lambda>_. Inr [])\<rparr>"

text \<open>
  A store whose height and one of whose headers cannot be read, and a daemon with messages of its own.
\<close>

definition failing_store :: chain_store where
  "failing_store = sample_store\<lparr>cs_get_tip_height := Inl (StoreOther ''io''),
     cs_get_share_header := (\<lambda>h. if h = replicate 32 3 then Inr (replicate 32 2) else Inl (StoreOther ''io''))\<rparr>"

definition failing_daemon :: rpc_server where
  "failing_daemon = sample_daemon\<lparr>rpc_get_tip_height := CapnpError ''remote exception: height'',
     rpc_get_share_header := (\<lambda>h. if is_zero_hash h then Which WireGenesis
        else if h = replicate 32 3 then Which (WireFound (Inr (replicate 32 2))) else CapnpError ''remote exception'')\<rparr>"

theorem backends_agree_witness:
  "same_answer (rd_get_chain_tip (ipc_chain LinkUp sample_daemon Signet)) (Ok (Some (replicate 32 3))) \<and>
   same_answer (rd_get_tip_height (ipc_chain LinkUp failing_daemon Signet)) (rd_get_tip_height (in_process_chain failing_store)) \<and>
   rd_get_tip_height (ipc_chain LinkUp failing_daemon Signet) \<noteq> rd_get_tip_height (in_process_chain failing_store) \<and>
   ancestry_walk (rd_get_share_header (ipc_chain LinkUp failing_daemon Signet)) 2 (replicate 32 3) [] = WalkFailed"
proof -
  have ok: "serves sample_daemon sample_store" "store_typed sample_store"
    by (auto simp: serves_def store_typed_def sample_daemon_def sample_store_def)
  have err: "serves failing_daemon failing_store" "store_typed failing_store"
    by (auto simp: serves_def store_typed_def failing_daemon_def failing_store_def sample_daemon_def sample_store_def)
  have net: "cs_network sample_store = Signet" "cs_network failing_store = Signet"
    by (simp_all add: failing_store_def sample_store_def)
  have not_zero: "\<not> is_zero_hash (replicate 32 b)" if "b \<noteq> 0" for b
    using that by (simp add: is_zero_hash_def list_all_iff)
  have "replicate 32 3 \<noteq> replicate 32 (2 :: byte)" by (simp add: replicate_eq_replicate)
  then have "ancestry_walk (rd_get_share_header (in_process_chain failing_store)) (Suc (Suc 0)) (replicate 32 3) [] = WalkFailed"
    using not_zero [of 3] not_zero [of 2]
    by (simp add: in_process_chain_def inproc_get_share_header_def failing_store_def)
  then have "ancestry_walk (rd_get_share_header (in_process_chain failing_store)) 2 (replicate 32 3) [] = WalkFailed"
    by (simp only: numeral_2_eq_2)
  with backends_agree [OF ok] backends_agree [OF err] show ?thesis
    unfolding net
    by (simp add: Let_def in_process_chain_def inproc_get_chain_tip_def inproc_get_tip_height_def ipc_chain_def
        ipcchain_get_tip_height_def actor_call_def ipc_get_tip_height_def failing_store_def failing_daemon_def
        sample_store_def sample_daemon_def)
qed

lemma on_tip_push_facts:
  "load_tip (snapshot (on_tip_push bs a)) = (if length bs = 32 then Some bs else load_tip (snapshot a))"
  "tip_broadcast (on_tip_push bs a) = tip_broadcast a @ (if length bs = 32 then [bs] else [])"
  "height_triggers a = min n height_trigger_capacity \<Longrightarrow>
     height_triggers (on_tip_push bs a) = min (if length bs = 32 then Suc n else n) height_trigger_capacity"
  by (auto simp: on_tip_push_def load_tip_def store_tip_def)

text \<open>
  over any sequence of tip pushes, what the reorg watcher reads from the snapshot is the last
  well-formed tip pushed, subscribers get every well-formed tip in order, malformed payloads change
  nothing, and a burst of any length leaves at most eight height fetches queued and at least one if
  a tip arrived.
\<close>

lemma tip_pushes:
  "let a' = foldl (\<lambda>a bs. on_tip_push bs a) actor_new pushes;
       good = filter (\<lambda>bs. length bs = 32) pushes in
   load_tip (snapshot a') = (if good = [] then None else Some (last good)) \<and>
   tip_broadcast a' = good \<and>
   height_triggers a' = min (length good) height_trigger_capacity"
proof (induction pushes rule: rev_induct)
  case Nil
  then show ?case by (simp add: actor_new_def load_tip_def snapshot_empty_def)
next
  case (snoc p ps)
  let ?a = "foldl (\<lambda>a bs. on_tip_push bs a) actor_new ps"
  let ?good = "filter (\<lambda>bs. length bs = 32) ps"
  from snoc have IH: "load_tip (snapshot ?a) = (if ?good = [] then None else Some (last ?good))"
    "tip_broadcast ?a = ?good" "height_triggers ?a = min (length ?good) height_trigger_capacity"
    by (simp_all add: Let_def)
  show ?case
    using IH(1,2) on_tip_push_facts(3) [OF IH(3), of p]
    by (simp add: Let_def on_tip_push_facts(1,2))
qed

definition spawn_failure :: "spawn_results \<Rightarrow> string option" where
  "spawn_failure T =
     (case (spawn_actor T, spawn_watchdog T, join_init T, build_runtime T) of
        (Inl e, _) \<Rightarrow> Some (''spawn IpcChain actor thread: '' @ e)
      | (Inr _, Inl e, _) \<Rightarrow> Some (''spawn IpcChain watchdog thread: '' @ e)
      | (Inr _, Inr _, Inl e, _) \<Rightarrow> Some (''IpcChain init blocking task panicked: '' @ e)
      | (Inr _, Inr _, Inr _, Inl e) \<Rightarrow> Some (''build current-thread runtime: '' @ e)
      | _ \<Rightarrow> None)"

text \<open>
  the handshake of the IPC backend: connecting succeeds exactly when its threads start, the socket
  connects and the daemon names a known network; the initial tip, the height and the subscription
  are best-effort and never make it fail. A snapshot it fills holds the daemon's tip and height.
  Each failure is reported as the first step that failed, and connecting never panics.
\<close>

lemma ipc_connect_outcome:
  "case ipc_chain_connect T S path of
     Ok (net, a) \<Rightarrow>
       spawn_failure T = None \<and> rpc_connect S = Inr () \<and> ipc_get_network S = Ok net \<and>
       load_tip (snapshot a) = (case ipc_get_chain_tip S of Ok (Tip t) \<Rightarrow> Some t | _ \<Rightarrow> None) \<and>
       load_height (snapshot a) = (case ipc_get_tip_height S of Ok (Height h) \<Rightarrow> Some h | _ \<Rightarrow> None) \<and>
       (subscribed a \<longleftrightarrow> rpc_subscribe_chain_tip S = Inr ())
   | Err e \<Rightarrow> (\<exists>m. spawn_failure T = Some m \<and> e = Capnp m) \<or>
       spawn_failure T = None \<and>
       ((\<exists>src. rpc_connect S = Inl src \<and> e = ConnectError path src) \<or>
        (rpc_connect S = Inr () \<and> ipc_get_network S = Err e))
   | Panic \<Rightarrow> False"
proof -
  have no_panic: "ipc_get_network S \<noteq> Panic"
    by (auto simp: ipc_get_network_def rbind_iffs split: wire_network.splits)
  have snap: "load_tip (snapshot (init_subscribe S (init_height S (init_tip S actor_new)))) =
      (case ipc_get_chain_tip S of Ok (Tip t) \<Rightarrow> Some t | _ \<Rightarrow> None)"
    "load_height (snapshot (init_subscribe S (init_height S (init_tip S actor_new)))) =
      (case ipc_get_tip_height S of Ok (Height h) \<Rightarrow> Some h | _ \<Rightarrow> None)"
    "subscribed (init_subscribe S (init_height S (init_tip S actor_new))) \<longleftrightarrow> rpc_subscribe_chain_tip S = Inr ()"
    by (auto simp: init_subscribe_def init_height_def init_tip_def actor_new_def load_tip_def load_height_def
        store_tip_def store_height_def snapshot_empty_def ipc_subscribe_chain_tip_def
        split: result.splits chain_tip_result.splits tip_height_result.splits)
  show ?thesis
  proof (cases "spawn_failure T")
    case None
    then have "spawn_actor T = Inr ()" "spawn_watchdog T = Inr ()" "join_init T = Inr ()" "build_runtime T = Inr ()"
      by (auto simp: spawn_failure_def split: sum.splits)
    then show ?thesis
      using None no_panic snap
      by (auto simp: ipc_chain_connect_def actor_thread_main_def actor_main_init_def ipc_connect_def
          split: result.splits sum.splits)
  next
    case (Some m)
    then have "ipc_chain_connect T S path = Err (Capnp m)"
      by (auto simp: spawn_failure_def ipc_chain_connect_def actor_thread_main_def split: sum.splits)
    with Some show ?thesis by simp
  qed
qed

end
