(* ===== verification/Ipc_Actor.thy ===== *)
theory Ipc_Actor
  imports Chain_Backends
begin

text \<open>
  The running IPC actor of \<open>crates/sv2-p2pool-pool/src/share_chain.rs\<close>: any number of callers of the
  \<open>IpcChain\<close> reader against the request loop, its spawned tasks, a daemon whose state changes, the end
  of the actor thread and the watchdog. \<open>Chain_Backends\<close> describes one call on its own; here every
  result of a call in the running system is shown to be one that description allows. \<open>c_seen\<close> is
  auxiliary: the states the daemon has had since the call was made.
\<close>

section \<open>Requests and replies\<close>

datatype ipc_request = GetChainTip | GetShareHeader block_hash | GetTipHeight

datatype ipc_reply =
    TipReply "block_hash option ipc_result"
  | HeaderReply "share_header_lookup ipc_result"
  | HeightReply "u32 option ipc_result"

fun serve_request :: "rpc_server \<Rightarrow> ipc_request \<Rightarrow> ipc_reply" where
  "serve_request S GetChainTip = TipReply (rbind (ipc_get_chain_tip S) (\<lambda>r. Ok (tip_option r)))"
| "serve_request S (GetShareHeader h) = HeaderReply (rbind (ipc_get_share_header S h) (\<lambda>r. Ok (map_lookup r)))"
| "serve_request S GetTipHeight = HeightReply (rbind (ipc_get_tip_height S) (\<lambda>r. Ok (height_option r)))"

fun task_panics :: "ipc_reply \<Rightarrow> bool" where
  "task_panics (TipReply r) = (r = Panic)"
| "task_panics (HeaderReply r) = (r = Panic)"
| "task_panics (HeightReply r) = (r = Panic)"

fun error_reply :: "ipc_request \<Rightarrow> ipc_client_error \<Rightarrow> ipc_reply" where
  "error_reply GetChainTip e = TipReply (Err e)"
| "error_reply (GetShareHeader h) e = HeaderReply (Err e)"
| "error_reply GetTipHeight e = HeightReply (Err e)"

text \<open>
  The reply channel of a call: \<open>Abandoned\<close> when the caller has dropped the future, \<open>SenderDropped\<close> when
  the actor's side has gone without an answer, \<open>Refused\<close> when the request channel was closed.
\<close>

datatype reply_slot = Waiting | Sent ipc_reply | SenderDropped | Refused | Abandoned

record ipc_call =
  c_req :: ipc_request
  c_slot :: reply_slot
  c_seen :: "rpc_server list"

fun call_result :: "ipc_request \<Rightarrow> reply_slot \<Rightarrow> ipc_reply option" where
  "call_result req Waiting = None"
| "call_result req Abandoned = None"
| "call_result req (Sent r) = Some r"
| "call_result req SenderDropped = Some (error_reply req (Capnp ''IpcChain actor dropped reply channel''))"
| "call_result req Refused = Some (error_reply req (Capnp ''IpcChain actor request channel closed''))"

section \<open>The running actor\<close>

datatype actor_phase = ActorUp | ActorGone

record actor_sys =
  daemon :: rpc_server
  ipc_calls :: "nat \<rightharpoonup> ipc_call"
  cmd_rx :: "(nat \<times> ipc_request) list"
  in_flight :: "(nat \<times> ipc_request) list"
  actor_phase :: actor_phase
  handle_open :: bool
  connecting :: bool
  watch_receivers :: nat
  watch_value :: bool
  watchdog_done :: bool

definition request_channel_capacity :: nat where
  "request_channel_capacity = 256"

definition sys_connected :: "rpc_server \<Rightarrow> actor_sys" where
  "sys_connected S =
     \<lparr>daemon = S, ipc_calls = Map.empty, cmd_rx = [], in_flight = [], actor_phase = ActorUp, handle_open = True,
      connecting = True, watch_receivers = 1, watch_value = False, watchdog_done = False\<rparr>"

definition new_call :: "ipc_request \<Rightarrow> reply_slot \<Rightarrow> rpc_server \<Rightarrow> ipc_call" where
  "new_call req slot S = \<lparr>c_req = req, c_slot = slot, c_seen = [S]\<rparr>"

text \<open>A channel end fills the slot of a caller that still waits; nobody hears of an abandoned one.\<close>

definition fill_slot :: "reply_slot \<Rightarrow> ipc_call \<Rightarrow> ipc_call" where
  "fill_slot slot c = (if c_slot c = Waiting then c\<lparr>c_slot := slot\<rparr> else c)"

definition fill_call :: "nat \<Rightarrow> reply_slot \<Rightarrow> actor_sys \<Rightarrow> actor_sys" where
  "fill_call n slot s = s\<lparr>ipc_calls := (ipc_calls s)(n := map_option (fill_slot slot) (ipc_calls s n))\<rparr>"

definition reply_task :: "nat \<Rightarrow> ipc_request \<Rightarrow> actor_sys \<Rightarrow> actor_sys" where
  "reply_task n req s =
     (let r = serve_request (daemon s) req
      in fill_call n (if task_panics r then SenderDropped else Sent r)
           (s\<lparr>in_flight := filter (\<lambda>q. fst q \<noteq> n) (in_flight s)\<rparr>))"

text \<open>When \<open>actor_main\<close> ends, the runtime drops the queue and every task that has not finished.\<close>

definition actor_ends :: "actor_sys \<Rightarrow> actor_sys" where
  "actor_ends s =
     s\<lparr>actor_phase := ActorGone, cmd_rx := [], in_flight := [],
       ipc_calls := (\<lambda>n. map_option (fill_slot SenderDropped) (ipc_calls s n))\<rparr>"

text \<open>\<open>watch::Sender::send\<close> leaves the value alone when there is no receiver.\<close>

definition watchdog_fires :: "actor_sys \<Rightarrow> actor_sys" where
  "watchdog_fires s =
     s\<lparr>watchdog_done := True, watch_value := (if watch_receivers s = 0 then watch_value s else True)\<rparr>"

definition daemon_moves :: "rpc_server \<Rightarrow> actor_sys \<Rightarrow> actor_sys" where
  "daemon_moves S s =
     s\<lparr>daemon := S,
       ipc_calls := (\<lambda>n. map_option (\<lambda>c. if c_slot c = Waiting then c\<lparr>c_seen := c_seen c @ [S]\<rparr> else c) (ipc_calls s n))\<rparr>"

inductive actor_step :: "actor_sys \<Rightarrow> actor_sys \<Rightarrow> bool" where
  call_sent: "ipc_calls s n = None \<Longrightarrow> handle_open s \<Longrightarrow> actor_phase s = ActorUp \<Longrightarrow>
     length (cmd_rx s) < request_channel_capacity \<Longrightarrow>
     actor_step s (s\<lparr>ipc_calls := (ipc_calls s)(n \<mapsto> new_call req Waiting (daemon s)), cmd_rx := cmd_rx s @ [(n, req)]\<rparr>)"
| call_refused: "ipc_calls s n = None \<Longrightarrow> handle_open s \<Longrightarrow> actor_phase s = ActorGone \<Longrightarrow>
     actor_step s (s\<lparr>ipc_calls := (ipc_calls s)(n \<mapsto> new_call req Refused (daemon s))\<rparr>)"
| loop_takes: "actor_phase s = ActorUp \<Longrightarrow> cmd_rx s = (n, req) # rest \<Longrightarrow>
     actor_step s (s\<lparr>cmd_rx := rest, in_flight := in_flight s @ [(n, req)]\<rparr>)"
| task_replies: "actor_phase s = ActorUp \<Longrightarrow> (n, req) \<in> set (in_flight s) \<Longrightarrow> actor_step s (reply_task n req s)"
| caller_gives_up: "ipc_calls s n = Some c \<Longrightarrow> actor_step s (fill_call n Abandoned s)"
| daemon_moves: "actor_step s (daemon_moves S s)"
| handle_dropped: "\<forall>n c. ipc_calls s n = Some c \<longrightarrow> c_slot c \<noteq> Waiting \<Longrightarrow> actor_step s (s\<lparr>handle_open := False\<rparr>)"
| loop_ends: "actor_phase s = ActorUp \<Longrightarrow> \<not> handle_open s \<Longrightarrow> cmd_rx s = [] \<Longrightarrow> actor_step s (actor_ends s)"
| thread_panics: "actor_phase s = ActorUp \<Longrightarrow> actor_step s (actor_ends s)"
| watchdog: "actor_phase s = ActorGone \<Longrightarrow> \<not> watchdog_done s \<Longrightarrow> actor_step s (watchdog_fires s)"
| connect_returns: "connecting s \<Longrightarrow> actor_step s (s\<lparr>connecting := False, watch_receivers := watch_receivers s - 1\<rparr>)"
| subscribe_shutdown: "\<not> connecting s \<Longrightarrow> handle_open s \<Longrightarrow>
     actor_step s (s\<lparr>watch_receivers := Suc (watch_receivers s)\<rparr>)"
| receiver_dropped: "\<not> connecting s \<Longrightarrow> actor_step s (s\<lparr>watch_receivers := watch_receivers s - 1\<rparr>)"

inductive_cases actor_stepE: "actor_step s t"

definition actor_start :: "actor_sys \<Rightarrow> bool" where
  "actor_start s = (\<exists>S. s = sys_connected S)"

section \<open>The invariant\<close>

text \<open>A request that is queued or in flight belongs to a call with that request.\<close>

abbreviation held :: "actor_sys \<Rightarrow> (nat \<times> ipc_request) list" where
  "held s \<equiv> cmd_rx s @ in_flight s"

definition call_ok :: "actor_sys \<Rightarrow> nat \<Rightarrow> ipc_call \<Rightarrow> bool" where
  "call_ok s n c =
     (c_seen c \<noteq> [] \<and>
      (case c_slot c of
         Waiting \<Rightarrow> daemon s \<in> set (c_seen c) \<and> actor_phase s = ActorUp \<and> (n, c_req c) \<in> set (held s)
       | Sent r \<Rightarrow> \<not> task_panics r \<and> (\<exists>S \<in> set (c_seen c). r = serve_request S (c_req c))
       | Refused \<Rightarrow> actor_phase s = ActorGone
       | _ \<Rightarrow> True))"

definition actor_inv :: "actor_sys \<Rightarrow> bool" where
  "actor_inv s =
     ((\<forall>n c. ipc_calls s n = Some c \<longrightarrow> call_ok s n c) \<and>
      (\<forall>n req. (n, req) \<in> set (held s) \<longrightarrow> (\<exists>c. ipc_calls s n = Some c \<and> c_req c = req)) \<and>
      length (cmd_rx s) \<le> request_channel_capacity)"

lemma fill_slot_simps [simp]:
  "c_req (fill_slot sl c) = c_req c" "c_seen (fill_slot sl c) = c_seen c"
  "c_slot (fill_slot sl c) = (if c_slot c = Waiting then sl else c_slot c)"
  by (simp_all add: fill_slot_def)

lemma actor_invI:
  assumes "\<And>n c. ipc_calls s n = Some c \<Longrightarrow> call_ok s n c"
    and "\<And>n req. (n, req) \<in> set (held s) \<Longrightarrow> \<exists>c. ipc_calls s n = Some c \<and> c_req c = req"
    and "length (cmd_rx s) \<le> request_channel_capacity"
  shows "actor_inv s"
  unfolding actor_inv_def using assms by blast

lemma actor_invD:
  assumes "actor_inv s"
  shows "ipc_calls s n = Some c \<Longrightarrow> call_ok s n c"
    and "(n, req) \<in> set (held s) \<Longrightarrow> \<exists>c. ipc_calls s n = Some c \<and> c_req c = req"
    and "length (cmd_rx s) \<le> request_channel_capacity"
  using assms unfolding actor_inv_def by blast+

lemma inv_watch:
  assumes "actor_inv s" and "daemon t = daemon s" "ipc_calls t = ipc_calls s" "cmd_rx t = cmd_rx s"
    "in_flight t = in_flight s" "actor_phase t = actor_phase s"
  shows "actor_inv t"
  using assms by (simp add: actor_inv_def call_ok_def cong: reply_slot.case_cong)

text \<open>A change of the calls alone that keeps their requests.\<close>

lemma inv_map_calls:
  assumes inv: "actor_inv s" and calls: "ipc_calls t = (\<lambda>n. map_option (f n) (ipc_calls s n))"
    and "\<And>n c. c_req (f n c) = c_req c" and "set (held t) \<subseteq> set (held s)" and "length (cmd_rx t) \<le> length (cmd_rx s)"
    and "\<And>n c. ipc_calls s n = Some c \<Longrightarrow> call_ok s n c \<Longrightarrow> call_ok t n (f n c)"
  shows "actor_inv t"
proof (rule actor_invI)
  fix n c
  assume "ipc_calls t n = Some c"
  then obtain c0 where "ipc_calls s n = Some c0" "c = f n c0" using calls by auto
  with assms(6) actor_invD(1) [OF inv] show "call_ok t n c" by blast
next
  fix n req
  assume "(n, req) \<in> set (held t)"
  with assms(4) actor_invD(2) [OF inv] obtain c where "ipc_calls s n = Some c" "c_req c = req" by blast
  with calls assms(3) show "\<exists>c. ipc_calls t n = Some c \<and> c_req c = req" by simp
qed (use assms(5) actor_invD(3) [OF inv] in simp)

lemma inv_fill: "actor_inv s \<Longrightarrow> actor_inv (fill_call n Abandoned s)"
  by (rule inv_map_calls [where f = "\<lambda>m c. if m = n then fill_slot Abandoned c else c"])
    (auto simp: fill_call_def call_ok_def fun_eq_iff option.map_ident split: reply_slot.splits)

lemma inv_reply:
  assumes inv: "actor_inv s" and up: "actor_phase s = ActorUp" and q: "(n, req) \<in> set (in_flight s)"
  shows "actor_inv (reply_task n req s)"
proof -
  let ?r = "serve_request (daemon s) req"
  let ?sl = "if task_panics ?r then SenderDropped else Sent ?r"
  let ?t = "reply_task n req s"
  let ?f = "\<lambda>m c. if m = n then fill_slot ?sl c else c"
  have t: "ipc_calls ?t = (\<lambda>m. map_option (?f m) (ipc_calls s m))" "daemon ?t = daemon s" "cmd_rx ?t = cmd_rx s"
    "in_flight ?t = filter (\<lambda>q. fst q \<noteq> n) (in_flight s)" "actor_phase ?t = ActorUp"
    using up by (simp_all add: reply_task_def fill_call_def Let_def fun_eq_iff option.map_ident)
  obtain c0 where c0: "ipc_calls s n = Some c0" "c_req c0 = req"
    using actor_invD(2) [OF inv, of n req] q by auto
  show ?thesis
  proof (rule inv_map_calls [OF inv t(1)])
    fix m c
    assume c: "ipc_calls s m = Some c" and ok: "call_ok s m c"
    show "call_ok ?t m (?f m c)"
    proof (cases "m = n")
      case True
      with c c0 have "c_req c = req" by simp
      with True ok up show ?thesis unfolding call_ok_def t(2-) by (auto split: reply_slot.splits)
    next
      case False
      with ok up show ?thesis unfolding call_ok_def t(2-) by (auto split: reply_slot.splits)
    qed
  qed (use t in auto)
qed

lemma inv_ends: "actor_inv s \<Longrightarrow> actor_inv (actor_ends s)"
  by (rule inv_map_calls [where f = "\<lambda>_. fill_slot SenderDropped"])
    (auto simp: actor_ends_def call_ok_def split: reply_slot.splits)

lemma inv_daemon: "actor_inv s \<Longrightarrow> actor_inv (daemon_moves S s)"
  by (rule inv_map_calls [where f = "\<lambda>_ c. if c_slot c = Waiting then c\<lparr>c_seen := c_seen c @ [S]\<rparr> else c"])
    (auto simp: daemon_moves_def call_ok_def split: reply_slot.splits)

lemma inv_call:
  assumes inv: "actor_inv s" and "ipc_calls s n = None" and "daemon t = daemon s" "actor_phase t = actor_phase s"
    and "ipc_calls t = (ipc_calls s)(n \<mapsto> c)" and "set (held t) \<subseteq> insert (n, c_req c) (set (held s))"
    and "set (held s) \<subseteq> set (held t)" and "call_ok t n c" and "length (cmd_rx t) \<le> request_channel_capacity"
  shows "actor_inv t"
proof (rule actor_invI)
  fix m d
  assume m: "ipc_calls t m = Some d"
  show "call_ok t m d"
  proof (cases "m = n")
    case False
    with m assms(5) have "ipc_calls s m = Some d" by simp
    with actor_invD(1) [OF inv] have "call_ok s m d" .
    with assms(3,4,7) show ?thesis by (auto simp: call_ok_def split: reply_slot.splits)
  qed (use m assms(5,8) in simp)
next
  fix m req
  assume "(m, req) \<in> set (held t)"
  with assms(6) consider "m = n" "req = c_req c" | "(m, req) \<in> set (held s)" by auto
  then show "\<exists>c. ipc_calls t m = Some c \<and> c_req c = req"
  proof cases
    case 2
    with actor_invD(2) [OF inv] obtain d where "ipc_calls s m = Some d" "c_req d = req" by blast
    with assms(2,5) show ?thesis by (cases "m = n") auto
  qed (use assms(5) in simp)
qed (rule assms(9))

lemma inv_actor_step: "actor_step s t \<Longrightarrow> actor_inv s \<Longrightarrow> actor_inv t"
proof (induction rule: actor_step.induct)
  case (call_sent s n req)
  show ?case
    by (rule inv_call [of s n _ "new_call req Waiting (daemon s)", OF call_sent(5,1)])
      (use call_sent in \<open>auto simp: new_call_def call_ok_def\<close>)
next
  case (call_refused s n req)
  show ?case
    by (rule inv_call [of s n _ "new_call req Refused (daemon s)", OF call_refused(4,1)])
      (use call_refused actor_invD(3) [OF call_refused(4)] in \<open>auto simp: new_call_def call_ok_def\<close>)
next
  case (loop_takes s n req rest)
  let ?t = "s\<lparr>cmd_rx := rest, in_flight := in_flight s @ [(n, req)]\<rparr>"
  have held: "set (held ?t) = set (held s)" using loop_takes(2) by auto
  have "call_ok ?t m c = call_ok s m c" for m c
    unfolding call_ok_def held by (cases "c_slot c") simp_all
  with actor_invD [OF loop_takes(3)] held loop_takes(2) show ?case
    by (intro actor_invI) (simp_all del: append.simps set_append)
next
  case (watchdog s)
  from watchdog(3) show ?case by (rule inv_watch) (simp_all add: watchdog_fires_def)
next
  case (handle_dropped s)
  from handle_dropped(2) show ?case by (rule inv_watch) simp_all
next
  case (connect_returns s)
  from connect_returns(2) show ?case by (rule inv_watch) simp_all
next
  case (subscribe_shutdown s)
  from subscribe_shutdown(3) show ?case by (rule inv_watch) simp_all
next
  case (receiver_dropped s)
  from receiver_dropped(2) show ?case by (rule inv_watch) simp_all
qed (simp_all add: inv_fill inv_reply inv_ends inv_daemon)

lemma inv_actor_start: "actor_start s \<Longrightarrow> actor_inv s"
  by (auto simp: actor_start_def sys_connected_def actor_inv_def)

interpretation ipc_actor: invariant_system actor_start actor_step actor_inv
  by unfold_locales (simp_all add: inv_actor_start inv_actor_step)

section \<open>Progress\<close>

text \<open>Steps of the actor alone: the loop takes a request, a spawned task replies.\<close>

inductive serving :: "actor_sys \<Rightarrow> actor_sys \<Rightarrow> bool" where
  "actor_phase s = ActorUp \<Longrightarrow> cmd_rx s = (n, req) # rest \<Longrightarrow>
     serving s (s\<lparr>cmd_rx := rest, in_flight := in_flight s @ [(n, req)]\<rparr>)"
| "actor_phase s = ActorUp \<Longrightarrow> (n, req) \<in> set (in_flight s) \<Longrightarrow> serving s (reply_task n req s)"

lemma serving_step: "serving s t \<Longrightarrow> actor_step s t"
  by (induction rule: serving.induct) (auto intro: actor_step.intros)

definition answered :: "nat \<Rightarrow> actor_sys \<Rightarrow> bool" where
  "answered n s =
     (\<exists>c. ipc_calls s n = Some c \<and> (if task_panics (serve_request (daemon s) (c_req c)) then c_slot c = SenderDropped
        else c_slot c = Sent (serve_request (daemon s) (c_req c))))"

lemma reply_answers:
  assumes "ipc_calls s n = Some c" "c_slot c = Waiting"
  shows "answered n (reply_task n (c_req c) s)" "daemon (reply_task n (c_req c) s) = daemon s"
  using assms by (auto simp: answered_def reply_task_def fill_call_def Let_def)

lemma drain_queue:
  assumes "actor_phase s = ActorUp" and "(n, req) \<in> set (held s)"
  shows "\<exists>t. serving\<^sup>*\<^sup>* s t \<and> (n, req) \<in> set (in_flight t) \<and> ipc_calls t = ipc_calls s \<and> daemon t = daemon s \<and>
    actor_phase t = ActorUp"
  using assms
proof (induction "cmd_rx s" arbitrary: s)
  case Nil
  then show ?case by (intro exI [of _ s]) auto
next
  case (Cons q rest)
  let ?t = "s\<lparr>cmd_rx := rest, in_flight := in_flight s @ [q]\<rparr>"
  have "serving s ?t" using Cons.prems(1) Cons.hyps(2) by (cases q) (auto intro: serving.intros)
  moreover have "(n, req) \<in> set (held ?t)" using Cons.prems(2) Cons.hyps(2) [symmetric] by auto
  then obtain t where "serving\<^sup>*\<^sup>* ?t t" "(n, req) \<in> set (in_flight t)" "ipc_calls t = ipc_calls s" "daemon t = daemon s"
    "actor_phase t = ActorUp"
    using Cons.hyps(1) [of ?t] Cons.prems(1) by auto
  ultimately show ?case by (metis converse_rtranclp_into_rtranclp)
qed

section \<open>Properties\<close>

text \<open>What the reader of \<open>Chain_Backends\<close> gives for a request.\<close>

fun reader_result :: "actor_link \<Rightarrow> rpc_server \<Rightarrow> ipc_request \<Rightarrow> ipc_reply" where
  "reader_result link S GetChainTip = TipReply (ipcchain_get_chain_tip link S)"
| "reader_result link S (GetShareHeader h) = HeaderReply (ipcchain_get_share_header link S h)"
| "reader_result link S GetTipHeight = HeightReply (ipcchain_get_tip_height link S)"

lemma reader_results:
  "reader_result RequestClosed S req = error_reply req (Capnp ''IpcChain actor request channel closed'')"
  "reader_result ReplyDropped S req = error_reply req (Capnp ''IpcChain actor dropped reply channel'')"
  "\<not> task_panics (serve_request S req) \<Longrightarrow> reader_result LinkUp S req = serve_request S req"
  by (cases req; auto simp: ipcchain_get_chain_tip_def ipcchain_get_share_header_def ipcchain_get_tip_height_def
      actor_call_def split: result.splits)+

text \<open>
  C19: calls on the running actor are answered as if each were made alone. Whatever the interleaving of
  callers, request loop, tasks, daemon and failures, the result a caller gets is the result the
  sequential reader gives for that caller's own request on a state the daemon had between the request
  and the reply, or the error for a closed request channel or a dropped reply; replies of concurrent
  calls are never exchanged, and the request queue never exceeds its capacity.
\<close>

theorem ipc_calls_linearizable:
  assumes "reach actor_start actor_step s"
  shows "(\<forall>n c r. ipc_calls s n = Some c \<longrightarrow> call_result (c_req c) (c_slot c) = Some r \<longrightarrow>
      (\<exists>link. \<exists>S \<in> set (c_seen c). r = reader_result link S (c_req c))) \<and>
    length (cmd_rx s) \<le> 256"
proof (intro conjI allI impI)
  note inv = ipc_actor.inv_reach [OF assms]
  show "length (cmd_rx s) \<le> 256" using actor_invD(3) [OF inv] by (simp add: request_channel_capacity_def)
  fix n c r
  assume c: "ipc_calls s n = Some c" and r: "call_result (c_req c) (c_slot c) = Some r"
  have ok: "call_ok s n c" using actor_invD(1) [OF inv c] .
  then obtain S0 where S0: "S0 \<in> set (c_seen c)" by (cases "c_seen c") (auto simp: call_ok_def)
  show "\<exists>link. \<exists>S \<in> set (c_seen c). r = reader_result link S (c_req c)"
  proof (cases "c_slot c")
    case (Sent x)
    with ok r show ?thesis by (auto simp: call_ok_def) (metis reader_results(3))
  next
    case SenderDropped
    with r S0 show ?thesis by (auto simp flip: reader_results(2) [of S0])
  next
    case Refused
    with r S0 show ?thesis by (auto simp flip: reader_results(1) [of S0])
  qed (use r in simp_all)
qed

text \<open>
  C20: no caller waits on a dead actor. As long as a caller waits, the actor is running and holds its
  request, and the actor's own steps lead to a state in which that call has its answer, taken from the
  daemon, whatever else is queued before it.
\<close>

theorem waiting_calls_served:
  assumes "reach actor_start actor_step s" and "ipc_calls s n = Some c" and "c_slot c = Waiting"
  shows "actor_phase s = ActorUp \<and> (n, c_req c) \<in> set (cmd_rx s @ in_flight s) \<and> (\<exists>t. serving\<^sup>*\<^sup>* s t \<and> answered n t)"
proof -
  have "call_ok s n c" using actor_invD(1) [OF ipc_actor.inv_reach [OF assms(1)] assms(2)] .
  with assms(3) have up: "actor_phase s = ActorUp" and held: "(n, c_req c) \<in> set (held s)"
    by (auto simp: call_ok_def)
  obtain t where t: "serving\<^sup>*\<^sup>* s t" "(n, c_req c) \<in> set (in_flight t)" "ipc_calls t = ipc_calls s"
    "actor_phase t = ActorUp" using drain_queue [OF up held] by blast
  have "serving t (reply_task n (c_req c) t)" using t by (intro serving.intros)
  with t have "serving\<^sup>*\<^sup>* s (reply_task n (c_req c) t)" by simp
  moreover have "answered n (reply_task n (c_req c) t)" using reply_answers [of t n c] assms(2,3) t by simp
  ultimately show ?thesis using up held by blast
qed

lemma lost_for_good:
  assumes "actor_step\<^sup>*\<^sup>* s t" and "watchdog_done s" and "\<not> watch_value s"
  shows "watchdog_done t \<and> \<not> watch_value t"
  using assms
proof (induction rule: rtranclp_induct)
  case (step t u)
  then have "watchdog_done t" "\<not> watch_value t" by simp_all
  with step(2) show ?case
    by (cases rule: actor_step.cases)
      (simp_all add: reply_task_def fill_call_def actor_ends_def daemon_moves_def Let_def)
qed simp

text \<open>
  the signal of the actor's death can be lost. \<open>connect\<close> drops its own receiver when it returns, and
  a send on a watch channel without receivers changes nothing: when the actor ends and the watchdog
  fires before the pool has subscribed, the value is false for the subscriber that comes next and in
  every state after it, so the pool is never cancelled.
\<close>

lemma shutdown_signal_lost:
  "\<exists>s. reach actor_start actor_step s \<and> actor_phase s = ActorGone \<and> watch_receivers s = 1 \<and> handle_open s \<and>
     {t. actor_step\<^sup>*\<^sup>* s t} \<subseteq> {t. \<not> watch_value t}"
proof -
  fix S0
  let ?s0 = "sys_connected S0"
  let ?s1 = "?s0\<lparr>connecting := False, watch_receivers := watch_receivers ?s0 - 1\<rparr>"
  let ?s2 = "actor_ends ?s1"
  let ?s3 = "watchdog_fires ?s2"
  let ?s4 = "?s3\<lparr>watch_receivers := Suc (watch_receivers ?s3)\<rparr>"
  note defs = sys_connected_def actor_ends_def watchdog_fires_def
  have "reach actor_start actor_step ?s0" by (rule reach_start) (auto simp: actor_start_def)
  moreover have "actor_step ?s0 ?s1" by (rule actor_step.connect_returns) (simp add: defs)
  ultimately have "reach actor_start actor_step ?s1" by (rule reach_step)
  moreover have "actor_step ?s1 ?s2" by (rule actor_step.thread_panics) (simp add: defs)
  ultimately have "reach actor_start actor_step ?s2" by (rule reach_step)
  moreover have "actor_step ?s2 ?s3" by (rule actor_step.watchdog) (simp_all add: defs)
  ultimately have "reach actor_start actor_step ?s3" by (rule reach_step)
  moreover have "actor_step ?s3 ?s4" by (rule actor_step.subscribe_shutdown) (simp_all add: defs)
  ultimately have "reach actor_start actor_step ?s4" by (rule reach_step)
  moreover have "watchdog_done ?s4" "\<not> watch_value ?s4" "actor_phase ?s4 = ActorGone" "watch_receivers ?s4 = 1"
    "handle_open ?s4" by (simp_all add: defs)
  ultimately show ?thesis using lost_for_good by blast
qed

section \<open>A run of the actor\<close>

definition asked_sys :: actor_sys where
  "asked_sys =
     (sys_connected sample_daemon)
       \<lparr>ipc_calls := [7 \<mapsto> new_call GetChainTip Waiting sample_daemon], cmd_rx := [(7, GetChainTip)]\<rparr>"

definition replied_sys :: actor_sys where
  "replied_sys = reply_task 7 GetChainTip (asked_sys\<lparr>cmd_rx := [], in_flight := [(7, GetChainTip)]\<rparr>)"

lemma asked_reachable: "reach actor_start actor_step asked_sys"
proof -
  have "reach actor_start actor_step (sys_connected sample_daemon)"
    by (rule reach_start) (auto simp: actor_start_def)
  moreover have "actor_step (sys_connected sample_daemon) asked_sys"
    using actor_step.call_sent [of "sys_connected sample_daemon" 7 GetChainTip]
    by (simp add: asked_sys_def sys_connected_def request_channel_capacity_def)
  ultimately show ?thesis by (rule reach_step)
qed

lemma replied_reachable: "reach actor_start actor_step replied_sys"
proof -
  let ?t = "asked_sys\<lparr>cmd_rx := [], in_flight := [(7, GetChainTip)]\<rparr>"
  have "actor_step asked_sys ?t"
    using actor_step.loop_takes [of asked_sys 7 GetChainTip "[]"] by (simp add: asked_sys_def sys_connected_def)
  with asked_reachable have "reach actor_start actor_step ?t" by (rule reach_step)
  moreover have "actor_step ?t replied_sys"
    unfolding replied_sys_def by (rule actor_step.task_replies) (simp_all add: asked_sys_def sys_connected_def)
  ultimately show ?thesis by (rule reach_step)
qed

theorem ipc_calls_linearizable_witness:
  "\<exists>c r link. ipc_calls replied_sys 7 = Some c \<and> call_result (c_req c) (c_slot c) = Some r \<and>
     r = reader_result link sample_daemon GetChainTip"
proof -
  have seen: "\<exists>c r. ipc_calls replied_sys 7 = Some c \<and> c_req c = GetChainTip \<and> c_seen c = [sample_daemon] \<and>
      call_result (c_req c) (c_slot c) = Some r"
    by (auto simp: replied_sys_def asked_sys_def reply_task_def fill_call_def new_call_def fill_slot_def Let_def
        sys_connected_def)
  then show ?thesis
    using ipc_calls_linearizable [OF replied_reachable] by fastforce
qed

theorem waiting_calls_served_witness:
  "\<exists>t. serving\<^sup>*\<^sup>* asked_sys t \<and> answered 7 t"
  using waiting_calls_served [OF asked_reachable, of 7 "new_call GetChainTip Waiting sample_daemon"]
  by (simp add: asked_sys_def new_call_def)

end
