(* ===== verification/Text_Utils.thy ===== *)
theory Text_Utils
  imports Prelude "HOL-Library.Sublist"
begin

text \<open>
  The text functions of the Rust standard library that the sources use: decimal formatting and
  parsing of unsigned integers, \<open>str::lines\<close>, \<open>str::split\<close>, \<open>str::rsplit_once\<close>, and the paths of
  \<open>std::path\<close>. Text is a character list. A path is its normal form, a root flag and the list of
  its components; \<open>join\<close> with a plain name appends a component and \<open>pop\<close> removes the last one.
\<close>

named_theorems text_simps \<open>round trips of the text functions\<close>

abbreviation nl :: char where
  "nl \<equiv> CHR 0x0A"

abbreviation cr :: char where
  "cr \<equiv> CHR 0x0D"

definition crlf :: string where
  "crlf = [cr, nl]"

section \<open>Decimal numbers\<close>

fun digits :: "nat \<Rightarrow> string" where
  "digits n = (if n < 10 then [char_of (48 + n)] else digits (n div 10) @ [char_of (48 + n mod 10)])"

declare digits.simps [simp del]

definition digits_value :: "string \<Rightarrow> nat" where
  "digits_value s = foldl (\<lambda>n c. 10 * n + (of_char c - 48)) 0 s"

definition is_digit :: "char \<Rightarrow> bool" where
  "is_digit c = (48 \<le> (of_char c :: nat) \<and> (of_char c :: nat) \<le> 57)"

definition parse_u64 :: "string \<Rightarrow> nat option" where
  "parse_u64 s =
     (let ds = (if s \<noteq> [] \<and> hd s = CHR ''+'' then tl s else s)
      in if ds = [] \<or> \<not> list_all is_digit ds then None
         else if digits_value ds < 2 ^ 64 then Some (digits_value ds) else None)"

lemma digit_of_char: "n < 10 \<Longrightarrow> (of_char (char_of (48 + n) :: char) :: nat) = 48 + n"
  by (simp add: of_char_of)

lemma digit_chars:
  "char_of (48 :: nat) = CHR ''0''"
  "char_of (49 :: nat) = CHR ''1''"
  "char_of (50 :: nat) = CHR ''2''"
  "char_of (51 :: nat) = CHR ''3''"
  "char_of (52 :: nat) = CHR ''4''"
  "char_of (53 :: nat) = CHR ''5''"
  "char_of (54 :: nat) = CHR ''6''"
  "char_of (55 :: nat) = CHR ''7''"
  "char_of (56 :: nat) = CHR ''8''"
  "char_of (57 :: nat) = CHR ''9''"
  by code_simp+

lemma digits_value_digits [text_simps]: "digits_value (digits n) = n"
proof (induction n rule: digits.induct)
  case (1 n)
  show ?case
  proof (cases "n < 10")
    case True
    then show ?thesis by (simp add: digits.simps [of n] digits_value_def digit_of_char)
  next
    case False
    with 1 have "digits_value (digits (n div 10)) = n div 10" by simp
    with False show ?thesis
      by (simp add: digits.simps [of n] digits_value_def digit_of_char)
  qed
qed

lemma is_digit_char: "(n :: nat) < 10 \<Longrightarrow> is_digit (char_of (48 + n))"
  by (simp add: is_digit_def digit_of_char)

lemma is_digit_plus: "\<not> is_digit (CHR ''+'')"
  by (simp add: is_digit_def)

lemma digits_are_digits: "list_all is_digit (digits n)"
proof (induction n rule: digits.induct)
  case (1 n)
  then show ?case
    by (cases "n < 10") (simp_all add: digits.simps [of n] is_digit_char)
qed

lemma digits_not_Nil [simp]: "digits n \<noteq> []"
  by (simp add: digits.simps [of n])

lemma digit_notin_digits: "\<not> is_digit c \<Longrightarrow> c \<notin> set (digits n)"
  using digits_are_digits [of n] by (auto simp: list_all_iff)

lemma digits_inject [simp]: "digits m = digits n \<longleftrightarrow> m = n"
  by (metis digits_value_digits)

lemma parse_u64_digits [text_simps]: "parse_u64 (digits n) = (if n < 2 ^ 64 then Some n else None)"
proof -
  have "hd (digits n) \<noteq> CHR ''+''"
    using digit_notin_digits [of "CHR ''+''" n] hd_in_set [OF digits_not_Nil [of n]]
    by (metis is_digit_plus)
  then show ?thesis
    by (simp add: parse_u64_def digits_are_digits digits_value_digits)
qed

lemma parse_u64_minus: "parse_u64 (CHR ''-'' # s) = None"
  by (simp add: parse_u64_def is_digit_def)

section \<open>Splitting\<close>

fun split_on :: "char \<Rightarrow> string \<Rightarrow> string list" where
  "split_on c [] = [[]]"
| "split_on c (x # xs) =
     (if x = c then [] # split_on c xs
      else case split_on c xs of [] \<Rightarrow> [[x]] | w # ws \<Rightarrow> (x # w) # ws)"

definition strip_cr :: "string \<Rightarrow> string" where
  "strip_cr s = (if s \<noteq> [] \<and> last s = cr then butlast s else s)"

definition str_lines :: "string \<Rightarrow> string list" where
  "str_lines s =
     (let ws = split_on nl s
      in map strip_cr (butlast ws) @ (if last ws = [] then [] else [last ws]))"

fun split_once :: "string \<Rightarrow> string \<Rightarrow> (string \<times> string) option" where
  "split_once sep s =
     (if prefix sep s then Some ([], drop (length sep) s)
      else case s of
             [] \<Rightarrow> None
           | c # cs \<Rightarrow> map_option (\<lambda>(a, b). (c # a, b)) (split_once sep cs))"

declare split_once.simps [simp del]

definition rsplit_once :: "char \<Rightarrow> string \<Rightarrow> (string \<times> string) option" where
  "rsplit_once c s =
     (if c \<in> set s
      then Some (rev (tl (dropWhile (\<lambda>x. x \<noteq> c) (rev s))), rev (takeWhile (\<lambda>x. x \<noteq> c) (rev s)))
      else None)"

lemma split_on_not_Nil [simp]: "split_on c s \<noteq> []"
  by (induction s) (auto split: list.splits)

lemma split_on_line: "c \<notin> set a \<Longrightarrow> split_on c (a @ c # b) = a # split_on c b"
  by (induction a) auto

lemma split_on_one: "c \<notin> set a \<Longrightarrow> split_on c a = [a]"
  by (induction a) auto

lemma dropWhile_to: "c \<notin> set b \<Longrightarrow> dropWhile (\<lambda>x. x \<noteq> c) (b @ c # a) = c # a"
  by (induction b) auto

lemma takeWhile_to: "c \<notin> set b \<Longrightarrow> takeWhile (\<lambda>x. x \<noteq> c) (b @ c # a) = b"
  by (induction b) auto

lemma rsplit_once_app [text_simps]: "c \<notin> set b \<Longrightarrow> rsplit_once c (a @ c # b) = Some (a, b)"
  by (simp add: rsplit_once_def dropWhile_to takeWhile_to)

text \<open>Rendered lines are read back one by one.\<close>

definition unlines :: "string list \<Rightarrow> string" where
  "unlines ls = concat (map (\<lambda>l. l @ [nl]) ls)"

lemma split_on_unlines: "\<forall>l \<in> set ls. nl \<notin> set l \<Longrightarrow> split_on nl (unlines ls) = ls @ [[]]"
  by (induction ls) (auto simp: unlines_def split_on_line)

lemma str_lines_unlines [text_simps]:
  assumes "\<forall>l \<in> set ls. nl \<notin> set l \<and> cr \<notin> set l"
  shows "str_lines (unlines ls) = ls"
proof -
  have "map strip_cr ls = ls"
    using assms by (intro map_idI) (metis last_in_set strip_cr_def)
  moreover have "split_on nl (unlines ls) = ls @ [[]]"
    using assms by (intro split_on_unlines) auto
  ultimately show ?thesis by (simp add: str_lines_def)
qed

lemma split_once_here: "split_once sep (sep @ rest) = Some ([], rest)"
  by (subst split_once.simps) simp

lemma split_once_skip:
  assumes "\<not> prefix sep (c # s)"
  shows "split_once sep (c # s) = map_option (\<lambda>(a, b). (c # a, b)) (split_once sep s)"
  by (subst split_once.simps) (simp add: assms)

lemma split_once_hd:
  assumes "sep \<noteq> []" and "hd sep \<notin> set a"
  shows "split_once sep (a @ sep @ rest) = Some (a, rest)"
  using assms(2)
proof (induction a)
  case Nil
  show ?case by (simp add: split_once_here)
next
  case (Cons c a)
  with assms(1) have "\<not> prefix sep (c # a @ sep @ rest)"
    by (cases sep) auto
  with Cons show ?case by (simp add: split_once_skip)
qed

section \<open>Paths\<close>

record path =
  absolute :: bool
  comps :: "string list"

definition path_of :: "string \<Rightarrow> path" where
  "path_of s =
     (let cs = split_on (CHR ''/'') s;
          dot = ''.''
      in \<lparr>absolute = (s \<noteq> [] \<and> hd s = CHR ''/''),
          comps = (if hd cs = dot then [dot] else []) @ filter (\<lambda>c. c \<noteq> [] \<and> c \<noteq> dot) cs\<rparr>)"

definition path_pop :: "path \<Rightarrow> path option" where
  "path_pop p = (if comps p = [] then None else Some (p\<lparr>comps := butlast (comps p)\<rparr>))"

definition path_join :: "path \<Rightarrow> string \<Rightarrow> path" where
  "path_join p n = (if n = [] then p else p\<lparr>comps := comps p @ [n]\<rparr>)"

fun sep_join :: "string \<Rightarrow> string list \<Rightarrow> string" where
  "sep_join sep [] = []"
| "sep_join sep [w] = w"
| "sep_join sep (w # ws) = w @ sep @ sep_join sep ws"

definition path_display :: "path \<Rightarrow> string" where
  "path_display p = (if absolute p then ''/'' else []) @ sep_join ''/'' (comps p)"

definition split_paths :: "string \<Rightarrow> path list" where
  "split_paths s = map path_of (split_on (CHR '':'') s)"

definition under :: "path \<Rightarrow> path \<Rightarrow> bool" where
  "under d p = (absolute d = absolute p \<and> prefix (comps d) (comps p))"

lemma path_pop_join [simp]: "n \<noteq> [] \<Longrightarrow> path_pop (path_join p n) = Some p"
  by (simp add: path_pop_def path_join_def)

lemma under_refl [simp]: "under d d"
  by (simp add: under_def)

lemma under_join [simp]: "under d p \<Longrightarrow> under d (path_join p n)"
  by (auto simp: under_def path_join_def prefix_def)

lemma set_sep_join: "set (sep_join sep ws) \<subseteq> set sep \<union> (\<Union>w \<in> set ws. set w)"
  by (induction sep ws rule: sep_join.induct) auto

end
