(* ===== verification/Metrics_Endpoint.thy ===== *)
theory Metrics_Endpoint
  imports Text_Utils
begin

text \<open>
  \<open>crates/sv2-p2pool-pool/src/metrics_endpoint.rs\<close>: the \<open>/metrics\<close> HTTP handler. Text is a
  character list; the UTF-8 check and the Prometheus encoder are parameters. The stream is the list
  of what successive reads return (an I/O error or some bytes, none at end of input). White space is
  that of the ASCII range.
\<close>

definition buf_len :: nat where
  "buf_len = 4096"

fun has_blank_line :: "string \<Rightarrow> bool" where
  "has_blank_line (a # b # c # d # rest) =
     ((a = CHR 0x0D \<and> b = CHR 0x0A \<and> c = CHR 0x0D \<and> d = CHR 0x0A) \<or> has_blank_line (b # c # d # rest))"
| "has_blank_line _ = False"

fun read_request :: "string \<Rightarrow> (string + string) list \<Rightarrow> string + string" where
  "read_request buf reads =
     (if buf_len \<le> length buf then Inr buf
      else case reads of
        [] \<Rightarrow> Inr buf
      | Inl e # _ \<Rightarrow> Inl e
      | Inr chunk # rest \<Rightarrow>
          if chunk = [] then Inr buf
          else let buf' = buf @ take (buf_len - length buf) chunk
               in if has_blank_line buf' then Inr buf' else read_request buf' rest)"

declare read_request.simps [simp del]

definition first_line :: "string \<Rightarrow> string option" where
  "first_line s =
     (if s = [] then None
      else let l = takeWhile (\<lambda>c. c \<noteq> CHR 0x0A) s
           in Some (if l \<noteq> [] \<and> last l = CHR 0x0D \<and> length l < length s then butlast l else l))"

definition is_ws :: "char \<Rightarrow> bool" where
  "is_ws c = (c \<in> {CHR '' '', CHR 0x09, CHR 0x0A, CHR 0x0B, CHR 0x0C, CHR 0x0D})"

definition word_at_front :: "string \<Rightarrow> string" where
  "word_at_front s = takeWhile (\<lambda>c. \<not> is_ws c) (dropWhile is_ws s)"

definition second_word :: "string \<Rightarrow> string option" where
  "second_word s =
     (let rest = dropWhile (\<lambda>c. \<not> is_ws c) (dropWhile is_ws s);
          w = word_at_front rest
      in if w = [] then None else Some w)"

definition request_path :: "(string \<Rightarrow> bool) \<Rightarrow> string \<Rightarrow> string" where
  "request_path valid_utf8 buf =
     (let request = (if valid_utf8 buf then buf else [])
      in case Option.bind (first_line request) second_word of
           Some p \<Rightarrow> p
         | None \<Rightarrow> ''/'')"

definition reason_phrase :: "nat \<Rightarrow> string" where
  "reason_phrase status =
     (if status = 200 then ''OK'' else if status = 404 then ''Not Found''
      else if status = 500 then ''Internal Server Error'' else ''Unknown'')"

definition write_status :: "nat \<Rightarrow> string \<Rightarrow> string \<Rightarrow> string" where
  "write_status status content_type body =
     ''HTTP/1.1 '' @ digits status @ '' '' @ reason_phrase status @ crlf @
     ''Content-Type: '' @ content_type @ crlf @
     ''Content-Length: '' @ digits (length body) @ crlf @
     ''Connection: close'' @ crlf @ crlf @ body"

definition respond :: "string + string \<Rightarrow> string \<Rightarrow> string \<Rightarrow> nat \<times> string \<times> string" where
  "respond encoded format_type path =
     (if path = ''/metrics''
      then case encoded of
             Inl _ \<Rightarrow> (500, ''text/plain'', ''encode error'' @ [CHR 0x0A])
           | Inr body \<Rightarrow> (200, format_type, body)
      else if path = ''/healthz'' then (200, ''text/plain'', ''ok'' @ [CHR 0x0A])
      else (404, ''text/plain'', ''not found'' @ [CHR 0x0A]))"

definition handle_one ::
  "(string \<Rightarrow> bool) \<Rightarrow> string + string \<Rightarrow> string \<Rightarrow> (string + string) list \<Rightarrow> string + string" where
  "handle_one valid_utf8 encoded format_type reads =
     (case read_request [] reads of
        Inl e \<Rightarrow> Inl e
      | Inr buf \<Rightarrow>
          let (status, ct, body) = respond encoded format_type (request_path valid_utf8 buf)
          in Inr (write_status status ct body))"

section \<open>Lemmas\<close>

lemma read_request_bounded:
  "read_request buf reads = Inr out \<Longrightarrow> length buf \<le> buf_len \<Longrightarrow>
     length out \<le> buf_len \<and> take (length buf) out = buf"
proof (induction buf reads rule: read_request.induct)
  case (1 buf reads)
  show ?case
  proof (cases "buf_len \<le> length buf")
    case True
    with 1(2,3) show ?thesis by (simp add: read_request.simps [of buf])
  next
    case False
    show ?thesis
    proof (cases reads)
      case Nil
      with False 1(2,3) show ?thesis by (simp add: read_request.simps [of buf])
    next
      case (Cons r rest)
      show ?thesis
      proof (cases r)
        case (Inl e)
        with Cons False 1(2) show ?thesis by (simp add: read_request.simps [of buf])
      next
        case (Inr chunk)
        let ?b = "buf @ take (buf_len - length buf) chunk"
        have len: "length ?b \<le> buf_len" using False by simp
        show ?thesis
        proof (cases "chunk = [] \<or> has_blank_line ?b")
          case True
          with Cons Inr False 1(2) len show ?thesis
            by (auto simp: read_request.simps [of buf] Let_def split: if_splits)
        next
          case more: False
          with Cons Inr False 1(2) have "read_request ?b rest = Inr out"
            by (simp add: read_request.simps [of buf] Let_def)
          with 1(1) [OF False Cons Inr] more len have out: "length out \<le> buf_len" "take (length ?b) out = ?b"
            by auto
          have "take (length buf) out = take (length buf) (take (length ?b) out)" by (simp add: min_def)
          also have "\<dots> = buf" unfolding out(2) by simp
          finally show ?thesis using out(1) by simp
        qed
      qed
    qed
  qed
qed

section \<open>Properties\<close>

text \<open>
  the endpoint answers every request it can read: the response is framed with the exact decimal
  length of its body, the status is 200 for \<open>/healthz\<close> and for \<open>/metrics\<close> when the encoder succeeds,
  500 when it fails, and 404 for every other path; it never buffers more than 4096 bytes whatever
  the client sends.
\<close>

lemma endpoint_response:
  "case handle_one valid encoded fmt reads of
     Inl e \<Rightarrow> read_request [] reads = Inl e
   | Inr response \<Rightarrow>
       (\<exists>buf status ct body len head.
          read_request [] reads = Inr buf \<and> length buf \<le> 4096 \<and>
          respond encoded fmt (request_path valid buf) = (status, ct, body) \<and>
          response = head @ ''Content-Length: '' @ len @ crlf @ ''Connection: close'' @ crlf @ crlf @ body \<and>
          digits_value len = length body \<and>
          status = (if request_path valid buf = ''/healthz'' then 200
                    else if request_path valid buf = ''/metrics'' then (case encoded of Inr _ \<Rightarrow> 200 | Inl _ \<Rightarrow> 500)
                    else 404))"
proof (cases "read_request [] reads")
  case (Inl e)
  then show ?thesis by (simp add: handle_one_def)
next
  case (Inr buf)
  obtain status ct body where r: "respond encoded fmt (request_path valid buf) = (status, ct, body)"
    by (cases "respond encoded fmt (request_path valid buf)")
  have st: "status = (if request_path valid buf = ''/healthz'' then 200
      else if request_path valid buf = ''/metrics'' then (case encoded of Inr _ \<Rightarrow> 200 | Inl _ \<Rightarrow> 500) else 404)"
    using r by (auto simp: respond_def split: if_splits sum.splits)
  have len: "length buf \<le> 4096"
    using read_request_bounded [OF Inr] by (simp add: buf_len_def)
  let ?head = "''HTTP/1.1 '' @ digits status @ '' '' @ reason_phrase status @ crlf @ ''Content-Type: '' @ ct @ crlf"
  have "handle_one valid encoded fmt reads = Inr (?head @ ''Content-Length: '' @ digits (length body) @ crlf @
      ''Connection: close'' @ crlf @ crlf @ body)"
    using Inr r by (simp add: handle_one_def write_status_def)
  with Inr r st len show ?thesis
    by (simp only: sum.case)
      (intro exI [of _ buf] exI [of _ status] exI [of _ ct] exI [of _ body] exI [of _ "digits (length body)"]
        exI [of _ ?head] conjI, simp_all only: digits_value_digits)
qed

end
