(* ===== verification/Pool_Runtime.thy ===== *)
theory Pool_Runtime
  imports Engine_Reorg Chain_Backends
begin

text \<open>
  \<open>crates/sv2-p2pool-pool/src/pool.rs\<close>, \<open>builder.rs\<close> and the bootstrap of \<open>share_chain.rs\<close>: which
  backend and network the pool runs on, how the engine is put together, the tip-height publishers,
  the watcher of the IPC actor, and the life cycle of \<open>start\<close> and \<open>shutdown\<close>. Sockets, the store and
  the RPC client are third-party: what opening them returns is a field of \<open>outside\<close>, and so is
  what the JDS section of the configuration gives (an error, or whether it is there).
\<close>

section \<open>Configuration\<close>

datatype bitcoin_network = CfgMainnet | CfgTestnet4 | CfgSignet | CfgRegtest

datatype template_provider_type = BitcoinCoreIpc bitcoin_network | Sv2Tp

record p2pool_config =
  p2p_network :: network
  p2p_ipc_socket :: "string option"
  p2p_store_path :: string

record pool =
  pool_tp :: template_provider_type
  pool_p2pool :: "p2pool_config option"
  pool_metrics_addr :: "string option"

definition pool_new :: "template_provider_type \<Rightarrow> pool" where
  "pool_new tp = \<lparr>pool_tp = tp, pool_p2pool = None, pool_metrics_addr = None\<rparr>"

definition with_metrics_addr :: "string \<Rightarrow> pool \<Rightarrow> pool" where
  "with_metrics_addr addr p = p\<lparr>pool_metrics_addr := Some addr\<rparr>"

definition with_p2pool_config :: "p2pool_config \<Rightarrow> pool \<Rightarrow> pool" where
  "with_p2pool_config c p = p\<lparr>pool_p2pool := Some c\<rparr>"

fun core_network :: "bitcoin_network \<Rightarrow> network" where
  "core_network CfgMainnet = Bitcoin"
| "core_network CfgTestnet4 = Testnet4"
| "core_network CfgSignet = Signet"
| "core_network CfgRegtest = Regtest"

definition config_network :: "pool \<Rightarrow> network" where
  "config_network p =
     (case pool_p2pool p of
        Some c \<Rightarrow> p2p_network c
      | None \<Rightarrow>
          (case pool_tp p of
             BitcoinCoreIpc n \<Rightarrow> core_network n
           | Sv2Tp \<Rightarrow> Testnet4))"

definition build_engine :: "network \<Rightarrow> engine" where
  "build_engine net = engine_new net"

definition build_engine_with_handles :: "network \<Rightarrow> engine_handles \<Rightarrow> engine" where
  "build_engine_with_handles net h = engine_with_handles net h"

section \<open>Bootstrap of the share chain\<close>

datatype bootstrap_error =
    OpenStore string string
  | GenesisFailed network string
  | InitGenesis string
  | BitcoindClient string
  | IpcConnect string string

record outside =
  out_bitcoind :: "string + ((block \<Rightarrow> string + proposal_outcome) \<times> (block \<Rightarrow> string + string))"
  out_jds_config :: "string + bool"
  out_spawn :: spawn_results
  out_server :: rpc_server
  out_link :: actor_link
  out_open_store :: "string \<Rightarrow> string + chain_store"
  out_build_genesis :: "network \<Rightarrow> string + unit"
  out_init_genesis :: "string + unit"
  out_fmt_ipc :: "ipc_client_error \<Rightarrow> string"

record share_chain_handles =
  sch_engine_handles :: engine_handles
  sch_chain_store :: "chain_store option"
  sch_store_open :: bool
  sch_ipc_tip_snapshot :: "atomic_tip_snapshot option"
  sch_ipc_shutdown_signal :: "bool option"

definition bootstrap_ipc ::
  "outside \<Rightarrow> string \<Rightarrow> (block \<Rightarrow> string + proposal_outcome) \<times> (block \<Rightarrow> string + string) \<Rightarrow>
     (bootstrap_error, share_chain_handles) result" where
  "bootstrap_ipc w socket btc =
     rbind (map_err (\<lambda>e. IpcConnect socket (out_fmt_ipc w e))
              (ipc_chain_connect (out_spawn w) (out_server w) socket)) (\<lambda>(net, a).
     Ok \<lparr>sch_engine_handles =
           \<lparr>hnd_chain = ipc_chain (out_link w) (out_server w) net,
            hnd_validate_block_proposal = fst btc, hnd_submit_block = snd btc\<rparr>,
         sch_chain_store = None, sch_store_open = False,
         sch_ipc_tip_snapshot = Some (snapshot a), sch_ipc_shutdown_signal = Some False\<rparr>)"

definition bootstrap_in_process ::
  "outside \<Rightarrow> p2pool_config \<Rightarrow> (block \<Rightarrow> string + proposal_outcome) \<times> (block \<Rightarrow> string + string) \<Rightarrow>
     (bootstrap_error, share_chain_handles) result" where
  "bootstrap_in_process w c btc =
     rbind (sum_result (OpenStore (p2p_store_path c)) (out_open_store w (p2p_store_path c))) (\<lambda>cs0.
     let cs = cs0\<lparr>cs_network := p2p_network c\<rparr> in
     rbind (sum_result (GenesisFailed (p2p_network c)) (out_build_genesis w (p2p_network c))) (\<lambda>_.
     rbind (sum_result InitGenesis (out_init_genesis w)) (\<lambda>_.
     Ok \<lparr>sch_engine_handles =
           \<lparr>hnd_chain = in_process_chain cs,
            hnd_validate_block_proposal = fst btc, hnd_submit_block = snd btc\<rparr>,
         sch_chain_store = Some cs, sch_store_open = True,
         sch_ipc_tip_snapshot = None, sch_ipc_shutdown_signal = None\<rparr>)))"

definition bootstrap_share_chain :: "outside \<Rightarrow> p2pool_config \<Rightarrow> (bootstrap_error, share_chain_handles) result" where
  "bootstrap_share_chain w c =
     rbind (sum_result BitcoindClient (out_bitcoind w)) (\<lambda>btc.
     case p2p_ipc_socket c of
       Some socket \<Rightarrow> bootstrap_ipc w socket btc
     | None \<Rightarrow> bootstrap_in_process w c btc)"

section \<open>Assembling the engine\<close>

datatype start_error = BadJdsConfig string | NoJdsConfig | ShareChainBootstrap bootstrap_error

definition start_engine ::
  "outside \<Rightarrow> pool \<Rightarrow> tdp_handle \<Rightarrow> (start_error, engine \<times> share_chain_handles option) result" where
  "start_engine w p t =
     rbind (sum_result BadJdsConfig (out_jds_config w)) (\<lambda>present.
     if \<not> present then Err NoJdsConfig
     else case pool_p2pool p of
        Some c \<Rightarrow>
          rbind (map_err ShareChainBootstrap (bootstrap_share_chain w c)) (\<lambda>h.
            Ok (with_tdp t (build_engine_with_handles (config_network p) (sch_engine_handles h)), Some h))
      | None \<Rightarrow> Ok (with_tdp t (build_engine (config_network p)), None))"

definition attach_metrics :: "'e + engine_metrics \<Rightarrow> engine \<Rightarrow> engine" where
  "attach_metrics reg e = (case reg of Inr m \<Rightarrow> with_metrics m e | Inl _ \<Rightarrow> e)"

definition start_background :: "share_chain_handles option \<Rightarrow> engine \<Rightarrow> engine" where
  "start_background sh e =
     start_recent_solutions_sweeper
       (case sh of
          Some h \<Rightarrow>
            if sch_ipc_tip_snapshot h \<noteq> None \<or> sch_chain_store h \<noteq> None then start_reorg_watcher e else e
        | None \<Rightarrow> e)"

section \<open>Publishers and the actor watcher\<close>

definition publish_height_ipc :: "atomic_tip_snapshot \<Rightarrow> engine_metrics \<Rightarrow> engine_metrics" where
  "publish_height_ipc s m =
     (case load_height s of
        Some h \<Rightarrow> m\<lparr>share_chain_tip_height := ucast h\<rparr>
      | None \<Rightarrow> m\<lparr>share_chain_tip_height := - 1\<rparr>)"

definition publish_height_store :: "chain_store \<Rightarrow> engine_metrics \<Rightarrow> engine_metrics" where
  "publish_height_store cs m =
     (case cs_get_tip_height cs of
        Inr (Some h) \<Rightarrow> m\<lparr>share_chain_tip_height := ucast h\<rparr>
      | Inr None \<Rightarrow> m\<lparr>share_chain_tip_height := - 1\<rparr>
      | Inl _ \<Rightarrow> m\<lparr>share_chain_tip_height := - 1\<rparr>)"

text \<open>
  The watcher of the actor's shutdown signal over the values it sees until the sender is gone; the
  result says whether it cancels the pool.
\<close>

fun shutdown_watcher :: "bool \<Rightarrow> bool list \<Rightarrow> bool" where
  "shutdown_watcher current changes =
     (if current then True
      else case changes of
        [] \<Rightarrow> False
      | v # vs \<Rightarrow> shutdown_watcher v vs)"

declare shutdown_watcher.simps [simp del]

section \<open>Life cycle\<close>

text \<open>
  \<open>start\<close> may be called any number of times, one call after another or at the same time: \<open>runs\<close> has the
  calls made so far. A run can fail early, returning the error and leaving \<open>is_alive\<close> set, or run until
  the pool is cancelled, notify the waiting \<open>shutdown\<close> callers and only then clear \<open>is_alive\<close>. A
  \<open>shutdown\<close> caller that sees \<open>is_alive\<close> cleared returns, otherwise it goes on to register for a
  notification, cancels and waits; a notification reaches those that are registered already.
\<close>

datatype start_phase = Running | Notified | Finished | StartFailed

datatype caller = CallerChecked | CallerWaiting | CallerReturned

fun wake :: "caller \<Rightarrow> caller" where
  "wake CallerWaiting = CallerReturned"
| "wake c = c"

record pool_life =
  is_alive :: bool
  cancelled :: bool
  runs :: "start_phase list"
  callers :: "caller list"

definition life_new :: pool_life where
  "life_new = \<lparr>is_alive = True, cancelled = False, runs = [], callers = []\<rparr>"

definition in_phase :: "nat \<Rightarrow> start_phase \<Rightarrow> pool_life \<Rightarrow> bool" where
  "in_phase j ph s \<longleftrightarrow> j < length (runs s) \<and> runs s ! j = ph"

inductive life_step :: "pool_life \<Rightarrow> pool_life \<Rightarrow> bool" where
  start: "life_step s (s\<lparr>runs := runs s @ [Running]\<rparr>)"
| start_err: "in_phase j Running s \<Longrightarrow> life_step s (s\<lparr>runs := (runs s)[j := StartFailed]\<rparr>)"
| ctrl_c: "in_phase j Running s \<Longrightarrow> life_step s (s\<lparr>cancelled := True\<rparr>)"
| notify: "in_phase j Running s \<Longrightarrow> cancelled s \<Longrightarrow>
     life_step s (s\<lparr>runs := (runs s)[j := Notified], callers := map wake (callers s)\<rparr>)"
| clear_alive: "in_phase j Notified s \<Longrightarrow>
     life_step s (s\<lparr>runs := (runs s)[j := Finished], is_alive := False\<rparr>)"
| shutdown_dead: "\<not> is_alive s \<Longrightarrow> life_step s (s\<lparr>callers := callers s @ [CallerReturned]\<rparr>)"
| shutdown_alive: "is_alive s \<Longrightarrow> life_step s (s\<lparr>callers := callers s @ [CallerChecked]\<rparr>)"
| shutdown_wait: "i < length (callers s) \<Longrightarrow> callers s ! i = CallerChecked \<Longrightarrow>
     life_step s (s\<lparr>cancelled := True, callers := (callers s)[i := CallerWaiting]\<rparr>)"
| drop_pool: "life_step s (s\<lparr>cancelled := True\<rparr>)"

inductive_cases life_stepE: "life_step s t"

definition life_start :: "pool_life \<Rightarrow> bool" where
  "life_start s \<longleftrightarrow> s = life_new"

definition life_inv :: "pool_life \<Rightarrow> bool" where
  "life_inv s \<longleftrightarrow> (is_alive s \<longleftrightarrow> Finished \<notin> set (runs s)) \<and>
     (CallerWaiting \<in> set (callers s) \<longrightarrow> cancelled s)"

lemma wake_not_waiting [simp]: "wake c \<noteq> CallerWaiting" "CallerWaiting \<notin> wake ` cs"
  by (cases c; simp) (metis imageE wake.simps wake.cases caller.distinct)

lemma set_phase:
  "in_phase j ph s \<Longrightarrow> ph' \<noteq> x \<Longrightarrow> ph \<noteq> x \<Longrightarrow> x \<in> set ((runs s)[j := ph']) \<longleftrightarrow> x \<in> set (runs s)"
  by (auto simp: in_phase_def in_set_conv_nth nth_list_update)

lemma life_inv_step: "life_inv s \<Longrightarrow> life_step s t \<Longrightarrow> life_inv t"
  by (erule life_stepE) (auto simp: life_inv_def set_phase, auto simp: in_phase_def set_update_memI)

interpretation life: invariant_system life_start life_step life_inv
  by unfold_locales (auto simp: life_start_def life_inv_step, simp add: life_inv_def life_new_def)

text \<open>
  A caller hangs when it waits and no run of \<open>start\<close> is under way; \<open>no_start\<close> are the steps other than
  another call of \<open>start\<close>.
\<close>

definition hanging :: "nat \<Rightarrow> pool_life \<Rightarrow> bool" where
  "hanging i s \<longleftrightarrow> i < length (callers s) \<and> callers s ! i = CallerWaiting \<and> Running \<notin> set (runs s)"

definition no_start :: "pool_life \<Rightarrow> pool_life \<Rightarrow> bool" where
  "no_start s t \<longleftrightarrow> life_step s t \<and> length (runs t) = length (runs s)"

lemma in_phase_mem: "in_phase j ph s \<Longrightarrow> ph \<in> set (runs s)"
  by (auto simp: in_phase_def)

lemma hanging_step: "hanging i s \<Longrightarrow> no_start s t \<Longrightarrow> hanging i t"
  unfolding no_start_def
  by (elim conjE life_stepE)
    (auto simp: hanging_def nth_append nth_list_update dest: set_update_subset_insert [THEN subsetD] in_phase_mem)

lemma hanging_stays: "no_start\<^sup>*\<^sup>* s t \<Longrightarrow> hanging i s \<Longrightarrow> hanging i t"
  by (induction rule: rtranclp_induct) (auto intro: hanging_step)

lemma restart_releases:
  assumes "life_inv s" and "hanging i s"
  shows "\<exists>t. life_step\<^sup>*\<^sup>* s t \<and> callers t ! i = CallerReturned"
proof -
  let ?s1 = "s\<lparr>runs := runs s @ [Running]\<rparr>"
  let ?s2 = "?s1\<lparr>runs := (runs ?s1)[length (runs s) := Notified], callers := map wake (callers ?s1)\<rparr>"
  from assms have wait: "i < length (callers s)" "callers s ! i = CallerWaiting" by (simp_all add: hanging_def)
  then have "cancelled s" using assms(1) nth_mem unfolding life_inv_def by metis
  then have "life_step ?s1 ?s2" by (intro life_step.notify) (simp_all add: in_phase_def)
  then have "life_step\<^sup>*\<^sup>* s ?s2"
    using life_step.start [of s] by (meson converse_rtranclp_into_rtranclp rtranclp.rtrancl_refl)
  moreover have "callers ?s2 ! i = CallerReturned" using wait by simp
  ultimately show ?thesis by blast
qed

section \<open>Properties\<close>

lemma bootstrap_backend:
  assumes "bootstrap_share_chain w c = Ok h"
  shows "(sch_ipc_tip_snapshot h \<noteq> None \<longleftrightarrow> p2p_ipc_socket c \<noteq> None) \<and>
    (sch_chain_store h \<noteq> None \<longleftrightarrow> p2p_ipc_socket c = None) \<and>
    sch_ipc_shutdown_signal h = map_option (\<lambda>_. False) (p2p_ipc_socket c)"
  using assms
  by (auto simp: bootstrap_share_chain_def bootstrap_ipc_def bootstrap_in_process_def rbind_iffs Let_def
      split: option.splits)

lemma u32_gauge: "sint (ucast (h :: u32) :: i64) = uint h"
proof -
  have up: "uint h < 2 ^ 32" and low: "0 \<le> uint h" using uint_bounded [of h] by simp_all
  have "take_bit 64 (uint h) = uint h" using up low by (simp add: take_bit_int_eq_self)
  moreover have "signed_take_bit 63 (uint h) = uint h"
  proof (rule signed_take_bit_int_eq_self)
    show "- (2 ^ 63) \<le> uint h" by (rule order_trans [OF _ low]) simp
    show "uint h < 2 ^ 63" using up by simp
  qed
  ultimately show ?thesis by (simp add: sint_uint unsigned_ucast_eq)
qed

text \<open>
  both tip-height publishers publish the height as a non-negative number and \<open>-1\<close> exactly when
  the height is unknown or could not be read: no height of the full 32-bit range is ever confused
  with "unknown".
\<close>

lemma tip_height_gauge:
  "sint (share_chain_tip_height (publish_height_ipc s m)) =
     (case load_height s of Some h \<Rightarrow> uint h | None \<Rightarrow> - 1) \<and>
   sint (share_chain_tip_height (publish_height_store cs m)) =
     (case cs_get_tip_height cs of Inr (Some h) \<Rightarrow> uint h | _ \<Rightarrow> - 1) \<and>
   (sint (share_chain_tip_height (publish_height_ipc s m)) = - 1 \<longleftrightarrow> load_height s = None)"
proof -
  have "uint (h :: u32) \<noteq> - 1" for h using unsigned_greater_eq [of h, where ?'a = int] by linarith
  then show ?thesis
    by (auto simp: publish_height_ipc_def publish_height_store_def u32_gauge split: option.splits sum.splits)
qed

text \<open>
  the engine that \<open>Pool::start\<close> assembles: with a p2pool configuration it has a backend, on IPC
  exactly when a socket is configured, its network is the p2pool configuration's whatever the
  template provider says, and it always has the bridge; the reorg watcher runs in both modes.
  Without p2pool configuration the engine has no backend, and only a missing or broken JDS
  configuration keeps it from starting.
\<close>

lemma start_engine_outcome:
  "case start_engine w p t of
     Ok (e, sh) \<Rightarrow>
       tdp e = Some t \<and> eng_network e = config_network p \<and>
       (case pool_p2pool p of
          None \<Rightarrow> handles e = None \<and> sh = None \<and> reorg_watcher (start_background sh e) = None
        | Some c \<Rightarrow>
            eng_network e = p2p_network c \<and>
            (\<exists>h. sh = Some h \<and> handles e = Some (sch_engine_handles h) \<and>
               reorg_watcher (start_background sh e) \<noteq> None \<and>
               (sch_ipc_tip_snapshot h \<noteq> None \<longleftrightarrow> p2p_ipc_socket c \<noteq> None) \<and>
               (sch_chain_store h \<noteq> None \<longleftrightarrow> p2p_ipc_socket c = None))) \<and>
       sweeper (start_background sh e) \<noteq> None
   | Err (ShareChainBootstrap _) \<Rightarrow> pool_p2pool p \<noteq> None
   | Err _ \<Rightarrow> out_jds_config w \<noteq> Inr True
   | Panic \<Rightarrow> pool_p2pool p \<noteq> None"
proof -
  consider (no_jds) "out_jds_config w \<noteq> Inr True"
    | (tdp_only) "out_jds_config w = Inr True" "pool_p2pool p = None"
    | (p2pool) c where "out_jds_config w = Inr True" "pool_p2pool p = Some c"
    by (cases "pool_p2pool p") blast+
  then show ?thesis
  proof cases
    case no_jds
    then show ?thesis
      by (cases "out_jds_config w") (auto simp: start_engine_def)
  next
    case tdp_only
    then show ?thesis
      by (simp add: start_engine_def with_tdp_def build_engine_def engine_new_def start_background_def
          start_recent_solutions_sweeper_def spawn_task_def Let_def)
  next
    case (p2pool c)
    have sw: "sweeper (start_recent_solutions_sweeper e) \<noteq> None"
      "reorg_watcher (start_recent_solutions_sweeper e) = reorg_watcher e" for e
      by (auto simp: start_recent_solutions_sweeper_def spawn_task_def abort_task_def Let_def split: option.splits)
    have rw: "reorg_watcher (start_reorg_watcher e) \<noteq> None" for e
      by (simp add: start_reorg_watcher_def spawn_task_def Let_def)
    show ?thesis
    proof (cases "bootstrap_share_chain w c")
      case (Ok h)
      with bootstrap_backend [OF Ok] p2pool sw rw show ?thesis
        by (auto simp: start_engine_def with_tdp_def build_engine_with_handles_def engine_with_handles_def
            engine_new_def config_network_def start_background_def)
    qed (use p2pool in \<open>simp_all add: start_engine_def\<close>)
  qed
qed

text \<open>
  One run of \<open>start\<close> that fails and a \<open>shutdown\<close> after it, and one that is told to stop and a \<open>shutdown\<close>
  between its notification and the clearing of \<open>is_alive\<close>.
\<close>

definition hung_after_error :: pool_life where
  "hung_after_error = \<lparr>is_alive = True, cancelled = True, runs = [StartFailed], callers = [CallerWaiting]\<rparr>"

definition hung_after_stop :: pool_life where
  "hung_after_stop = \<lparr>is_alive = False, cancelled = True, runs = [Finished], callers = [CallerWaiting]\<rparr>"

lemma begun_reach: "reach life_start life_step (life_new\<lparr>runs := [Running]\<rparr>)"
proof -
  have "reach life_start life_step life_new" by (rule reach_start) (simp add: life_start_def)
  moreover have "life_step life_new (life_new\<lparr>runs := [Running]\<rparr>)"
    using life_step.start [of life_new] by (simp add: life_new_def)
  ultimately show ?thesis by (rule reach_step)
qed

lemma shutdown_reach:
  assumes "reach life_start life_step s" and "is_alive s" and "callers s = []"
  shows "reach life_start life_step (s\<lparr>cancelled := True, callers := [CallerWaiting]\<rparr>)"
proof -
  let ?s1 = "s\<lparr>callers := [CallerChecked]\<rparr>"
  have "life_step s ?s1" using life_step.shutdown_alive [of s] assms(2,3) by simp
  with assms(1) have "reach life_start life_step ?s1" by (rule reach_step)
  moreover have "life_step ?s1 (?s1\<lparr>cancelled := True, callers := [CallerWaiting]\<rparr>)"
    using life_step.shutdown_wait [of 0 ?s1] by simp
  ultimately have "reach life_start life_step (?s1\<lparr>cancelled := True, callers := [CallerWaiting]\<rparr>)" by (rule reach_step)
  then show ?thesis by simp
qed

lemma hung_after_error_reach: "reach life_start life_step hung_after_error"
proof -
  let ?s = "life_new\<lparr>runs := [StartFailed]\<rparr>"
  have "life_step (life_new\<lparr>runs := [Running]\<rparr>) ?s"
    using life_step.start_err [of 0 "life_new\<lparr>runs := [Running]\<rparr>"] by (simp add: in_phase_def life_new_def)
  with begun_reach have "reach life_start life_step ?s" by (rule reach_step)
  from shutdown_reach [OF this] show ?thesis by (simp add: hung_after_error_def life_new_def)
qed

lemma hung_after_stop_reach: "reach life_start life_step hung_after_stop"
proof -
  let ?s1 = "life_new\<lparr>runs := [Running], cancelled := True\<rparr>" and ?s2 = "life_new\<lparr>runs := [Notified], cancelled := True\<rparr>"
  let ?s3 = "?s2\<lparr>callers := [CallerWaiting]\<rparr>"
  have "life_step (life_new\<lparr>runs := [Running]\<rparr>) ?s1" using life_step.drop_pool by fastforce
  with begun_reach have "reach life_start life_step ?s1" by (rule reach_step)
  moreover have "life_step ?s1 ?s2" using life_step.notify [of 0 ?s1] by (simp add: in_phase_def life_new_def)
  ultimately have "reach life_start life_step ?s2" by (rule reach_step)
  from shutdown_reach [OF this] have "reach life_start life_step ?s3" by (simp add: life_new_def)
  moreover have "life_step ?s3 hung_after_stop"
    using life_step.clear_alive [of 0 ?s3] by (simp add: in_phase_def life_new_def hung_after_stop_def)
  ultimately show ?thesis by (rule reach_step)
qed

text \<open>
  C34: \<open>shutdown\<close> can hang: when \<open>start\<close> has returned an error, and when \<open>shutdown\<close> is called after \<open>start\<close>
  has notified its waiters but before it clears \<open>is_alive\<close>, the caller waits for a notification that no
  one is left to send: it still waits after anything that can happen short of another call of \<open>start\<close>.
  Only such a further call, which finds the pool cancelled, shuts down and notifies again, can release
  it.
\<close>

theorem shutdown_can_hang:
  "reach life_start life_step hung_after_error \<and> runs hung_after_error = [StartFailed] \<and>
   {t. no_start\<^sup>*\<^sup>* hung_after_error t} \<subseteq> {t. callers t ! 0 = CallerWaiting} \<and>
   (\<exists>t. life_step\<^sup>*\<^sup>* hung_after_error t \<and> callers t ! 0 = CallerReturned) \<and>
   reach life_start life_step hung_after_stop \<and> runs hung_after_stop = [Finished] \<and>
   {t. no_start\<^sup>*\<^sup>* hung_after_stop t} \<subseteq> {t. callers t ! 0 = CallerWaiting} \<and>
   (\<exists>t. life_step\<^sup>*\<^sup>* hung_after_stop t \<and> callers t ! 0 = CallerReturned)"
proof -
  have hang: "{t. no_start\<^sup>*\<^sup>* s t} \<subseteq> {t. callers t ! 0 = CallerWaiting}" if "hanging 0 s" for s
    using hanging_stays [OF _ that] unfolding hanging_def by blast
  have "hanging 0 hung_after_error" "hanging 0 hung_after_stop"
    by (simp_all add: hanging_def hung_after_error_def hung_after_stop_def)
  moreover have "runs hung_after_error = [StartFailed]" "runs hung_after_stop = [Finished]"
    by (simp_all add: hung_after_error_def hung_after_stop_def)
  ultimately show ?thesis
    using hang hung_after_error_reach hung_after_stop_reach restart_releases life.inv_reach by blast
qed

end
