(* ===== verification/Pool_Start.thy ===== *)
theory Pool_Start
  imports Pool_Runtime Metrics_Endpoint
begin

text \<open>
  The whole of \<open>Pool::start\<close> (\<open>crates/sv2-p2pool-pool/src/pool.rs\<close>) as one sequence of fallible
  steps, with the tasks it spawns, what each early return leaves behind and what the graceful shutdown
  stops; the accept loop of \<open>metrics_endpoint.rs\<close>, the rest of \<open>builder.rs\<close>, \<open>args.rs\<close> and \<open>main.rs\<close>.
  What the vendored services answer (job declarator, channel manager, template provider, monitoring
  server, command-line parser and configuration loaders) is a parameter. A dropped \<open>JoinHandle\<close>
  detaches its task, so an early return aborts none of the spawned tasks.
\<close>

section \<open>The metrics endpoint\<close>

datatype endpoint_error = Bind string string

definition spawn_metrics_endpoint ::
  "(string \<Rightarrow> string + unit) \<Rightarrow> (string \<Rightarrow> string + string) \<Rightarrow> string \<Rightarrow> (endpoint_error, string) result" where
  "spawn_metrics_endpoint bind local_addr addr =
     rbind (sum_result (Bind addr) (bind addr)) (\<lambda>_.
     rbind (sum_result (Bind addr) (local_addr addr)) (\<lambda>bound.
     Ok bound))"

text \<open>
  The accept loop: every accepted connection is handled by its own task, an accept error is skipped.
  The result lists the responses of the handlers, in the order of acceptance; a handler that fails
  ends alone.
\<close>

fun accept_loop ::
  "(string \<Rightarrow> bool) \<Rightarrow> (nat \<Rightarrow> string + string) \<Rightarrow> string \<Rightarrow> nat \<Rightarrow> (string + (string + string) list) list \<Rightarrow> string option list" where
  "accept_loop valid_utf8 encode fmt n [] = []"
| "accept_loop valid_utf8 encode fmt n (Inl e # rest) = accept_loop valid_utf8 encode fmt (Suc n) rest"
| "accept_loop valid_utf8 encode fmt n (Inr reads # rest) =
     (case handle_one valid_utf8 (encode n) fmt reads of Inl _ \<Rightarrow> None | Inr resp \<Rightarrow> Some resp)
       # accept_loop valid_utf8 encode fmt (Suc n) rest"

section \<open>Starting the pool\<close>

datatype pool_task = TeeTask | MergeTask | EndpointTask | PublisherTask | ActorWatcherTask | BitcoinCoreThread | MonitoringTask

datatype pool_error = EngineSetup start_error | JdsError string | ServiceError string | NoDataDir

record services =
  svc_register_metrics :: "string + engine_metrics"
  svc_bind :: "string \<Rightarrow> string + unit"
  svc_local_addr :: "string \<Rightarrow> string + string"
  svc_jd_new :: "string + unit"
  svc_jd_start :: "string + unit"
  svc_jd_listen :: "string + unit"
  svc_cm_new :: "string + unit"
  svc_tp_new :: "string + unit"
  svc_tp_start :: "string + unit"
  svc_ipc_socket_path :: "string option"
  svc_cm_start :: "string + unit"
  svc_cm_listen :: "string + unit"
  svc_monitoring :: "(string + unit) option"
  svc_holds_engine :: bool

text \<open>
  \<open>svc_holds_engine\<close>: whether a detached task of the job declarator still holds the engine when \<open>start\<close>
  returns early. \<open>pool_tasks\<close> are the tasks that \<open>start\<close> has spawned and neither aborted nor joined.
\<close>

record boot =
  pool_tasks :: "pool_task list"
  boot_engine :: "engine option"

definition boot_start :: boot where
  "boot_start = \<lparr>pool_tasks = [], boot_engine = None\<rparr>"

definition boot_spawn :: "pool_task \<Rightarrow> (boot, pool_error, unit) st" where
  "boot_spawn t s = (Ok (), s\<lparr>pool_tasks := t # pool_tasks s\<rparr>)"

definition boot_spawn_if :: "bool \<Rightarrow> pool_task \<Rightarrow> (boot, pool_error, unit) st" where
  "boot_spawn_if c t = (if c then boot_spawn t else io_return ())"

definition boot_keep :: "engine \<Rightarrow> (boot, pool_error, unit) st" where
  "boot_keep e s = (Ok (), s\<lparr>boot_engine := Some e\<rparr>)"

definition boot_call :: "(string \<Rightarrow> pool_error) \<Rightarrow> string + 'a \<Rightarrow> (boot, pool_error, 'a) st" where
  "boot_call f x = io_lift (sum_result f x)"

definition endpoint_up :: "services \<Rightarrow> pool \<Rightarrow> bool" where
  "endpoint_up sv p =
     (case pool_metrics_addr p of
        None \<Rightarrow> False
      | Some addr \<Rightarrow>
          (case spawn_metrics_endpoint (svc_bind sv) (svc_local_addr sv) addr of Ok _ \<Rightarrow> True | _ \<Rightarrow> False))"

definition publisher_up :: "services \<Rightarrow> share_chain_handles option \<Rightarrow> bool" where
  "publisher_up sv sh =
     (case sh of
        None \<Rightarrow> False
      | Some h \<Rightarrow> (sch_ipc_tip_snapshot h \<noteq> None \<or> sch_chain_store h \<noteq> None) \<and>
                 (case svc_register_metrics sv of Inr _ \<Rightarrow> True | Inl _ \<Rightarrow> False))"

definition actor_watcher_up :: "share_chain_handles option \<Rightarrow> bool" where
  "actor_watcher_up sh =
     (case sh of
        None \<Rightarrow> False
      | Some h \<Rightarrow> sch_ipc_tip_snapshot h \<noteq> None \<and> sch_ipc_shutdown_signal h \<noteq> None)"

definition wire_template_provider :: "services \<Rightarrow> template_provider_type \<Rightarrow> (boot, pool_error, unit) st" where
  "wire_template_provider sv tp =
     (case tp of
        Sv2Tp \<Rightarrow>
          io_bind (boot_call ServiceError (svc_tp_new sv)) (\<lambda>_. boot_call ServiceError (svc_tp_start sv))
      | BitcoinCoreIpc network \<Rightarrow>
          io_bind (io_lift (ok_or NoDataDir (svc_ipc_socket_path sv))) (\<lambda>_. boot_spawn BitcoinCoreThread))"

definition start_monitoring :: "services \<Rightarrow> (boot, pool_error, unit) st" where
  "start_monitoring sv =
     (case svc_monitoring sv of
        Some (Inr _) \<Rightarrow> boot_spawn MonitoringTask
      | _ \<Rightarrow> io_return ())"

text \<open>First the services on top of the engine (steps 3b to 6b of the source), then the whole.\<close>

definition boot_services :: "services \<Rightarrow> pool \<Rightarrow> (boot, pool_error, unit) st" where
  "boot_services sv p =
     io_bind (boot_call JdsError (svc_jd_new sv)) (\<lambda>_.
     io_bind (boot_call JdsError (svc_jd_start sv)) (\<lambda>_.
     io_bind (boot_call JdsError (svc_jd_listen sv)) (\<lambda>_.
     io_bind (boot_call ServiceError (svc_cm_new sv)) (\<lambda>_.
     io_bind (wire_template_provider sv (pool_tp p)) (\<lambda>_.
     io_bind (boot_call ServiceError (svc_cm_start sv)) (\<lambda>_.
     io_bind (boot_call ServiceError (svc_cm_listen sv)) (\<lambda>_.
     start_monitoring sv)))))))"

definition pool_boot :: "outside \<Rightarrow> services \<Rightarrow> pool \<Rightarrow> tdp_handle \<Rightarrow> (boot, pool_error, unit) st" where
  "pool_boot w sv p t =
     io_bind (io_lift (map_err EngineSetup (start_engine w p t))) (\<lambda>(e, sh).
     io_bind (boot_spawn_if (endpoint_up sv p) EndpointTask) (\<lambda>_.
     io_bind (boot_spawn_if (publisher_up sv sh) PublisherTask) (\<lambda>_.
     io_bind (boot_spawn_if (actor_watcher_up sh) ActorWatcherTask) (\<lambda>_.
     io_bind (boot_keep (start_background sh (attach_metrics (svc_register_metrics sv) e))) (\<lambda>_.
     io_bind (boot_spawn TeeTask) (\<lambda>_.
     io_bind (boot_spawn MergeTask) (\<lambda>_.
     boot_services sv p)))))))"

text \<open>
  The graceful shutdown, which runs once the pool has been cancelled, joins the Bitcoin Core thread,
  aborts the tasks whose handles \<open>start\<close> kept, joins or aborts the task manager's, and drops the engine.
  An early return only drops the handles, and the engine when no service holds it.
\<close>

definition graceful_shutdown :: "boot \<Rightarrow> boot" where
  "graceful_shutdown s =
     \<lparr>pool_tasks = fold removeAll
        [BitcoinCoreThread, TeeTask, MergeTask, EndpointTask, PublisherTask, ActorWatcherTask, MonitoringTask]
        (pool_tasks s),
      boot_engine = map_option engine_drop (boot_engine s)\<rparr>"

definition early_return :: "services \<Rightarrow> boot \<Rightarrow> boot" where
  "early_return sv s =
     (if svc_holds_engine sv then s else s\<lparr>boot_engine := map_option engine_drop (boot_engine s)\<rparr>)"

definition pool_start :: "outside \<Rightarrow> services \<Rightarrow> pool \<Rightarrow> tdp_handle \<Rightarrow> (pool_error, unit) result \<times> boot" where
  "pool_start w sv p t =
     (case pool_boot w sv p t boot_start of
        (Ok u, s) \<Rightarrow> (Ok u, graceful_shutdown s)
      | (r, s) \<Rightarrow> (r, early_return sv s))"

section \<open>Building a pool\<close>

definition build_pool :: "template_provider_type \<Rightarrow> pool" where
  "build_pool tp = pool_new tp"

definition build_pool_with_p2pool_config :: "template_provider_type \<Rightarrow> p2pool_config \<Rightarrow> pool" where
  "build_pool_with_p2pool_config tp c = with_p2pool_config c (pool_new tp)"

section \<open>Command line and entry point\<close>

text \<open>A path is the text \<open>to_str\<close> gives for it, nothing when it is not valid UTF-8; \<open>shown\<close> is its
  \<open>Debug\<close> text.\<close>

record args =
  config_path :: "string option"
  p2pool_config_path :: "string option"
  log_file :: "string option"
  metrics_addr :: "string option"
  shown :: "string \<times> string"

definition default_args :: args where
  "default_args =
     \<lparr>config_path = Some ''sv2-p2pool.toml'', p2pool_config_path = Some ''p2poolv2.toml'', log_file = None,
      metrics_addr = None, shown = (''sv2-p2pool.toml'', ''p2poolv2.toml'')\<rparr>"

record 'c loaded_configs =
  lc_pool :: 'c
  lc_p2pool :: p2pool_config
  lc_metrics_addr :: "string option"

definition process_cli_args ::
  "(string \<Rightarrow> string + 'c) \<Rightarrow> (string option \<Rightarrow> 'c \<Rightarrow> 'c) \<Rightarrow> (string \<Rightarrow> string + p2pool_config) \<Rightarrow> args \<Rightarrow>
   (string, 'c loaded_configs) result" where
  "process_cli_args load_pool set_log_dir load_p2pool a =
     rbind (ok_or (''invalid config path: '' @ fst (shown a)) (config_path a)) (\<lambda>path.
     rbind (sum_result id (load_pool path)) (\<lambda>c.
     let c' = set_log_dir (log_file a) c in
     rbind (ok_or (''invalid p2pool config path: '' @ snd (shown a)) (p2pool_config_path a)) (\<lambda>p2path.
     rbind (sum_result (\<lambda>e. ''failed to load p2poolv2 config from '' @ p2path @ '': '' @ e) (load_p2pool p2path)) (\<lambda>q.
     Ok \<lparr>lc_pool = c', lc_p2pool = q, lc_metrics_addr = metrics_addr a\<rparr>))))"

definition main_pool :: "('c \<Rightarrow> template_provider_type) \<Rightarrow> 'c loaded_configs \<Rightarrow> pool" where
  "main_pool tp_of c =
     (let p = build_pool_with_p2pool_config (tp_of (lc_pool c)) (lc_p2pool c)
      in case lc_metrics_addr c of None \<Rightarrow> p | Some addr \<Rightarrow> with_metrics_addr addr p)"

definition main_run ::
  "(string \<Rightarrow> string + 'c) \<Rightarrow> (string option \<Rightarrow> 'c \<Rightarrow> 'c) \<Rightarrow> (string \<Rightarrow> string + p2pool_config) \<Rightarrow>
   ('c \<Rightarrow> template_provider_type) \<Rightarrow> (pool_error \<Rightarrow> string) \<Rightarrow> outside \<Rightarrow> services \<Rightarrow> tdp_handle \<Rightarrow> args \<Rightarrow>
   (string, unit) result" where
  "main_run load_pool set_log_dir load_p2pool tp_of fmt w sv t a =
     rbind (process_cli_args load_pool set_log_dir load_p2pool a) (\<lambda>c.
     map_err (\<lambda>e. ''pool runtime error: '' @ fmt e) (fst (pool_start w sv (main_pool tp_of c) t)))"

section \<open>Lemmas\<close>

lemma io_bind_lift: "io_bind (io_lift r) f s = (case r of Ok a \<Rightarrow> f a s | Err e \<Rightarrow> (Err e, s) | Panic \<Rightarrow> (Panic, s))"
  by (cases r) (simp_all add: io_bind_def io_lift_def)

lemma bind_spawn [simp]: "io_bind (boot_spawn t) f s = f () (s\<lparr>pool_tasks := t # pool_tasks s\<rparr>)"
  by (simp add: io_bind_def boot_spawn_def)

lemma bind_spawn_if [simp]:
  "io_bind (boot_spawn_if c t) f s = f () (s\<lparr>pool_tasks := (if c then [t] else []) @ pool_tasks s\<rparr>)"
  by (simp add: boot_spawn_if_def io_bind_def boot_spawn_def io_return_def)

lemma bind_keep [simp]: "io_bind (boot_keep e) f s = f () (s\<lparr>boot_engine := Some e\<rparr>)"
  by (simp add: io_bind_def boot_keep_def)

lemma bind_call [simp]:
  "io_bind (boot_call g x) f s = (case x of Inr a \<Rightarrow> f a s | Inl e \<Rightarrow> (Err (g e), s))"
  by (cases x) (simp_all add: boot_call_def io_bind_lift)

definition booted :: "services \<Rightarrow> pool \<Rightarrow> engine \<Rightarrow> share_chain_handles option \<Rightarrow> boot" where
  "booted sv p e sh =
     \<lparr>pool_tasks = [MergeTask, TeeTask] @ (if actor_watcher_up sh then [ActorWatcherTask] else []) @
        (if publisher_up sv sh then [PublisherTask] else []) @ (if endpoint_up sv p then [EndpointTask] else []),
      boot_engine = Some (start_background sh (attach_metrics (svc_register_metrics sv) e))\<rparr>"

lemma pool_boot_split:
  "pool_boot w sv p t boot_start =
     (case start_engine w p t of
        Ok (e, sh) \<Rightarrow> boot_services sv p (booted sv p e sh)
      | Err x \<Rightarrow> (Err (EngineSetup x), boot_start)
      | Panic \<Rightarrow> (Panic, boot_start))"
  by (cases "start_engine w p t")
    (auto simp: pool_boot_def io_bind_lift booted_def boot_start_def)

lemma early_return_start: "early_return sv boot_start = boot_start"
  by (simp add: early_return_def boot_start_def)

definition services_ok :: "services \<Rightarrow> template_provider_type \<Rightarrow> bool" where
  "services_ok sv tp =
     (list_all (\<lambda>x. \<not> isl x) [svc_jd_new sv, svc_jd_start sv, svc_jd_listen sv, svc_cm_new sv, svc_cm_start sv, svc_cm_listen sv] \<and>
      (case tp of Sv2Tp \<Rightarrow> \<not> isl (svc_tp_new sv) \<and> \<not> isl (svc_tp_start sv)
       | BitcoinCoreIpc _ \<Rightarrow> svc_ipc_socket_path sv \<noteq> None))"

definition boot_extends :: "pool_task set \<Rightarrow> boot \<Rightarrow> (pool_error, unit) result \<times> boot \<Rightarrow> bool \<Rightarrow> bool" where
  "boot_extends T s out ok =
     ((fst out = Ok () \<longleftrightarrow> ok) \<and> fst out \<noteq> Panic \<and> (\<forall>x. fst out \<noteq> Err (EngineSetup x)) \<and>
      boot_engine (snd out) = boot_engine s \<and> (\<exists>extra. pool_tasks (snd out) = extra @ pool_tasks s \<and> set extra \<subseteq> T))"

lemma boot_extends_bind:
  assumes "\<And>s. boot_extends T s (m s) a" and "\<And>s. boot_extends T s (f () s) b"
  shows "boot_extends T s (io_bind m f s) (a \<and> b)"
proof -
  obtain r s1 where m: "m s = (r, s1)" by (cases "m s")
  have 1: "boot_extends T s (r, s1) a" using assms(1) [of s] m by simp
  show ?thesis
  proof (cases r)
    case (Ok u)
    have "boot_extends T s1 (f () s1) b" by (rule assms(2))
    moreover have "io_bind m f s = f () s1" using m Ok by (simp add: io_bind_def)
    ultimately show ?thesis
      using 1 Ok by (auto simp: boot_extends_def)
  qed (use m 1 in \<open>auto simp: boot_extends_def io_bind_def\<close>)
qed

lemma call_extends:
  fixes a :: "string + unit"
  assumes "g = JdsError \<or> g = ServiceError"
  shows "boot_extends T s (boot_call g a s) (\<not> isl a)"
  using assms by (cases a) (auto simp: boot_extends_def boot_call_def io_lift_def)

lemma spawn_extends: "t \<in> T \<Longrightarrow> boot_extends T s (boot_spawn t s) True"
  by (auto simp: boot_extends_def boot_spawn_def)

abbreviation service_tasks :: "pool_task set" where
  "service_tasks \<equiv> {BitcoinCoreThread, MonitoringTask}"

lemma wire_extends:
  "boot_extends service_tasks s (wire_template_provider sv tp s)
     (case tp of Sv2Tp \<Rightarrow> \<not> isl (svc_tp_new sv) \<and> \<not> isl (svc_tp_start sv)
       | BitcoinCoreIpc _ \<Rightarrow> svc_ipc_socket_path sv \<noteq> None)"
proof (cases tp)
  case Sv2Tp
  then show ?thesis
    by (simp add: wire_template_provider_def boot_extends_bind call_extends del: bind_call)
next
  case (BitcoinCoreIpc n)
  have "boot_extends service_tasks s (io_lift (ok_or NoDataDir (map_option (\<lambda>_. ()) x)) s) (x \<noteq> None)" for x :: "string option" and s
    by (cases x) (auto simp: boot_extends_def io_lift_def)
  with BitcoinCoreIpc show ?thesis
    by (cases "svc_ipc_socket_path sv")
      (auto simp: wire_template_provider_def io_bind_lift boot_extends_def boot_spawn_def)
qed

lemma monitoring_extends: "boot_extends service_tasks s (start_monitoring sv s) True"
  by (auto simp: start_monitoring_def boot_extends_def boot_spawn_def io_return_def split: option.splits sum.splits)

lemma boot_services_extends:
  "boot_extends service_tasks s (boot_services sv p s) (services_ok sv (pool_tp p))"
proof -
  have "boot_extends service_tasks s (boot_services sv p s)
     (\<not> isl (svc_jd_new sv) \<and> \<not> isl (svc_jd_start sv) \<and> \<not> isl (svc_jd_listen sv) \<and> \<not> isl (svc_cm_new sv) \<and>
      (case pool_tp p of Sv2Tp \<Rightarrow> \<not> isl (svc_tp_new sv) \<and> \<not> isl (svc_tp_start sv)
       | BitcoinCoreIpc _ \<Rightarrow> svc_ipc_socket_path sv \<noteq> None) \<and>
      \<not> isl (svc_cm_start sv) \<and> \<not> isl (svc_cm_listen sv) \<and> True)"
    unfolding boot_services_def
    by (intro boot_extends_bind call_extends wire_extends monitoring_extends) simp_all
  then show ?thesis by (simp add: services_ok_def conj_ac)
qed

text \<open>What an engine that was started in the background leaves running when it is dropped.\<close>

lemma started_engine:
  assumes "start_engine w p t = Ok (e, sh)"
  shows "tasks (attach_metrics r e) = dm_empty \<and> next_task (attach_metrics r e) = 0 \<and>
    reorg_watcher (attach_metrics r e) = None \<and> sweeper (attach_metrics r e) = None \<and>
    (if pool_p2pool p = None then sh = None
     else \<exists>h. sh = Some h \<and> (sch_ipc_tip_snapshot h \<noteq> None \<or> sch_chain_store h \<noteq> None))"
proof -
  have "tasks e = dm_empty \<and> next_task e = 0 \<and> reorg_watcher e = None \<and> sweeper e = None \<and>
      (pool_p2pool p = None \<longrightarrow> sh = None) \<and>
      (pool_p2pool p \<noteq> None \<longrightarrow> (\<exists>h. sh = Some h \<and> (sch_ipc_tip_snapshot h \<noteq> None \<or> sch_chain_store h \<noteq> None)))"
    using assms
    by (auto simp: start_engine_def rbind_iffs with_tdp_def build_engine_def build_engine_with_handles_def
        engine_with_handles_def engine_new_def split: option.splits if_splits dest: bootstrap_backend)
  then show ?thesis by (auto simp: attach_metrics_def with_metrics_def split: sum.splits)
qed

lemmas background_defs = start_background_def start_recent_solutions_sweeper_def start_reorg_watcher_def engine_drop_def
  spawn_task_def abort_task_def stop_recent_solutions_sweeper_def stop_reorg_watcher_def Let_def

lemma engine_left_running:
  assumes "start_engine w p t = Ok (e, sh)"
  shows "dm_get (tasks (engine_drop (start_background sh (attach_metrics r e)))) =
    (if pool_p2pool p = None then Map.empty else [0 \<mapsto> InvalidatorTask, 1 \<mapsto> DetectorTask])"
proof (cases "pool_p2pool p")
  case None
  with started_engine [OF assms, of r] show ?thesis by (auto simp: background_defs)
next
  case (Some c)
  with started_engine [OF assms, of r] show ?thesis by (auto simp: background_defs fun_eq_iff)
qed

lemma engine_tasks_running:
  assumes "start_engine w p t = Ok (e, sh)" and "pool_p2pool p \<noteq> None"
  shows "dm_get (tasks (start_background sh (attach_metrics r e))) 0 = Some InvalidatorTask \<and>
    dm_get (tasks (start_background sh (attach_metrics r e))) 1 = Some DetectorTask"
proof -
  let ?e = "attach_metrics r e"
  have e: "tasks ?e = dm_empty" "next_task ?e = 0" "reorg_watcher ?e = None" "sweeper ?e = None"
    and h: "\<exists>h. sh = Some h \<and> (sch_ipc_tip_snapshot h \<noteq> None \<or> sch_chain_store h \<noteq> None)"
    using started_engine [OF assms(1), of r] assms(2) by simp_all
  from h have "start_background sh ?e = start_recent_solutions_sweeper (start_reorg_watcher ?e)"
    by (auto simp: start_background_def)
  with e show ?thesis
    by (simp add: start_recent_solutions_sweeper_def start_reorg_watcher_def spawn_task_def Let_def
        stop_recent_solutions_sweeper_def stop_reorg_watcher_def)
qed

section \<open>Properties\<close>

text \<open>
  C35: what \<open>Pool::start\<close> leaves running. It succeeds exactly when the engine can be set up and every
  service it calls answers; a metrics endpoint that cannot bind, a duplicate metrics registration and
  a failing monitoring server do not stop it. The graceful shutdown stops every task that \<open>start\<close>
  itself spawned. An error of a later service stops none of them: the demux tasks and, where they were
  started, the endpoint, the height publisher and the actor watcher are left without a handle, and the
  loops of the endpoint and the publisher have no end of their own. In both cases, with a share chain
  attached, the reorg detector and the invalidator of the engine are left running.
\<close>

theorem pool_start_outcome:
  "case pool_start w sv p t of
     (Ok u, s) \<Rightarrow>
       (\<exists>e sh. start_engine w p t = Ok (e, sh)) \<and> services_ok sv (pool_tp p) \<and> pool_tasks s = [] \<and>
       (\<exists>e. boot_engine s = Some e \<and> dm_get (tasks e) =
          (if pool_p2pool p = None then Map.empty else [0 \<mapsto> InvalidatorTask, 1 \<mapsto> DetectorTask]))
   | (Err (EngineSetup x), s) \<Rightarrow> start_engine w p t = Err x \<and> s = boot_start
   | (Err _, s) \<Rightarrow>
       \<not> services_ok sv (pool_tp p) \<and>
       (\<exists>e sh e'. start_engine w p t = Ok (e, sh) \<and>
          {TeeTask, MergeTask} \<subseteq> set (pool_tasks s) \<and>
          (EndpointTask \<in> set (pool_tasks s) \<longleftrightarrow> endpoint_up sv p) \<and>
          (PublisherTask \<in> set (pool_tasks s) \<longleftrightarrow> publisher_up sv sh) \<and>
          (ActorWatcherTask \<in> set (pool_tasks s) \<longleftrightarrow> actor_watcher_up sh) \<and>
          boot_engine s = Some e' \<and>
          (pool_p2pool p = None \<or>
           dm_get (tasks e') 0 = Some InvalidatorTask \<and> dm_get (tasks e') 1 = Some DetectorTask))
   | (Panic, s) \<Rightarrow> start_engine w p t = Panic"
proof (cases "start_engine w p t")
  case (Ok eh)
  obtain e sh where eh: "eh = (e, sh)" by (cases eh)
  let ?b = "booted sv p e sh"
  obtain r s where r: "boot_services sv p ?b = (r, s)" by (cases "boot_services sv p ?b")
  have x: "boot_extends service_tasks ?b (r, s) (services_ok sv (pool_tp p))"
    using boot_services_extends [of ?b sv p] r by simp
  then obtain extra where extra: "pool_tasks s = extra @ pool_tasks ?b" "set extra \<subseteq> service_tasks"
    by (auto simp: boot_extends_def)
  have left: "dm_get (tasks (engine_drop (start_background sh (attach_metrics (svc_register_metrics sv) e)))) =
      (if pool_p2pool p = None then Map.empty else [0 \<mapsto> InvalidatorTask, 1 \<mapsto> DetectorTask])"
    using engine_left_running Ok eh by blast
  have all: "set (pool_tasks s) \<subseteq> {BitcoinCoreThread, TeeTask, MergeTask, EndpointTask, PublisherTask, ActorWatcherTask, MonitoringTask}"
    using pool_task.exhaust by blast
  have removed: "pool_tasks (graceful_shutdown s) = []"
    by (auto simp: graceful_shutdown_def removeAll_filter_not_eq filter_empty_conv) (metis pool_task.exhaust)
  show ?thesis
  proof (cases r)
    case (Ok u)
    with x left removed \<open>start_engine w p t = Ok eh\<close> eh r show ?thesis
      by (simp add: pool_start_def pool_boot_split boot_extends_def graceful_shutdown_def booted_def)
  next
    case (Err er)
    let ?e = "start_background sh (attach_metrics (svc_register_metrics sv) e)"
    have engine: "boot_engine (early_return sv s) = Some (if svc_holds_engine sv then ?e else engine_drop ?e)"
      and kept: "pool_tasks (early_return sv s) = pool_tasks s"
      using x by (auto simp: early_return_def boot_extends_def booted_def)
    have "pool_p2pool p = None \<or>
        dm_get (tasks (if svc_holds_engine sv then ?e else engine_drop ?e)) 0 = Some InvalidatorTask \<and>
        dm_get (tasks (if svc_holds_engine sv then ?e else engine_drop ?e)) 1 = Some DetectorTask"
      using left engine_tasks_running [of w p t e sh "svc_register_metrics sv"] \<open>start_engine w p t = Ok eh\<close> eh
      by auto
    with Err x extra engine kept \<open>start_engine w p t = Ok eh\<close> eh r show ?thesis
      by (cases er) (auto simp: pool_start_def pool_boot_split boot_extends_def booted_def)
  next
    case Panic
    with x show ?thesis by (simp add: boot_extends_def)
  qed
qed (simp_all add: pool_start_def pool_boot_split early_return_start)

text \<open>
  the endpoint serves every connection it accepts: an accept error and a handler that fails affect
  no other connection, and each response is the answer to its own request with the metrics gathered
  for it.
\<close>

lemma accept_loop_serves_all:
  "accept_loop valid encode fmt n conns =
     List.map_filter
       (\<lambda>(k, c). case c of
          Inl _ \<Rightarrow> None
        | Inr reads \<Rightarrow> Some (case handle_one valid (encode k) fmt reads of Inl _ \<Rightarrow> None | Inr resp \<Rightarrow> Some resp))
       (enumerate n conns) \<and>
   length (accept_loop valid encode fmt n conns) = length (filter (\<lambda>c. \<not> isl c) conns)"
proof
  show "accept_loop valid encode fmt n conns =
     List.map_filter
       (\<lambda>(k, c). case c of
          Inl _ \<Rightarrow> None
        | Inr reads \<Rightarrow> Some (case handle_one valid (encode k) fmt reads of Inl _ \<Rightarrow> None | Inr resp \<Rightarrow> Some resp))
       (enumerate n conns)"
  proof (induction conns arbitrary: n)
    case (Cons c conns)
    then show ?case by (cases c) (simp_all add: map_filter_simps)
  qed (simp add: map_filter_simps)
  show "length (accept_loop valid encode fmt n conns) = length (filter (\<lambda>c. \<not> isl c) conns)"
  proof (induction conns arbitrary: n)
    case (Cons c conns)
    then show ?case by (cases c) simp_all
  qed simp
qed

text \<open>
  the binary runs the pool it was configured with: when both configuration files load, the pool is
  on the network of the p2pool configuration, with the share chain attached and the endpoint of the
  command line; otherwise it ends with the error of the first file that fails and starts nothing.
\<close>

lemma main_runs_configured_pool:
  "case process_cli_args load_pool set_log_dir load_p2pool a of
     Ok c \<Rightarrow>
       (let p = main_pool tp_of c in
        config_network p = p2p_network (lc_p2pool c) \<and> pool_p2pool p = Some (lc_p2pool c) \<and>
        pool_metrics_addr p = metrics_addr a \<and>
        (\<exists>cp pp pc. config_path a = Some cp \<and> load_pool cp = Inr pc \<and> lc_pool c = set_log_dir (log_file a) pc \<and>
           p2pool_config_path a = Some pp \<and> load_p2pool pp = Inr (lc_p2pool c)) \<and>
        (main_run load_pool set_log_dir load_p2pool tp_of fmt w sv t a = Ok () \<longleftrightarrow> fst (pool_start w sv p t) = Ok ()))
   | Err e \<Rightarrow> main_run load_pool set_log_dir load_p2pool tp_of fmt w sv t a = Err e
   | Panic \<Rightarrow> False"
proof (cases "process_cli_args load_pool set_log_dir load_p2pool a")
  case (Ok c)
  then have "\<exists>cp pp pc. config_path a = Some cp \<and> load_pool cp = Inr pc \<and> lc_pool c = set_log_dir (log_file a) pc \<and>
           p2pool_config_path a = Some pp \<and> load_p2pool pp = Inr (lc_p2pool c)" "lc_metrics_addr c = metrics_addr a"
    by (auto simp: process_cli_args_def rbind_iffs Let_def)
  with Ok show ?thesis
    by (auto simp: main_run_def main_pool_def build_pool_with_p2pool_config_def with_p2pool_config_def pool_new_def
        with_metrics_addr_def config_network_def Let_def split: option.splits)
next
  case (Err e)
  then show ?thesis by (simp add: main_run_def)
next
  case Panic
  then show ?thesis by (auto simp: process_cli_args_def rbind_iffs Let_def)
qed

end
