(* ===== verification/Engine_System.thy ===== *)
theory Engine_System
  imports Engine_Push Engine_Token Engine_Reorg Tdp_System
begin

text \<open>
  The engine as a system: every handler and background task as a step, under interference that the
  other tasks may cause at the handler's suspension points. \<open>engine_inv\<close> is what every task
  guarantees and, of the others, relies on.
\<close>

section \<open>The invariant\<close>

definition block_commits :: "externals \<Rightarrow> block \<Rightarrow> bool" where
  "block_commits X blk \<longleftrightarrow>
     txdata blk \<noteq> [] \<and> length (prev_blockhash (blk_header blk)) = 32 \<and>
     merkle_root (blk_header blk) =
       calc_hash X (map (compute_txid X) (txdata blk)) (tree_height (length (txdata blk))) 0"

definition engine_inv :: "externals \<Rightarrow> engine \<Rightarrow> bool" where
  "engine_inv X e \<longleftrightarrow> jobs_ok X e \<and> dm_wf (allocated_tokens e) \<and> rs_wf (recent_sols e) \<and>
     tdp_ok (tdp_state e) \<and> list_all (block_commits X) (submit_queue e)"

definition rely :: "externals \<Rightarrow> env \<Rightarrow> bool" where
  "rely X env \<longleftrightarrow> (\<forall>n e. engine_inv X e \<longrightarrow> engine_inv X (env n e))"

lemma relyD: "rely X env \<Longrightarrow> engine_inv X e \<Longrightarrow> engine_inv X (env n e)"
  by (simp add: rely_def)

lemma rely_from: "rely X env \<Longrightarrow> rely X (env_from k env)"
  by (simp add: rely_def env_from_def)

lemma engine_inv_cong:
  assumes "declared_jobs e' = declared_jobs e" and "allocated_tokens e' = allocated_tokens e"
    and "recent_sols e' = recent_sols e" and "tdp e' = tdp e" and "submit_queue e' = submit_queue e"
  shows "engine_inv X e' = engine_inv X e"
  using assms by (simp add: engine_inv_def jobs_ok_def tdp_state_def)

lemma engine_inv_bump [simp]: "engine_inv X (bump f e) = engine_inv X e"
  by (rule engine_inv_cong) simp_all

lemma engine_inv_put: "engine_inv X e \<Longrightarrow> tdp_ok h \<Longrightarrow> engine_inv X (put_tdp h e)"
  by (simp add: engine_inv_def jobs_ok_def)

lemma engine_inv_tdp: "engine_inv X e \<Longrightarrow> tdp_ok (tdp_state e)"
  by (simp add: engine_inv_def)

lemma engine_inv_jobs: "engine_inv X e \<Longrightarrow> jobs_ok X e"
  by (simp add: engine_inv_def)

lemma request_inv:
  assumes "engine_request_tx_bodies X env t e = (r, e')" and "engine_inv X e" and "rely X env"
  shows "engine_inv X e'"
proof -
  obtain r1 h1 where reg: "tdp_register t (tdp_state e) = (r1, h1)" by force
  have ok1: "tdp_ok h1" using tdp_ok_register [OF engine_inv_tdp [OF assms(2)], of t] reg by simp
  let ?s1 = "env 0 (put_tdp h1 e)"
  have s1: "engine_inv X ?s1" using assms ok1 by (simp add: engine_inv_put relyD)
  obtain r2 h2 where snd2: "tdp_send t (tdp_state ?s1) = (r2, h2)" by force
  have ok2: "tdp_ok h2" using tdp_ok_send [OF engine_inv_tdp [OF s1], of t] snd2 by simp
  let ?s2 = "env 1 (put_tdp h2 ?s1)"
  have s2: "engine_inv X ?s2" using s1 ok2 assms(3) by (simp add: engine_inv_put relyD)
  have fin: "tdp_ok (snd (finish_wait X t i oc (tdp_state ?s2)))" for i oc
    using tdp_ok_finish [OF engine_inv_tdp [OF s2]] .
  show ?thesis
    using assms(1,2) reg snd2 ok1 ok2 s1 s2 fin
    by (auto simp: engine_request_tx_bodies_def request_tx_bodies_def Let_def engine_inv_put
        split: prod.splits result.splits) (metis engine_inv_put snd_conv)+
qed

section \<open>Every handler keeps the invariant\<close>

lemma inv_insert_job: "engine_inv X e \<Longrightarrow> job_ok X job \<Longrightarrow> engine_inv X (insert_job k job e)"
  using jobs_ok_insert_job [of X e job k] by (simp add: engine_inv_def tdp_state_def)

lemma inv_insert_token: "engine_inv X e \<Longrightarrow> engine_inv X (insert_token t r e)"
  by (simp add: engine_inv_def jobs_ok_def tdp_state_def insert_token_def)

lemma inv_remove_token: "engine_inv X e \<Longrightarrow> engine_inv X (remove_token t e)"
  by (auto simp: engine_inv_def jobs_ok_def tdp_state_def) (simp_all add: remove_token_def)

lemma inv_remove_job: "engine_inv X e \<Longrightarrow> engine_inv X (remove_job k e)"
  using jobs_ok_remove_job [of X e k]
  by (auto simp: engine_inv_def tdp_state_def) (simp_all add: remove_job_def)

lemma inv_declare:
  assumes "engine_inv X e" and "rely X env"
  shows "engine_inv X (snd (handle_declare_mining_job X env dmj pmts e))"
proof (cases "declare_checks X dmj pmts")
  case (Ok tw)
  obtain token ws where tw: "tw = (token, ws)" by (cases tw)
  have ins: "engine_inv X (insert_token token k (env 1 (insert_job k
      (declared_snapshot X dmj token ws txs (capture_tip e) sct) (env 0 e))))" for k txs sct
    by (intro inv_insert_token relyD [OF assms(2)] inv_insert_job assms(1) job_ok_snapshot [OF Ok [unfolded tw]])
  show ?thesis
    using assms(1)
    by (cases "capture_share_chain_tip e")
      (simp_all add: handle_declare_mining_job_def Let_def declare_return_def Ok tw ins [unfolded One_nat_def])
qed (use assms(1) in \<open>simp_all add: handle_declare_mining_job_def declare_return_def\<close>)

lemma inv_scmj:
  assumes "engine_inv X e" and "rely X env"
  shows "engine_inv X (snd (handle_set_custom_mining_job X env scmj token e))"
proof -
  have consume: "engine_inv X (snd (scmj_consume env token e))"
    using assms by (auto simp: scmj_consume_state inv_remove_job inv_remove_token relyD split: option.splits)
  have proposal: "engine_inv X (snd (scmj_proposal X env job scmj e1))" if "engine_inv X e1" for job e1
  proof -
    have req: "engine_inv X e'" if "engine_request_tx_bodies X (env_from 2 env) t e1 = (r, e')" for t r e'
      using request_inv [OF that \<open>engine_inv X e1\<close> rely_from [OF assms(2)]] .
    show ?thesis
      using that assms(2)
      by (auto simp: scmj_proposal_def scmj_verdict_def relyD dest!: req
          split: option.splits prod.splits result.splits sum.splits proposal_outcome.splits)
  qed
  show ?thesis
    using consume proposal
    by (auto simp: handle_set_custom_mining_job_def scmj_return_def scmj_finish_def
        split: prod.splits result.splits)
qed

lemma reconstruct_commits:
  assumes "reconstruct_block X job ps bodies = Ok blk"
  shows "block_commits X blk"
proof -
  from assms obtain cb where blk: "blk = \<lparr>blk_header = solution_header ps (ps_prev_hash ps)
      (compute_merkle_root_from_txids X (compute_txid X cb) (map (compute_txid X) bodies)), txdata = cb # bodies\<rparr>"
    and width: "length (ps_prev_hash ps) = 32"
    by (auto simp: reconstruct_block_def rbind_iffs Let_def hash_simps)
  show ?thesis
    using width merkle_root_loop_calc_hash [of "map (compute_txid X) (cb # bodies)" X]
    by (simp add: blk block_commits_def merkle_root_loop_txids solution_header_def)
qed

lemma inv_record: "engine_inv X e \<Longrightarrow> engine_inv X (record_solution now s b e)"
  by (simp add: engine_inv_def jobs_ok_def tdp_state_def)

lemma inv_submit: "engine_inv X e \<Longrightarrow> block_commits X blk \<Longrightarrow> engine_inv X (push_submit blk e)"
  by (auto simp: engine_inv_def jobs_ok_def) (auto simp: push_submit_def tdp_state_def split: option.splits)

lemma inv_push_drop: "engine_inv X e \<Longrightarrow> engine_inv X (snd (push_drop r e))"
  by (simp add: push_drop_def)

lemma inv_push_block:
  assumes "engine_inv X e" and "rely X env"
  shows "engine_inv X (snd (push_block X env now ps share job tid e))"
proof -
  obtain r e1 where req: "engine_request_tx_bodies X (env_from 2 env) tid e = (r, e1)" by force
  note inv1 = request_inv [OF req assms(1) rely_from [OF assms(2)]]
  show ?thesis
    using inv1
    by (cases r)
      (auto simp: push_block_def req Let_def inv_push_drop inv_record inv_submit dest: reconstruct_commits
        split: result.splits)
qed

lemma inv_push:
  assumes "engine_inv X e" and "rely X env"
  shows "engine_inv X (snd (handle_push_solution X env now ps e))"
proof -
  have e: "engine_inv X (bump push_received e)" using assms(1) by simp
  have lookup: "engine_inv X (snd (push_lookup X env ps prev (bump push_received e)))" for prev
    using relyD [OF assms(2) e] e
    by (auto simp: push_lookup_def Let_def split: option.splits)
  show ?thesis
    using e lookup
    by (auto simp: handle_push_solution_def Let_def push_no_tdp_def push_no_template_def inv_push_drop inv_record
        inv_push_block [OF _ assms(2)] split: option.splits prod.splits result.splits)
      (metis inv_push_block [OF _ assms(2)] inv_push_drop inv_record snd_conv)+
qed

lemma inv_bind: "engine_inv X e \<Longrightarrow> engine_inv X (bind_forward t s e)" "engine_inv X e \<Longrightarrow> engine_inv X (bind_inverse u t e)"
  by (simp_all add: engine_inv_def jobs_ok_def bind_forward_def bind_inverse_def tdp_state_def)

lemma inv_allocate:
  assumes "engine_inv X e" and "rely X env"
  shows "engine_inv X (snd (handle_allocate_mining_job_token X hook env token user budget e))"
  using assms
  by (auto simp: handle_allocate_mining_job_token_def Let_def inv_bind relyD split: option.splits)

lemma inv_drop_payout: "engine_inv X e \<Longrightarrow> engine_inv X (drop_token_payout token e)"
  by (auto simp: drop_token_payout_def engine_inv_def jobs_ok_def tdp_state_def split: option.splits)

lemma inv_set_jobs:
  "engine_inv X e \<Longrightarrow> dm_wf c \<Longrightarrow> (\<And>k job. dm_get c k = Some job \<Longrightarrow> job_ok X job) \<Longrightarrow>
   engine_inv X (e\<lparr>declared_jobs := c\<rparr>)"
  by (auto simp: engine_inv_def jobs_ok_def tdp_state_def)

lemma inv_no_jobs: "engine_inv X e \<Longrightarrow> engine_inv X (e\<lparr>declared_jobs := dm_empty\<rparr>)"
  by (rule inv_set_jobs) simp_all

lemma inv_flush: "engine_inv X e \<Longrightarrow> engine_inv X (flush_jobs e)"
  by (simp add: flush_jobs_def invalidate_all_def inv_no_jobs)

lemma inv_invalidator: "engine_inv X e \<Longrightarrow> engine_inv X (invalidator_event e)"
  by (simp add: invalidator_event_def invalidate_all_def inv_no_jobs)

lemma inv_retain: "engine_inv X e \<Longrightarrow> engine_inv X (retain_on_chain as e)"
proof -
  assume inv: "engine_inv X e"
  then have wf: "dm_wf (declared_jobs e)" by (simp add: engine_inv_def jobs_ok_def)
  have "engine_inv X (e\<lparr>declared_jobs := dm_retain (\<lambda>_ j. tip_on_chain as j) (declared_jobs e)\<rparr>)"
    using inv wf jobs_okD [OF engine_inv_jobs [OF inv]]
    by (intro inv_set_jobs) (auto simp: dm.retain_Some_iff)
  then show ?thesis by (simp add: retain_on_chain_def Let_def jobs_retain_def)
qed

lemma inv_reorg:
  "engine_inv X e \<Longrightarrow> rely X env \<Longrightarrow> engine_inv X (snd (notify_share_chain_reorg env tip e))"
  by (auto simp: notify_share_chain_reorg_def Let_def inv_flush inv_retain relyD split: option.splits walk.splits)

lemma inv_sweeper: "engine_inv X e \<Longrightarrow> engine_inv X (sweeper_tick now u e)"
  by (simp add: sweeper_tick_def Let_def) (simp add: engine_inv_def jobs_ok_def tdp_state_def)

lemma inv_run_submit: "engine_inv X e \<Longrightarrow> engine_inv X (run_submit e)"
  by (auto simp: run_submit_def submit_task_def engine_inv_def jobs_ok_def tdp_state_def
      split: list.splits option.splits)

section \<open>The system\<close>

inductive engine_step :: "externals \<Rightarrow> (string \<Rightarrow> script option) option \<Rightarrow> engine \<Rightarrow> engine \<Rightarrow> bool"
  for X hook where
  declare_job: "rely X env \<Longrightarrow> engine_step X hook e (snd (handle_declare_mining_job X env dmj pmts e))"
| set_custom_job: "rely X env \<Longrightarrow> engine_step X hook e (snd (handle_set_custom_mining_job X env scmj token e))"
| push_solution: "rely X env \<Longrightarrow> engine_step X hook e (snd (handle_push_solution X env now ps e))"
| allocate: "rely X env \<Longrightarrow>
     engine_step X hook e (snd (handle_allocate_mining_job_token X hook env token user budget e))"
| evict_allocated: "engine_step X hook e (on_allocated_evicted token e)"
| evict_active: "engine_step X hook e (on_active_evicted active token e)"
| reorg: "rely X env \<Longrightarrow> engine_step X hook e (snd (notify_share_chain_reorg env new_tip e))"
| invalidator: "engine_step X hook e (invalidator_event e)"
| sweeper: "engine_step X hook e (sweeper_tick now unix e)"
| take_credit: "engine_step X hook e (e\<lparr>recent_sols := snd (rs_take now share (recent_sols e))\<rparr>)"
| submit_block: "engine_step X hook e (run_submit e)"
| deliver_tx_data: "tdp e = Some h \<Longrightarrow> engine_step X hook e (put_tdp (snd (deliver_response t r h)) e)"
| prev_hash: "tdp e = Some h \<Longrightarrow> engine_step X hook e (put_tdp (record_set_new_prev_hash m h) e)"
| new_template: "tdp e = Some h \<Longrightarrow> engine_step X hook e (put_tdp (record_new_template m' h) e)"

definition engine_start :: "engine \<Rightarrow> bool" where
  "engine_start e \<longleftrightarrow>
     (\<exists>net h t m. e = (engine_new net)\<lparr>handles := h, tdp := t, metrics := m\<rparr> \<and>
        (t = None \<or> t = Some tdp_new))"

lemma inv_engine_start: "engine_start e \<Longrightarrow> engine_inv X e"
  unfolding engine_start_def
  by (elim exE conjE disjE)
    (simp_all add: engine_inv_def jobs_ok_def engine_new_def tdp_state_def tdp_ok_new)

lemma inv_engine_step: "engine_step X hook e e' \<Longrightarrow> engine_inv X e \<Longrightarrow> engine_inv X e'"
proof (induction rule: engine_step.induct)
  case (take_credit e now share)
  then show ?case by (simp add: engine_inv_def jobs_ok_def tdp_state_def)
next
  case (deliver_tx_data e h t r)
  then show ?case using engine_inv_tdp [of X e] by (simp add: engine_inv_put tdp_ok_deliver tdp_state_def)
next
  case (prev_hash e h m)
  then show ?case using engine_inv_tdp [of X e] by (simp add: engine_inv_put tdp_ok_record tdp_state_def)
next
  case (new_template e h m')
  then show ?case using engine_inv_tdp [of X e] by (simp add: engine_inv_put tdp_ok_record tdp_state_def)
qed (simp_all add: inv_declare inv_scmj inv_push inv_allocate inv_drop_payout inv_reorg inv_invalidator
    inv_sweeper inv_run_submit on_allocated_evicted_def on_active_evicted_def)

interpretation engine: invariant_system engine_start "engine_step X hook" "engine_inv X" for X hook
  by unfold_locales (simp_all add: inv_engine_start inv_engine_step)

end
