(* ===== verification/Engine_Spec.thy ===== *)
theory Engine_Spec
  imports Engine_System
begin

text \<open>
  An abstract specification of the engine's job bookkeeping and its refinement. Abstractly the engine
  keeps a registry: a partial map from tokens to the jobs declared with them. A declaration binds a
  token, \<open>SetCustomMiningJob\<close> unbinds it, a reorg restricts the map to the jobs on the new chain, and
  no other operation touches it. The engine implements the registry with two concurrent maps, token to
  request id and request id to job.
\<close>

section \<open>The specification\<close>

type_synonym job_registry = "jd_token \<rightharpoonup> declared_job"

datatype registry_label =
    BindJob jd_token declared_job
  | UnbindJob jd_token
  | RestrictJobs "declared_job \<Rightarrow> bool"
  | KeepJobs

fun registry_spec :: "registry_label \<Rightarrow> job_registry \<Rightarrow> job_registry" where
  "registry_spec (BindJob t j) r = r(t \<mapsto> j)"
| "registry_spec (UnbindJob t) r = r(t := None)"
| "registry_spec (RestrictJobs P) r = (\<lambda>t. case r t of Some j \<Rightarrow> if P j then Some j else None | None \<Rightarrow> None)"
| "registry_spec KeepJobs r = r"

section \<open>The engine's events\<close>

datatype engine_event =
    EvDeclare env declare_mining_job "provide_missing_transactions_success option"
  | EvScmj env set_custom_mining_job jd_token
  | EvPush env instant push_solution
  | EvAllocate env jd_token string nat
  | EvEvict jd_token
  | EvReorg env block_hash
  | EvInvalidate
  | EvSweep instant "nat option"
  | EvSubmit

fun run_event :: "externals \<Rightarrow> (string \<Rightarrow> script option) option \<Rightarrow> engine_event \<Rightarrow> engine \<Rightarrow> engine" where
  "run_event X hook (EvDeclare env dmj pmts) e = snd (handle_declare_mining_job X env dmj pmts e)"
| "run_event X hook (EvScmj env scmj token) e = snd (handle_set_custom_mining_job X env scmj token e)"
| "run_event X hook (EvPush env now ps) e = snd (handle_push_solution X env now ps e)"
| "run_event X hook (EvAllocate env token user budget) e =
     snd (handle_allocate_mining_job_token X hook env token user budget e)"
| "run_event X hook (EvEvict token) e = on_allocated_evicted token e"
| "run_event X hook (EvReorg env tip) e = snd (notify_share_chain_reorg env tip e)"
| "run_event X hook EvInvalidate e = invalidator_event e"
| "run_event X hook (EvSweep now unix) e = sweeper_tick now unix e"
| "run_event X hook EvSubmit e = run_submit e"

text \<open>
  The job a declaration stores, and the jobs a reorg keeps.
\<close>

definition declared_job_of ::
  "externals \<Rightarrow> declare_mining_job \<Rightarrow> provide_missing_transactions_success option \<Rightarrow> engine \<Rightarrow> jd_token \<Rightarrow> declared_job" where
  "declared_job_of X dmj pmts e token =
     declared_snapshot X dmj token (dmj_wtxid_list dmj) (parse_missing X pmts) (capture_tip e)
       (case capture_share_chain_tip e of Ok s \<Rightarrow> s | _ \<Rightarrow> None)"

definition reorg_label :: "block_hash \<Rightarrow> engine \<Rightarrow> registry_label" where
  "reorg_label tip e =
     (case handles e of
        None \<Rightarrow> RestrictJobs (\<lambda>_. False)
      | Some h \<Rightarrow>
          (case ancestry_walk (rd_get_share_header (hnd_chain h)) reorg_ancestry_depth tip [tip] of
             Walked ancestors \<Rightarrow> RestrictJobs (tip_on_chain ancestors)
           | WalkFailed \<Rightarrow> RestrictJobs (\<lambda>_. False)
           | WalkPanicked \<Rightarrow> KeepJobs))"

fun event_label :: "externals \<Rightarrow> engine_event \<Rightarrow> engine \<Rightarrow> registry_label" where
  "event_label X (EvDeclare env dmj pmts) e =
     (case (fst (handle_declare_mining_job X env dmj pmts e), decode_token dmj) of
        (Reply DeclareSuccess, Some token) \<Rightarrow> BindJob token (declared_job_of X dmj pmts e token)
      | _ \<Rightarrow> KeepJobs)"
| "event_label X (EvScmj env scmj token) e = UnbindJob token"
| "event_label X (EvReorg env tip) e = reorg_label tip e"
| "event_label X EvInvalidate e = RestrictJobs (\<lambda>_. False)"
| "event_label X _ e = KeepJobs"

text \<open>
  When an event is within the specification: while it is suspended, other tasks leave the two maps alone
  (solutions, allocations, evictions, the sweeper, submissions and the bridge may run; another
  declaration, custom job or reorg may not), and the request id of a declaration is not in use for
  another token.
\<close>

definition spares_jobs :: "env \<Rightarrow> bool" where
  "spares_jobs env \<longleftrightarrow> (\<forall>n e. declared_jobs (env n e) = declared_jobs e \<and> allocated_tokens (env n e) = allocated_tokens e)"

definition fresh_request_id :: "declare_mining_job \<Rightarrow> engine \<Rightarrow> bool" where
  "fresh_request_id dmj e =
     (\<forall>t. dm_get (allocated_tokens e) t = Some (dmj_request_id dmj) \<longrightarrow> decode_token dmj = Some t)"

fun event_ok :: "engine_event \<Rightarrow> engine \<Rightarrow> bool" where
  "event_ok (EvDeclare env dmj pmts) e = (spares_jobs env \<and> fresh_request_id dmj e)"
| "event_ok (EvScmj env scmj token) e = spares_jobs env"
| "event_ok (EvPush env now ps) e = spares_jobs env"
| "event_ok (EvAllocate env token user budget) e = spares_jobs env"
| "event_ok (EvReorg env tip) e = spares_jobs env"
| "event_ok _ e = True"

section \<open>The abstraction\<close>

definition registry :: "engine \<Rightarrow> job_registry" where
  "registry e t =
     (case dm_get (allocated_tokens e) t of
        None \<Rightarrow> None
      | Some rid \<Rightarrow> dm_get (declared_jobs e) rid)"

definition registry_inv :: "engine \<Rightarrow> bool" where
  "registry_inv e =
     (dm_wf (declared_jobs e) \<and>
      (\<forall>t t' rid. dm_get (allocated_tokens e) t = Some rid \<longrightarrow> dm_get (allocated_tokens e) t' = Some rid \<longrightarrow> t = t'))"

text \<open>Operations that leave both maps alone.\<close>

definition keeps_maps :: "engine \<Rightarrow> engine \<Rightarrow> bool" where
  "keeps_maps e e' = (declared_jobs e' = declared_jobs e \<and> allocated_tokens e' = allocated_tokens e)"

lemma keeps_maps_abs: "keeps_maps e e' \<Longrightarrow> registry e' = registry e \<and> registry_inv e' = registry_inv e"
  by (auto simp: keeps_maps_def registry_def registry_inv_def fun_eq_iff split: option.splits)

lemma keeps_maps_refl [simp]: "keeps_maps e e"
  by (simp add: keeps_maps_def)

lemma spares_fields:
  assumes "spares_jobs env"
  shows "declared_jobs (env n e) = declared_jobs e" "allocated_tokens (env n e) = allocated_tokens e"
  using assms by (simp_all add: spares_jobs_def)

lemma spares_quiet [simp]: "spares_jobs quiet"
  by (simp add: spares_jobs_def)

lemma keeps_maps_request:
  assumes "engine_request_tx_bodies X (env_from k env) t e = (r, e')" and "spares_jobs env"
  shows "keeps_maps e e'"
  unfolding keeps_maps_def
  by (intro conjI; rule fields_request_quiet [OF assms(1)]; simp add: env_from_def spares_fields [OF assms(2)])

lemma keeps_maps_proposal:
  assumes "spares_jobs env"
  shows "keeps_maps e (snd (scmj_proposal X env job scmj e))"
  by (auto simp: scmj_proposal_def scmj_verdict_def keeps_maps_def spares_fields [OF assms]
      dest: keeps_maps_request [OF _ assms, unfolded keeps_maps_def]
      split: option.splits prod.splits result.splits sum.splits proposal_outcome.splits)

lemma scmj_maps:
  assumes "spares_jobs env"
  shows "allocated_tokens (snd (handle_set_custom_mining_job X env scmj token e)) =
     (case dm_get (allocated_tokens e) token of None \<Rightarrow> allocated_tokens e | Some _ \<Rightarrow> dm_remove token (allocated_tokens e))"
    and "declared_jobs (snd (handle_set_custom_mining_job X env scmj token e)) =
     (case dm_get (allocated_tokens e) token of None \<Rightarrow> declared_jobs e | Some rid \<Rightarrow> dm_remove rid (declared_jobs e))"
  using scmj_consume_state [of env token e]
  by (auto simp: handle_set_custom_mining_job_def scmj_return_def keeps_maps_proposal [OF assms, unfolded keeps_maps_def]
      spares_fields [OF assms] split: prod.splits result.splits option.splits)

lemma keeps_maps_push:
  assumes "spares_jobs env"
  shows "keeps_maps e (snd (handle_push_solution X env now ps e))"
proof -
  have req: "keeps_maps e1 e'" if "engine_request_tx_bodies X (env_from 2 env) t e1 = (r, e')" for t r e1 e'
    using keeps_maps_request [OF that assms] .
  have blk: "keeps_maps e1 (snd (push_block X env now ps share job tid e1))" for share job tid e1
  proof -
    obtain r e' where r: "engine_request_tx_bodies X (env_from 2 env) tid e1 = (r, e')" by force
    with req [OF r] show ?thesis
      by (cases r) (auto simp: push_block_def Let_def keeps_maps_def push_drop_def split: result.splits)
  qed
  have look: "keeps_maps e1 (snd (push_lookup X env ps prev e1))" for prev e1
    using spares_fields [OF assms] by (auto simp: push_lookup_def Let_def keeps_maps_def split: option.splits)
  show ?thesis
    using look blk
    by (auto simp: handle_push_solution_def Let_def push_no_tdp_def push_no_template_def push_drop_def keeps_maps_def
        split: option.splits prod.splits result.splits) (metis bump_fields(1,2) snd_conv)+
qed

lemma keeps_maps_allocate:
  assumes "spares_jobs env"
  shows "keeps_maps e (snd (handle_allocate_mining_job_token X hook env token user budget e))"
  using spares_fields [OF assms]
  by (auto simp: handle_allocate_mining_job_token_def keeps_maps_def Let_def bind_forward_def bind_inverse_def
      split: option.splits)

lemma keeps_maps_rest:
  "keeps_maps e (on_allocated_evicted token e)" "keeps_maps e (sweeper_tick now unix e)" "keeps_maps e (run_submit e)"
  by (auto simp: keeps_maps_def on_allocated_evicted_def drop_token_payout_def sweeper_tick_def Let_def
      run_submit_def submit_task_def split: option.splits list.splits)

text \<open>The maps after a declaration.\<close>

lemma declare_maps:
  assumes "spares_jobs env" and "handle_declare_mining_job X env dmj pmts e = (r, e')"
  shows "if r = Reply DeclareSuccess
    then \<exists>token. decode_token dmj = Some token \<and>
      declared_jobs e' = dm_insert (dmj_request_id dmj) (declared_job_of X dmj pmts e token) (declared_jobs e) \<and>
      allocated_tokens e' = dm_insert token (dmj_request_id dmj) (allocated_tokens e)
    else keeps_maps e e'"
proof (cases "declare_checks X dmj pmts")
  case (Ok tw)
  obtain token ws where tw: "tw = (token, ws)" by (cases tw)
  note ok = Ok [unfolded tw declare_checks_Ok_iff]
  show ?thesis
    using assms(2) Ok ok
    by (cases "capture_share_chain_tip e")
      (auto simp: tw handle_declare_mining_job_def Let_def declare_return_def insert_job_def insert_token_def
        jobs_insert_def spares_fields [OF assms(1)] declared_job_of_def keeps_maps_def)
next
  case (Err x)
  with assms(2) declare_checks_not_success [of X dmj pmts] show ?thesis
    by (auto simp: handle_declare_mining_job_def declare_return_def keeps_maps_def)
next
  case Panic
  with assms(2) show ?thesis by (auto simp: handle_declare_mining_job_def)
qed

lemma declare_refines:
  assumes "registry_inv e" and "spares_jobs env" and "fresh_request_id dmj e"
  shows "registry_inv (run_event X hook (EvDeclare env dmj pmts) e) \<and>
    registry (run_event X hook (EvDeclare env dmj pmts) e) =
      registry_spec (event_label X (EvDeclare env dmj pmts) e) (registry e)"
proof -
  obtain r e' where h: "handle_declare_mining_job X env dmj pmts e = (r, e')" by force
  note maps = declare_maps [OF assms(2) h]
  show ?thesis
  proof (cases "r = Reply DeclareSuccess")
    case True
    with maps obtain token where t: "decode_token dmj = Some token"
      and jobs: "declared_jobs e' = dm_insert (dmj_request_id dmj) (declared_job_of X dmj pmts e token) (declared_jobs e)"
      and toks: "allocated_tokens e' = dm_insert token (dmj_request_id dmj) (allocated_tokens e)" by auto
    have fresh: "dm_get (allocated_tokens e) t' = Some (dmj_request_id dmj) \<Longrightarrow> t' = token" for t'
      using assms(3) t by (auto simp: fresh_request_id_def)
    have "registry_inv e'"
      using assms(1) fresh by (auto simp: registry_inv_def jobs toks split: if_splits)
    moreover have "registry e' = (registry e)(token \<mapsto> declared_job_of X dmj pmts e token)"
      using fresh by (auto simp: registry_def jobs toks fun_eq_iff split: option.splits)
    ultimately show ?thesis using h t True by simp
  next
    case False
    with maps have "keeps_maps e e'" by simp
    from keeps_maps_abs [OF this] h False assms(1) show ?thesis
      by (cases r) (auto split: option.splits declare_result.splits)
  qed
qed

lemma scmj_refines:
  assumes "registry_inv e" and "spares_jobs env"
  shows "registry_inv (run_event X hook (EvScmj env scmj token) e) \<and>
    registry (run_event X hook (EvScmj env scmj token) e) = (registry e)(token := None)"
  using assms(1)
  by (auto simp: registry_inv_def registry_def fun_eq_iff scmj_maps [OF assms(2)] split: option.splits)

lemma restrict_refines:
  assumes "registry_inv e" and "allocated_tokens e' = allocated_tokens e"
    and "declared_jobs e' = dm_retain (\<lambda>_. P) (declared_jobs e)"
  shows "registry_inv e' \<and> registry e' = registry_spec (RestrictJobs P) (registry e)"
  using assms
  by (auto simp: registry_inv_def registry_def fun_eq_iff dm_get_retain split: option.splits)

lemma dm_retain_none: "dm_retain (\<lambda>_ _. False) m = dm_empty"
  by (simp add: dm_retain_def dm_empty_def)

lemma reorg_refines:
  assumes "registry_inv e" and "spares_jobs env"
  shows "registry_inv (run_event X hook (EvReorg env tip) e) \<and>
    registry (run_event X hook (EvReorg env tip) e) = registry_spec (reorg_label tip e) (registry e)"
proof -
  note f = spares_fields [OF assms(2)]
  have flush: "registry_inv (flush_jobs e1) \<and> registry (flush_jobs e1) = registry_spec (RestrictJobs (\<lambda>_. False)) (registry e)"
    if "declared_jobs e1 = declared_jobs e" "allocated_tokens e1 = allocated_tokens e" for e1
    using that by (intro restrict_refines [OF assms(1)]) (simp_all add: flush_jobs_def dm_retain_none split_beta)
  have keep: "registry_inv (retain_on_chain as e1) \<and> registry (retain_on_chain as e1) = registry_spec (RestrictJobs (tip_on_chain as)) (registry e)"
    if "declared_jobs e1 = declared_jobs e" "allocated_tokens e1 = allocated_tokens e" for as e1
    using that by (intro restrict_refines [OF assms(1)]) (simp_all add: retain_on_chain_def jobs_retain_def split_beta Let_def)
  have same: "registry_inv e1 \<and> registry e1 = registry e"
    if "declared_jobs e1 = declared_jobs e" "allocated_tokens e1 = allocated_tokens e" for e1
    using keeps_maps_abs [of e e1] that assms(1) by (simp add: keeps_maps_def)
  show ?thesis
    using f
    by (auto simp: notify_share_chain_reorg_def reorg_label_def Let_def
        simp del: registry_spec.simps(3) intro!: flush keep same split: option.splits walk.splits)
qed

lemma keep_refines:
  assumes "registry_inv e" and "keeps_maps e e'"
  shows "registry_inv e' \<and> registry e' = registry_spec KeepJobs (registry e)"
  using keeps_maps_abs [OF assms(2)] assms(1) by simp

lemma event_refines:
  assumes "registry_inv e" and "event_ok ev e"
  shows "registry_inv (run_event X hook ev e) \<and>
    registry (run_event X hook ev e) = registry_spec (event_label X ev e) (registry e)"
proof (cases ev)
  case (EvDeclare env dmj pmts)
  with assms show ?thesis using declare_refines by simp
next
  case (EvScmj env scmj token)
  with assms show ?thesis using scmj_refines by simp
next
  case (EvPush env now ps)
  with assms show ?thesis using keep_refines [OF assms(1) keeps_maps_push] by simp
next
  case (EvAllocate env token user budget)
  with assms show ?thesis using keep_refines [OF assms(1) keeps_maps_allocate] by simp
next
  case (EvEvict token)
  then show ?thesis using keep_refines [OF assms(1) keeps_maps_rest(1)] by simp
next
  case (EvReorg env tip)
  with assms show ?thesis using reorg_refines by simp
next
  case EvInvalidate
  have "registry_inv (invalidator_event e) \<and>
      registry (invalidator_event e) = registry_spec (RestrictJobs (\<lambda>_. False)) (registry e)"
    by (intro restrict_refines [OF assms(1)]) (simp_all add: invalidator_event_def dm_retain_none split_beta)
  with EvInvalidate show ?thesis by simp
next
  case (EvSweep now unix)
  then show ?thesis using keep_refines [OF assms(1) keeps_maps_rest(2)] by simp
next
  case EvSubmit
  then show ?thesis using keep_refines [OF assms(1) keeps_maps_rest(3)] by simp
qed

interpretation reg: refinement registry registry_inv event_ok "run_event X hook" "event_label X" registry_spec
  for X hook
  by unfold_locales (simp_all add: event_refines)

section \<open>Properties\<close>

lemma start_registry: "engine_start e \<Longrightarrow> registry_inv e \<and> registry e = Map.empty"
  by (auto simp: engine_start_def registry_inv_def registry_def engine_new_def fun_eq_iff)

text \<open>
  C16: the engine refines the job registry, on runs from a fresh engine under two restrictions: no
  declaration reuses the request id of another token, and while a handler is suspended no other
  declaration, custom job or reorg changes the two job maps (solutions, allocations, evictions, the
  sweeper, submissions and the template bridge may run then). On every such run the jobs reachable
  through their tokens are exactly those of the specification: bound by accepted declarations, unbound by \<open>SetCustomMiningJob\<close> whatever it
  answers, restricted to the new chain by reorgs and emptied by the invalidator, and untouched by
  solutions, token allocation, eviction, the sweeper and submissions. In the state reached,
  \<open>SetCustomMiningJob\<close> accepts only the job the registry holds for its token, and refuses a token the
  registry does not hold as invalid.
\<close>

theorem engine_refines_registry:
  assumes "engine_start e0" and "trace_ok event_ok (run_event X hook) evs e0"
    and "e = fold (run_event X hook) evs e0"
  shows "registry e = fold registry_spec (trace_labels (event_label X) (run_event X hook) evs e0) Map.empty \<and>
    (\<forall>env scmj token. spares_jobs env \<longrightarrow>
       (case registry e token of
          None \<Rightarrow> fst (handle_set_custom_mining_job X env scmj token e) = Reply (ScmjError ScmjInvalidMiningJobToken)
        | Some job \<Rightarrow> fst (handle_set_custom_mining_job X env scmj token e) = Reply ScmjSuccess \<longrightarrow>
            job_validated job \<and> scmj_matches X job scmj))"
proof (intro conjI allI impI)
  show "registry e = fold registry_spec (trace_labels (event_label X) (run_event X hook) evs e0) Map.empty"
    using reg.simulates [OF conjunct1 [OF start_registry [OF assms(1)]] assms(2)] start_registry [OF assms(1)]
    by (simp add: assms(3))
next
  fix env :: env and scmj token
  assume env: "spares_jobs env"
  note f = spares_fields [OF env]
  show "case registry e token of
      None \<Rightarrow> fst (handle_set_custom_mining_job X env scmj token e) = Reply (ScmjError ScmjInvalidMiningJobToken)
    | Some job \<Rightarrow> fst (handle_set_custom_mining_job X env scmj token e) = Reply ScmjSuccess \<longrightarrow>
        job_validated job \<and> scmj_matches X job scmj"
  proof (cases "registry e token")
    case None
    then show ?thesis
      by (auto simp: registry_def handle_set_custom_mining_job_def scmj_consume_def scmj_return_def Let_def
          jobs_remove_def f split: option.splits)
  next
    case (Some job)
    then show ?thesis
      by (auto simp: scmj_success_iff_aux registry_def f split: option.splits)
  qed
qed

definition sample_run :: "engine_event list" where
  "sample_run = [EvDeclare quiet sample_dmj (Some sample_pmts), EvSweep 0 None]"

theorem engine_refines_registry_witness:
  "registry (fold (run_event sample_ext None) sample_run (engine_new Regtest)) =
     [42 \<mapsto> declared_job_of sample_ext sample_dmj (Some sample_pmts) (engine_new Regtest) 42]"
proof -
  let ?e = "engine_new Regtest"
  have start: "engine_start ?e"
    unfolding engine_start_def
    by (rule exI [of _ Regtest], rule exI [of _ None], rule exI [of _ None], rule exI [of _ None])
      (simp add: engine_new_def)
  have ok: "trace_ok event_ok (run_event sample_ext None) sample_run ?e"
    by (simp add: sample_run_def fresh_request_id_def engine_new_def)
  have "fst (handle_declare_mining_job sample_ext quiet sample_dmj (Some sample_pmts) ?e) = Reply DeclareSuccess"
    by (simp add: handle_declare_mining_job_def sample_declare_checks Let_def declare_return_def
        capture_share_chain_tip_def engine_new_def)
  moreover have "decode_token sample_dmj = Some 42"
    using sample_declare_checks by (simp add: declare_checks_Ok_iff)
  ultimately have "trace_labels (event_label sample_ext) (run_event sample_ext None) sample_run ?e =
      [BindJob 42 (declared_job_of sample_ext sample_dmj (Some sample_pmts) ?e 42), KeepJobs]"
    by (simp add: sample_run_def)
  with engine_refines_registry [OF start ok refl] show ?thesis by simp
qed

end
