(* ===== verification/Testenv_Os.thy ===== *)
theory Testenv_Os
  imports Text_Utils
begin

text \<open>
  What the spawners of \<open>crates/sv2-p2pool-testenv/src/\<close> see of the operating system: a clock in
  milliseconds, environment variables, files and directories, child processes and local TCP ports.
  Everything the system decides (which call fails, which port or temporary directory it hands out,
  whether a child has exited, whether a port accepts, how long a call takes) is a function of the
  running number of the call, in the record \<open>host\<close>; the record \<open>os\<close> adds what the calls change.
  A fallible operation is a function from \<open>os\<close> to a result and the next \<open>os\<close>; a value with a
  destructor that goes out of scope on an early return is an \<open>on_error\<close> around the rest.
\<close>

type_synonym u16 = "16 word"

datatype wait_answer = Exited | ChildRunning | WaitFailed

record proc =
  pid :: nat
  exe :: path
  cmd_args :: "string list"
  cmd_env :: "(string \<times> string) list"
  alive :: bool

record host =
  env_var :: "string \<Rightarrow> string option"
  is_file :: "path \<Rightarrow> bool"
  latency :: "nat \<Rightarrow> nat"
  failure :: "nat \<Rightarrow> string option"
  port_given :: "nat \<Rightarrow> u16"
  tempdir_given :: "nat \<Rightarrow> path"
  child_exits :: "nat \<Rightarrow> bool"
  wait_fails :: "nat \<Rightarrow> bool"
  kill_fails :: "nat \<Rightarrow> bool"
  removal_keeps :: "nat \<Rightarrow> path \<Rightarrow> bool"
  accepts :: "nat \<Rightarrow> u16 \<Rightarrow> bool"
  connect_time :: "nat \<Rightarrow> nat"

record os =
  host :: host
  clock :: nat
  calls :: nat
  procs :: "proc list"
  files :: "(path, string) dmap"
  dirs :: "path list"
  p2poolv2_cache :: "path option option"

type_synonym ('e, 'a) io = "(os, 'e, 'a) st"

type_synonym sock_addr = "string \<times> u16"

section \<open>Destructors\<close>

definition on_error :: "(os \<Rightarrow> os) \<Rightarrow> ('e, 'a) io \<Rightarrow> ('e, 'a) io" where
  "on_error cleanup m w =
     (case m w of
        (Ok a, w') \<Rightarrow> (Ok a, w')
      | (r, w') \<Rightarrow> (r, cleanup w'))"

section \<open>System calls\<close>

definition syscall :: "os \<Rightarrow> os" where
  "syscall w = w\<lparr>calls := Suc (calls w), clock := clock w + latency (host w) (calls w)\<rparr>"

definition os_call :: "(string \<Rightarrow> 'e) \<Rightarrow> (nat \<Rightarrow> os \<Rightarrow> 'a \<times> os) \<Rightarrow> ('e, 'a) io" where
  "os_call wrap act w =
     (case failure (host w) (calls w) of
        Some msg \<Rightarrow> (Err (wrap msg), syscall w)
      | None \<Rightarrow> let (a, w') = act (calls w) (syscall w) in (Ok a, w'))"

definition tempdir :: "(string \<Rightarrow> 'e) \<Rightarrow> ('e, path) io" where
  "tempdir wrap = os_call wrap (\<lambda>n w. let d = tempdir_given (host w) n in (d, w\<lparr>dirs := d # dirs w\<rparr>))"

definition create_dir_all :: "(string \<Rightarrow> 'e) \<Rightarrow> path \<Rightarrow> ('e, unit) io" where
  "create_dir_all wrap p = os_call wrap (\<lambda>n w. ((), w\<lparr>dirs := p # dirs w\<rparr>))"

definition write_file :: "(string \<Rightarrow> 'e) \<Rightarrow> path \<Rightarrow> string \<Rightarrow> ('e, unit) io" where
  "write_file wrap p txt = os_call wrap (\<lambda>n w. ((), w\<lparr>files := dm_insert p txt (files w)\<rparr>))"

definition bind_port :: "(string \<Rightarrow> 'e) \<Rightarrow> ('e, u16) io" where
  "bind_port wrap = os_call wrap (\<lambda>n w. (port_given (host w) n, w))"

definition local_addr :: "(string \<Rightarrow> 'e) \<Rightarrow> u16 \<Rightarrow> ('e, u16) io" where
  "local_addr wrap p = os_call wrap (\<lambda>n w. (p, w))"

definition allocate_port :: "(string \<Rightarrow> 'e) \<Rightarrow> ('e, u16) io" where
  "allocate_port wrap = io_bind (bind_port wrap) (local_addr wrap)"

definition localhost :: "u16 \<Rightarrow> sock_addr" where
  "localhost p = (''127.0.0.1'', p)"

definition show_port :: "u16 \<Rightarrow> string" where
  "show_port p = digits (unat p)"

definition show_addr :: "sock_addr \<Rightarrow> string" where
  "show_addr a = fst a @ '':'' @ show_port (snd a)"

definition spawn ::
  "(string \<Rightarrow> 'e) \<Rightarrow> path \<Rightarrow> string list \<Rightarrow> (string \<times> string) list \<Rightarrow> ('e, nat) io" where
  "spawn wrap x as vs = os_call wrap (\<lambda>n w.
     (n, w\<lparr>procs := \<lparr>pid = n, exe = x, cmd_args = as, cmd_env = vs, alive = True\<rparr> # procs w\<rparr>))"

definition is_alive :: "nat \<Rightarrow> os \<Rightarrow> bool" where
  "is_alive p w = list_ex (\<lambda>q. pid q = p \<and> alive q) (procs w)"

definition mark_dead :: "nat \<Rightarrow> os \<Rightarrow> os" where
  "mark_dead p w = w\<lparr>procs := map (\<lambda>q. if pid q = p then q\<lparr>alive := False\<rparr> else q) (procs w)\<rparr>"

definition try_wait :: "nat \<Rightarrow> os \<Rightarrow> wait_answer \<times> os" where
  "try_wait p w =
     (if wait_fails (host w) (calls w) then (WaitFailed, syscall w)
      else if child_exits (host w) (calls w) \<or> \<not> is_alive p w then (Exited, mark_dead p (syscall w))
      else (ChildRunning, syscall w))"

definition kill :: "nat \<Rightarrow> os \<Rightarrow> os" where
  "kill p w = (if kill_fails (host w) (calls w) then syscall w else mark_dead p (syscall w))"

text \<open>\<open>wait\<close> blocks until the child exits: \<open>None\<close> when it was not killed and never exits by itself.\<close>

definition child_wait :: "nat \<Rightarrow> os \<Rightarrow> os option" where
  "child_wait p w =
     (if wait_fails (host w) (calls w) then Some (syscall w)
      else if child_exits (host w) (calls w) \<or> \<not> is_alive p w then Some (mark_dead p (syscall w))
      else None)"

definition connect_timeout :: "u16 \<Rightarrow> nat \<Rightarrow> os \<Rightarrow> bool \<times> os" where
  "connect_timeout p limit w =
     (accepts (host w) (calls w) p,
      (syscall w)\<lparr>clock := clock (syscall w) + min limit (connect_time (host w) (calls w))\<rparr>)"

definition sleep :: "nat \<Rightarrow> os \<Rightarrow> os" where
  "sleep d w = (syscall w)\<lparr>clock := clock (syscall w) + d\<rparr>"

text \<open>
  The destructor of a temporary directory removes what is under it, and ignores a removal that fails:
  \<open>removal_keeps n p\<close> says that the removal made as call \<open>n\<close> leaves \<open>p\<close> behind.
\<close>

definition drop_tempdir :: "path \<Rightarrow> os \<Rightarrow> os" where
  "drop_tempdir d w =
     (let gone = (\<lambda>p. under d p \<and> \<not> removal_keeps (host w) (calls w) p)
      in (syscall w)\<lparr>files := dm_retain (\<lambda>p _. \<not> gone p) (files w), dirs := filter (\<lambda>p. \<not> gone p) (dirs w)\<rparr>)"

definition removable :: "os \<Rightarrow> bool" where
  "removable w = (\<forall>n p. \<not> removal_keeps (host w) n p)"

definition with_tempdir :: "(string \<Rightarrow> 'e) \<Rightarrow> (path \<Rightarrow> ('e, 'a) io) \<Rightarrow> ('e, 'a) io" where
  "with_tempdir wrap body = io_bind (tempdir wrap) (\<lambda>d. on_error (drop_tempdir d) (body d))"

section \<open>Simplification\<close>

lemma syscall_simps [simp]:
  "host (syscall w) = host w" "procs (syscall w) = procs w" "files (syscall w) = files w"
  "dirs (syscall w) = dirs w" "calls (syscall w) = Suc (calls w)"
  "clock (syscall w) = clock w + latency (host w) (calls w)"
  by (simp_all add: syscall_def)

lemma is_alive_frame [simp]:
  "is_alive p (syscall w) = is_alive p w"
  "is_alive p (w\<lparr>clock := c\<rparr>) = is_alive p w"
  by (simp_all add: is_alive_def)

lemma mark_dead_simps [simp]:
  "host (mark_dead p w) = host w" "files (mark_dead p w) = files w" "dirs (mark_dead p w) = dirs w"
  "clock (mark_dead p w) = clock w" "calls (mark_dead p w) = calls w"
  by (simp_all add: mark_dead_def)

lemma is_alive_mark_dead [simp]: "is_alive p (mark_dead q w) \<longleftrightarrow> p \<noteq> q \<and> is_alive p w"
  by (auto simp: is_alive_def mark_dead_def list_ex_iff split: if_splits)

lemma drop_tempdir_simps [simp]:
  "host (drop_tempdir d w) = host w" "procs (drop_tempdir d w) = procs w"
  "calls (drop_tempdir d w) = Suc (calls w)" "clock w \<le> clock (drop_tempdir d w)"
  by (simp_all add: drop_tempdir_def Let_def)

lemma drop_tempdir_removes:
  assumes "removable w"
  shows "files (drop_tempdir d w) = dm_retain (\<lambda>p _. \<not> under d p) (files w)"
    and "dirs (drop_tempdir d w) = filter (\<lambda>p. \<not> under d p) (dirs w)"
  using assms by (simp_all add: drop_tempdir_def removable_def Let_def)

lemma on_error_Ok_iff [simp]: "on_error c m w = (Ok a, w') \<longleftrightarrow> m w = (Ok a, w')"
  by (auto simp: on_error_def split: prod.splits result.splits)

lemma os_call_Ok_iff:
  "os_call wrap act w = (Ok a, w') \<longleftrightarrow>
     failure (host w) (calls w) = None \<and> act (calls w) (syscall w) = (a, w')"
  by (auto simp: os_call_def split: option.splits prod.splits)

lemma os_call_no_Panic: "os_call wrap act w \<noteq> (Panic, w')"
  by (auto simp: os_call_def split: option.splits prod.splits)

lemma on_error_no_Panic: "(\<And>w w'. m w \<noteq> (Panic, w')) \<Longrightarrow> on_error c m w \<noteq> (Panic, w')"
  by (auto simp: on_error_def split: prod.splits result.splits)

section \<open>What an operation leaves alone\<close>

text \<open>
  \<open>io_rel R m\<close>: running \<open>m\<close> relates the states before and after by \<open>R\<close>, whatever the outcome. A
  locale of preorders gives the rule for sequences once; it is interpreted for the two relations
  the spawners need.
\<close>

definition io_rel :: "(os \<Rightarrow> os \<Rightarrow> bool) \<Rightarrow> ('e, 'a) io \<Rightarrow> bool" where
  "io_rel R m = (\<forall>w. R w (snd (m w)))"

lemma io_relD: "io_rel R m \<Longrightarrow> m w = (r, w') \<Longrightarrow> R w w'"
  unfolding io_rel_def by (erule allE [of _ w]) simp

locale frame =
  fixes R :: "os \<Rightarrow> os \<Rightarrow> bool"
  assumes frame_refl: "R w w"
    and frame_trans: "R w w' \<Longrightarrow> R w' w'' \<Longrightarrow> R w w''"
begin

lemma rel_return [intro]: "io_rel R (io_return a)"
  by (simp add: io_rel_def io_return_def frame_refl)

lemma rel_fail [intro]: "io_rel R (io_fail e)"
  by (simp add: io_rel_def io_fail_def frame_refl)

lemma rel_lift [intro]: "io_rel R (io_lift r)"
  by (simp add: io_rel_def io_lift_def frame_refl)

lemma rel_bind [intro]:
  assumes "io_rel R m" and "\<And>a. io_rel R (f a)"
  shows "io_rel R (io_bind m f)"
  unfolding io_rel_def
proof
  fix w
  obtain r w' where m: "m w = (r, w')" by (cases "m w")
  have 1: "R w w'" using assms(1) m by (auto simp: io_rel_def dest: spec [of _ w])
  show "R w (snd (io_bind m f w))"
  proof (cases r)
    case (Ok a)
    have "R w' (snd (f a w'))" using assms(2) by (simp add: io_rel_def)
    with 1 show ?thesis using m Ok by (simp add: io_bind_def frame_trans)
  qed (use m 1 in \<open>simp_all add: io_bind_def\<close>)
qed

lemma rel_on_error:
  assumes "io_rel R m" and "\<And>w. R w (c w)"
  shows "io_rel R (on_error c m)"
  unfolding io_rel_def
proof
  fix w
  have "R w (snd (m w))" using assms(1) by (simp add: io_rel_def)
  moreover have "R (snd (m w)) (c (snd (m w)))" by (rule assms(2))
  ultimately show "R w (snd (on_error c m w))"
    by (auto simp: on_error_def split: prod.splits result.splits intro: frame_trans)
qed

end

text \<open>The clock and the call counter only move forward, and the host stays the same.\<close>

definition onward :: "os \<Rightarrow> os \<Rightarrow> bool" where
  "onward w w' = (host w' = host w \<and> clock w \<le> clock w' \<and> calls w \<le> calls w')"

text \<open>Moreover no process is started or ended, and nothing outside \<open>d\<close> is written or removed.\<close>

definition inside :: "path \<Rightarrow> os \<Rightarrow> os \<Rightarrow> bool" where
  "inside d w w' =
     (onward w w' \<and> procs w' = procs w \<and>
      dm_retain (\<lambda>p _. \<not> under d p) (files w') = dm_retain (\<lambda>p _. \<not> under d p) (files w) \<and>
      filter (\<lambda>p. \<not> under d p) (dirs w') = filter (\<lambda>p. \<not> under d p) (dirs w))"

interpretation onw: frame onward
  by unfold_locales (auto simp: onward_def)

interpretation ins: frame "inside d" for d
  by unfold_locales (auto simp: inside_def onward_def)

lemma dm_retain_insert_out: "\<not> P k v \<Longrightarrow> (\<And>v'. P k v' = P k v) \<Longrightarrow> dm_retain P (dm_insert k v m) = dm_retain P m"
  by (induction m) (auto simp: dm_retain_def dm_insert_def)

lemma os_call_rel:
  assumes "\<And>w. R w (syscall w)" and "\<And>w. R w (snd (act (calls w) (syscall w)))"
  shows "io_rel R (os_call wrap act)"
  using assms by (auto simp: io_rel_def os_call_def split: option.splits prod.splits) (metis snd_conv)

lemma inside_bind_port: "io_rel (inside d) (bind_port wrap)"
  unfolding bind_port_def by (rule os_call_rel) (simp_all add: inside_def onward_def)

lemma inside_local_addr: "io_rel (inside d) (local_addr wrap p)"
  unfolding local_addr_def by (rule os_call_rel) (simp_all add: inside_def onward_def)

lemma inside_create_dir: "under d p \<Longrightarrow> io_rel (inside d) (create_dir_all wrap p)"
  unfolding create_dir_all_def by (rule os_call_rel) (simp_all add: inside_def onward_def)

lemma inside_write_file: "under d p \<Longrightarrow> io_rel (inside d) (write_file wrap p txt)"
  unfolding write_file_def
  by (rule os_call_rel) (simp_all add: inside_def onward_def dm_retain_insert_out)

lemma inside_allocate_port: "io_rel (inside d) (allocate_port wrap)"
  unfolding allocate_port_def by (intro ins.rel_bind inside_bind_port inside_local_addr)

lemmas inside_intros = ins.rel_bind ins.rel_return inside_allocate_port inside_create_dir
  inside_write_file under_join under_refl

lemmas no_Panic_intros = io_bind_no_Panic os_call_no_Panic

lemma allocate_port_no_Panic [simp]: "allocate_port wrap w \<noteq> (Panic, w')"
  unfolding allocate_port_def bind_port_def local_addr_def by (intro no_Panic_intros)

lemma create_dir_all_no_Panic [simp]: "create_dir_all wrap p w \<noteq> (Panic, w')"
  unfolding create_dir_all_def by (intro no_Panic_intros)

lemma write_file_no_Panic [simp]: "write_file wrap p txt w \<noteq> (Panic, w')"
  unfolding write_file_def by (intro no_Panic_intros)

text \<open>What a successful call has done to the files.\<close>

lemma allocate_port_Ok_files: "allocate_port wrap w = (Ok p, w') \<Longrightarrow> files w' = files w"
  by (auto simp: allocate_port_def bind_port_def local_addr_def io_bind_Ok_iff os_call_Ok_iff)

lemma create_dir_all_Ok_files: "create_dir_all wrap p w = (Ok u, w') \<Longrightarrow> files w' = files w"
  by (auto simp: create_dir_all_def os_call_Ok_iff)

lemma write_file_Ok_files: "write_file wrap p txt w = (Ok u, w') \<Longrightarrow> files w' = dm_insert p txt (files w)"
  by (auto simp: write_file_def os_call_Ok_iff)

lemmas call_files = allocate_port_Ok_files create_dir_all_Ok_files write_file_Ok_files

end
