(* ===== verification/Testenv_Process.thy ===== *)
theory Testenv_Process
  imports Testenv_Os
begin

text \<open>
  The parts the spawners of \<open>crates/sv2-p2pool-testenv/src/\<close> share: the polling loop of the
  \<open>wait_for_ready\<close> and \<open>wait_for_*metric\<close> functions, the destructor of a child process, the search
  for a binary, and the contract of a spawner. A loop that polls is a partial function: not
  returning is the value \<open>None\<close>, and the locale \<open>polling\<close> proves that it returns, and by when.
\<close>

section \<open>Polling\<close>

partial_function (option) poll_loop ::
  "('w \<Rightarrow> 'r option \<times> 'w) \<Rightarrow> ('w \<Rightarrow> nat) \<Rightarrow> ('w \<Rightarrow> 'w) \<Rightarrow> nat \<Rightarrow> 'w \<Rightarrow> ('r option \<times> 'w) option" where
  "poll_loop probe now nap deadline w =
     (case probe w of
        (Some r, w') \<Rightarrow> Some (Some r, w')
      | (None, w') \<Rightarrow>
          if deadline \<le> now w' then Some (None, w')
          else poll_loop probe now nap deadline (nap w'))"

lemma poll_loop_hit: "probe w = (Some r, w') \<Longrightarrow> poll_loop probe now nap deadline w = Some (Some r, w')"
  by (subst poll_loop.simps) simp

lemma poll_loop_late:
  "probe w = (None, w') \<Longrightarrow> deadline \<le> now w' \<Longrightarrow> poll_loop probe now nap deadline w = Some (None, w')"
  by (subst poll_loop.simps) simp

lemma poll_loop_again:
  "probe w = (None, w') \<Longrightarrow> now w' < deadline \<Longrightarrow>
     poll_loop probe now nap deadline w = poll_loop probe now nap deadline (nap w')"
  by (subst poll_loop.simps) simp

text \<open>
  A probe that never turns the clock back and a pause of at least \<open>gap > 0\<close> ticks make the loop
  return. When moreover a probe takes at most \<open>cost\<close> ticks and a pause at most \<open>pause\<close>, in the
  states that satisfy \<open>calm\<close>, the loop returns at most one pause and one probe after its deadline.
\<close>

locale polling =
  fixes probe :: "'w \<Rightarrow> 'r option \<times> 'w"
    and now :: "'w \<Rightarrow> nat"
    and nap :: "'w \<Rightarrow> 'w"
    and gap :: nat
    and calm :: "nat \<Rightarrow> 'w \<Rightarrow> bool"
    and cost :: "nat \<Rightarrow> nat"
    and pause :: "nat \<Rightarrow> nat"
  assumes probe_now: "now w \<le> now (snd (probe w))"
    and nap_now: "now w + gap \<le> now (nap w)"
    and gap_pos: "0 < gap"
    and probe_calm: "calm l w \<Longrightarrow> calm l (snd (probe w))"
    and nap_calm: "calm l w \<Longrightarrow> calm l (nap w)"
    and probe_cost: "calm l w \<Longrightarrow> now (snd (probe w)) \<le> now w + cost l"
    and nap_cost: "calm l w \<Longrightarrow> now (nap w) \<le> now w + pause l"
begin

lemma poll_induct [case_names poll]:
  assumes "\<And>w. (\<And>w'. probe w = (None, w') \<Longrightarrow> now w' < deadline \<Longrightarrow> P (nap w')) \<Longrightarrow> P w"
  shows "P w"
proof (induction "deadline - now w" arbitrary: w rule: less_induct)
  case less
  show ?case
  proof (rule assms)
    fix w' assume w': "probe w = (None, w')" "now w' < deadline"
    have "deadline - now (nap w') < deadline - now w"
      using probe_now [of w] nap_now [of w'] gap_pos w' by simp
    then show "P (nap w')" by (rule less)
  qed
qed

lemma returns: "\<exists>r w'. poll_loop probe now nap deadline w = Some (r, w')"
proof (induction w rule: poll_induct [where deadline = deadline])
  case (poll w)
  obtain r w' where p: "probe w = (r, w')" by (cases "probe w")
  show ?case
  proof (cases r)
    case None
    then show ?thesis
      using p poll by (cases "now w' < deadline") (simp_all add: poll_loop_again poll_loop_late)
  qed (use p in \<open>simp add: poll_loop_hit\<close>)
qed

lemma returns_by:
  assumes "calm l w" and "poll_loop probe now nap deadline w = Some (r, w')"
  shows "now w' \<le> max (now w) (deadline + pause l) + cost l"
  using assms
proof (induction w rule: poll_induct [where deadline = deadline])
  case (poll w)
  obtain a v where p: "probe w = (a, v)" by (cases "probe w")
  have v: "now v \<le> now w + cost l" "calm l v"
    using probe_cost [OF poll.prems(1)] probe_calm [OF poll.prems(1)] p by simp_all
  show ?case
  proof (cases "a = None \<and> now v < deadline")
    case True
    have "now w' \<le> max (now (nap v)) (deadline + pause l) + cost l"
      using poll.IH [of v] p True v nap_calm poll.prems(2) by (simp add: poll_loop_again)
    with nap_cost [OF v(2)] True show ?thesis by simp
  next
    case False
    with p poll.prems(2) have "w' = v"
      by (cases a) (auto simp: poll_loop_hit poll_loop_late)
    with v show ?thesis by simp
  qed
qed

text \<open>A result is one that a probe gave; giving up means that the clock has reached the deadline.\<close>

lemma result_from_probe:
  assumes "poll_loop probe now nap deadline w = Some (Some r, w')"
  shows "\<exists>v. probe v = (Some r, w')"
  using assms
proof (induction w rule: poll_induct [where deadline = deadline])
  case (poll w)
  obtain a v where p: "probe w = (a, v)" by (cases "probe w")
  show ?case
  proof (cases a)
    case None
    then show ?thesis
      using p poll by (cases "now v < deadline") (simp_all add: poll_loop_again poll_loop_late)
  qed (use p poll in \<open>auto simp: poll_loop_hit\<close>)
qed

lemma gives_up_late:
  assumes "poll_loop probe now nap deadline w = Some (None, w')"
  shows "deadline \<le> now w'"
  using assms
proof (induction w rule: poll_induct [where deadline = deadline])
  case (poll w)
  obtain a v where p: "probe w = (a, v)" by (cases "probe w")
  show ?case
  proof (cases a)
    case None
    then show ?thesis
      using p poll by (cases "now v < deadline") (simp_all add: poll_loop_again poll_loop_late)
  qed (use p poll in \<open>auto simp: poll_loop_hit\<close>)
qed

text \<open>A relation kept by every pause and every probe that goes on, and by the last one, relates
  the ends of the loop.\<close>

lemma keeps:
  assumes "poll_loop probe now nap deadline w = Some (r, w')"
    and probe: "\<And>w a v. probe w = (a, v) \<Longrightarrow> a = None \<or> a = r \<Longrightarrow> R w v" and nap: "\<And>w. R w (nap w)"
    and trans: "\<And>a b c. R a b \<Longrightarrow> R b c \<Longrightarrow> R a c"
  shows "R w w'"
  using assms(1)
proof (induction w rule: poll_induct [where deadline = deadline])
  case (poll w)
  obtain a v where p: "probe w = (a, v)" by (cases "probe w")
  show ?case
  proof (cases "a = None \<and> now v < deadline")
    case True
    then have "R (nap v) w'"
      using poll.IH [of v] p poll.prems by (simp add: poll_loop_again)
    moreover have "R w v" using probe p True by blast
    ultimately show ?thesis using nap [of v] by (blast intro: trans)
  next
    case False
    with p poll.prems have "w' = v \<and> a = r"
      by (cases a) (auto simp: poll_loop_hit poll_loop_late)
    with probe p show ?thesis by blast
  qed
qed

end

section \<open>Waiting for a child to become ready\<close>

text \<open>
  \<open>Instant::now() + timeout\<close>: an instant has whole seconds in an \<open>i64\<close>, and the addition panics when the
  sum does not fit.
\<close>

definition instant_end :: nat where
  "instant_end = 2 ^ 63 * 1000"

definition deadline_after :: "nat \<Rightarrow> nat \<Rightarrow> nat option" where
  "deadline_after now_ms timeout = (if now_ms + timeout < instant_end then Some (now_ms + timeout) else None)"

definition ready_probe :: "'e \<Rightarrow> (os \<Rightarrow> bool \<times> os) \<Rightarrow> nat \<Rightarrow> os \<Rightarrow> ('e, unit) result option \<times> os" where
  "ready_probe exited up child w =
     (case try_wait child w of
        (Exited, w') \<Rightarrow> (Some (Err exited), w')
      | (_, w') \<Rightarrow> (case up w' of
            (True, w'') \<Rightarrow> (Some (Ok ()), w'')
          | (False, w'') \<Rightarrow> (None, w'')))"

definition ready_loop ::
  "'e \<Rightarrow> (nat \<Rightarrow> 'e) \<Rightarrow> (os \<Rightarrow> bool \<times> os) \<Rightarrow> nat \<Rightarrow> nat \<Rightarrow> nat \<Rightarrow> os \<Rightarrow> (('e, unit) result \<times> os) option" where
  "ready_loop exited timed_out up gap child timeout w =
     (case deadline_after (clock w) timeout of
        None \<Rightarrow> Some (Panic, w)
      | Some deadline \<Rightarrow>
          (case poll_loop (ready_probe exited up child) clock (sleep gap) deadline w of
             None \<Rightarrow> None
           | Some (Some r, w') \<Rightarrow> Some (r, w')
           | Some (None, w') \<Rightarrow> Some (Err (timed_out timeout), w')))"

definition port_up :: "u16 \<Rightarrow> os \<Rightarrow> bool \<times> os" where
  "port_up p w = connect_timeout p 100 w"

definition both_up :: "u16 \<Rightarrow> u16 \<Rightarrow> os \<Rightarrow> bool \<times> os" where
  "both_up p q w =
     (let (a, w1) = connect_timeout p 100 w;
          (b, w2) = connect_timeout q 100 w1
      in (a \<and> b, w2))"

section \<open>The destructor of a child\<close>

definition drop_child :: "nat \<Rightarrow> os \<Rightarrow> os option" where
  "drop_child p w =
     (case try_wait p w of
        (Exited, w') \<Rightarrow> Some w'
      | (ChildRunning, w') \<Rightarrow> child_wait p (kill p w')
      | (WaitFailed, w') \<Rightarrow> Some w')"

datatype spawn_error =
    BinaryNotFound
  | PortAllocation string
  | Tempdir string
  | WriteConfig string
  | Spawn string
  | ReadinessTimeout nat
  | ExitedDuringStartup

section \<open>Finding the binary\<close>

fun find_up :: "(path \<Rightarrow> bool) \<Rightarrow> (path \<Rightarrow> path list) \<Rightarrow> nat \<Rightarrow> path \<Rightarrow> path option" where
  "find_up is_f candidates 0 p = None"
| "find_up is_f candidates (Suc n) p =
     (case path_pop p of
        None \<Rightarrow> None
      | Some q \<Rightarrow>
          (case find is_f (candidates q) of
             Some c \<Rightarrow> Some c
           | None \<Rightarrow> find_up is_f candidates n q))"

definition find_from_manifest :: "host \<Rightarrow> (path \<Rightarrow> path list) \<Rightarrow> path option" where
  "find_from_manifest h candidates =
     Option.bind (env_var h ''CARGO_MANIFEST_DIR'') (\<lambda>m. find_up (is_file h) candidates 3 (path_of m))"

definition which_compat :: "host \<Rightarrow> string \<Rightarrow> path option" where
  "which_compat h name =
     Option.bind (env_var h ''PATH'') (\<lambda>v. find (is_file h) (map (\<lambda>d. path_join d name) (split_paths v)))"

fun or_else :: "'a option \<Rightarrow> 'a option \<Rightarrow> 'a option" where
  "or_else (Some a) _ = Some a"
| "or_else None b = b"

section \<open>The shape of a spawner\<close>

text \<open>
  Every \<open>build\<close> ends the same way: the child is running, its handle is a local variable, and
  \<open>wait_for_ready(&mut spawner, timeout)?\<close> either hands the handle to the caller or returns early
  and drops it.
\<close>

definition await_ready ::
  "('e, 'd) io \<Rightarrow> ('d \<Rightarrow> os \<Rightarrow> (('e, unit) result \<times> os) option) \<Rightarrow> ('d \<Rightarrow> os \<Rightarrow> os option) \<Rightarrow>
   os \<Rightarrow> (('e, 'd) result \<times> os) option" where
  "await_ready prepare wait release w =
     (case prepare w of
        (Err e, w') \<Rightarrow> Some (Err e, w')
      | (Panic, w') \<Rightarrow> Some (Panic, w')
      | (Ok d, w') \<Rightarrow>
          (case wait d w' of
             None \<Rightarrow> None
           | Some (Ok _, w'') \<Rightarrow> Some (Ok d, w'')
           | Some (Err e, w'') \<Rightarrow> map_option (Pair (Err e)) (release d w'')
           | Some (Panic, w'') \<Rightarrow> map_option (Pair Panic) (release d w'')))"

section \<open>Readiness\<close>

definition calm :: "nat \<Rightarrow> os \<Rightarrow> bool" where
  "calm l w = (\<forall>n. latency (host w) n \<le> l)"

text \<open>Only the liveness of one child may change.\<close>

definition watches :: "nat \<Rightarrow> os \<Rightarrow> os \<Rightarrow> bool" where
  "watches p w w' =
     (onward w w' \<and> files w' = files w \<and> dirs w' = dirs w \<and>
      (procs w' = procs w \<or> procs w' = procs (mark_dead p w)))"

lemma mark_dead_idem: "procs w' = procs (mark_dead p w) \<Longrightarrow> procs (mark_dead p w') = procs (mark_dead p w)"
  by (simp add: mark_dead_def)

lemma watches_trans: "watches p a b \<Longrightarrow> watches p b c \<Longrightarrow> watches p a c"
  unfolding watches_def onward_def using mark_dead_idem [of b p a]
  by (auto simp: mark_dead_def)

lemma watches_refl [simp]: "watches p w w"
  by (simp add: watches_def onward_def)

lemma watches_syscall [simp]: "watches p w (syscall w)"
  by (simp add: watches_def onward_def)

lemma watches_mark_dead [simp]: "watches p w (mark_dead p (syscall w))"
  by (simp add: watches_def onward_def) (simp add: mark_dead_def)

lemma watches_try_wait: "watches p w (snd (try_wait p w))"
  by (simp add: try_wait_def)

lemma watches_sleep: "watches p w (sleep d w)"
  by (simp add: sleep_def watches_def onward_def)

lemma watches_connect: "watches p w (snd (connect_timeout q d w))"
  by (simp add: connect_timeout_def watches_def onward_def)

lemma try_wait_time: "clock (snd (try_wait p w)) = clock w + latency (host w) (calls w)"
  by (simp add: try_wait_def)

text \<open>
  What the outcome of a wait says: ready only after a probe in which the ports accepted, an exit only
  when the child is dead, a timeout only once it has elapsed, a panic only when the deadline is not
  representable.
\<close>

definition waited ::
  "(os \<Rightarrow> bool \<times> os) \<Rightarrow> 'e \<Rightarrow> 'e \<Rightarrow> nat \<Rightarrow> nat \<Rightarrow> os \<Rightarrow> ('e, unit) result \<Rightarrow> os \<Rightarrow> bool" where
  "waited up exited timed_out child timeout w r w' \<longleftrightarrow>
     r = Ok () \<and> (\<exists>v. up v = (True, w')) \<or>
     r = Err exited \<and> \<not> is_alive child w' \<or>
     r = Err timed_out \<and> clock w + timeout \<le> clock w' \<or>
     r = Panic \<and> instant_end \<le> clock w + timeout"

locale readiness =
  fixes up :: "os \<Rightarrow> bool \<times> os"
    and tries :: nat
    and gap :: nat
  assumes up_watches: "watches p w (snd (up w))"
    and up_alive: "procs (snd (up w)) = procs w"
    and up_time: "calm l w \<Longrightarrow> clock (snd (up w)) \<le> clock w + tries * (l + 100)"
    and gap_positive: "0 < gap"
begin

lemma probe_watches: "watches p w (snd (ready_probe e up p w))"
proof -
  obtain a w' where t: "try_wait p w = (a, w')" by (cases "try_wait p w")
  have 1: "watches p w w'" using watches_try_wait [of p w] t by simp
  show ?thesis
  proof (cases a)
    case Exited
    with t 1 show ?thesis by (simp add: ready_probe_def)
  qed (use t watches_trans [OF 1 up_watches] in
      \<open>auto simp: ready_probe_def split: prod.splits bool.splits\<close>)
qed

lemma probe_time:
  assumes "calm l w"
  shows "clock (snd (ready_probe e up p w)) \<le> clock w + (l + tries * (l + 100))"
proof -
  obtain a w' where t: "try_wait p w = (a, w')" by (cases "try_wait p w")
  have lat: "latency (host w) (calls w) \<le> l" using assms by (simp add: calm_def)
  have 1: "clock w' \<le> clock w + l" using try_wait_time [of p w] t lat by simp
  have "host w' = host w" using watches_try_wait [of p w] t by (simp add: watches_def onward_def)
  with assms have "calm l w'" by (simp add: calm_def)
  from up_time [OF this] 1 t show ?thesis
    by (auto simp: ready_probe_def split: prod.splits bool.splits wait_answer.splits)
qed

lemma loop_polling:
  "polling (ready_probe e up p) clock (sleep gap) gap calm (\<lambda>l. l + tries * (l + 100)) (\<lambda>l. gap + l)"
proof
  fix w :: os and l
  show "clock w \<le> clock (snd (ready_probe e up p w))"
    and "calm l w \<Longrightarrow> calm l (snd (ready_probe e up p w))"
    using probe_watches [of p w e] by (simp_all add: watches_def onward_def calm_def)
  show "calm l w \<Longrightarrow> clock (snd (ready_probe e up p w)) \<le> clock w + (l + tries * (l + 100))"
    by (rule probe_time)
qed (auto simp: sleep_def calm_def gap_positive)

lemma ready_cases:
  assumes "ready_loop e t up gap p timeout w = Some (r, w')"
  obtains (overflow) "r = Panic" "w' = w" "instant_end \<le> clock w + timeout"
  | (polled) a where "poll_loop (ready_probe e up p) clock (sleep gap) (clock w + timeout) w = Some (a, w')"
      "a = Some r \<or> a = None \<and> r = Err (t timeout)"
  using assms
  by (auto simp: ready_loop_def deadline_after_def split: if_splits option.splits prod.splits)

lemma ready_returns: "\<exists>r w'. ready_loop e t up gap p timeout w = Some (r, w')"
  using polling.returns [OF loop_polling, of e p "clock w + timeout" w]
  by (auto simp: ready_loop_def deadline_after_def split: option.splits)

lemma ready_by:
  assumes "calm l w" and "ready_loop e t up gap p timeout w = Some (r, w')"
  shows "clock w' \<le> clock w + timeout + gap + 2 * l + tries * (l + 100)"
  using assms(2)
proof (cases rule: ready_cases)
  case (polled a)
  from polling.returns_by [OF loop_polling assms(1) this(1)] show ?thesis by simp
qed simp

lemma ready_watches:
  assumes "ready_loop e t up gap p timeout w = Some (r, w')"
  shows "watches p w w'"
  using assms
proof (cases rule: ready_cases)
  case (polled a)
  note this(1)
  moreover have "watches p w v" if "ready_probe e up p w = (a, v)" for w a v
    using probe_watches [of p w e] that by simp
  ultimately show ?thesis
    by (rule polling.keeps [OF loop_polling]) (auto simp: watches_sleep dest: watches_trans)
qed simp

lemma probe_Some:
  assumes "ready_probe e up p v = (Some r, w')"
  shows "(r = Ok () \<and> (\<exists>v'. up v' = (True, w'))) \<or> (r = Err e \<and> \<not> is_alive p w')"
  using assms
  by (auto simp: ready_probe_def try_wait_def split: prod.splits bool.splits if_splits)

lemma ready_outcome:
  assumes "ready_loop e t up gap p timeout w = Some (r, w')"
  shows "waited up e (t timeout) p timeout w r w'"
  using assms
proof (cases rule: ready_cases)
  case (polled a)
  show ?thesis
  proof (cases a)
    case None
    with polled have "clock w + timeout \<le> clock w'" by (blast intro: polling.gives_up_late [OF loop_polling])
    with polled None show ?thesis by (simp add: waited_def)
  next
    case (Some r')
    with polling.result_from_probe [OF loop_polling] polled
    obtain v where "ready_probe e up p v = (Some r', w')" by metis
    with probe_Some polled Some show ?thesis by (fastforce simp: waited_def)
  qed
qed (simp add: waited_def)

lemma ready_Ok_procs:
  assumes "ready_loop e t up gap p timeout w = Some (Ok u, w')"
  shows "procs w' = procs w"
  using assms
proof (cases rule: ready_cases)
  case (polled a)
  then have loop: "poll_loop (ready_probe e up p) clock (sleep gap) (clock w + timeout) w = Some (Some (Ok u), w')" by simp
  have "procs v = procs w" if "ready_probe e up p w = (a, v)" "a = None \<or> a = Some (Ok u)" for w a v
    using that up_alive [of "syscall w"]
    by (auto simp: ready_probe_def try_wait_def split: prod.splits bool.splits if_splits)
  then show ?thesis
    by (rule polling.keeps [OF loop_polling loop, of "\<lambda>w v. procs v = procs w"]) (simp_all add: sleep_def)
qed simp

lemma ready_Ok_up: "ready_loop e t up gap p timeout w = Some (Ok u, w') \<Longrightarrow> \<exists>v. up v = (True, w')"
  by (auto dest: ready_outcome simp: waited_def)

lemma ready_total:
  "\<exists>r w'. ready_loop e t up gap p timeout w = Some (r, w') \<and> watches p w w' \<and>
     (r = Panic \<longrightarrow> instant_end \<le> clock w + timeout)"
proof -
  obtain r w' where r: "ready_loop e t up gap p timeout w = Some (r, w')" using ready_returns [of e t p timeout w] by blast
  from ready_outcome [OF r] have "r = Panic \<longrightarrow> instant_end \<le> clock w + timeout" by (auto simp: waited_def)
  with r ready_watches [OF r] show ?thesis by blast
qed

end

lemma connect_time_le:
  assumes "calm l w"
  shows "clock (snd (connect_timeout q 100 w)) \<le> clock w + (l + 100)"
proof -
  have "latency (host w) (calls w) \<le> l" using assms by (simp add: calm_def)
  then show ?thesis by (simp add: connect_timeout_def)
qed

lemma connect_frame [simp]:
  "procs (snd (connect_timeout q d w)) = procs w"
  "calm l (snd (connect_timeout q d w)) = calm l w"
  by (simp_all add: connect_timeout_def calm_def)

lemma readiness_port: "0 < gap \<Longrightarrow> readiness (port_up p) 1 gap"
  by unfold_locales
    (simp_all add: port_up_def watches_connect connect_time_le)

lemma readiness_both:
  assumes "0 < gap"
  shows "readiness (both_up p q) 2 gap"
proof
  fix r w l
  let ?w1 = "snd (connect_timeout p 100 w)"
  have both: "snd (both_up p q w) = snd (connect_timeout q 100 ?w1)"
    by (simp add: both_up_def split_beta Let_def)
  show "watches r w (snd (both_up p q w))"
    unfolding both by (rule watches_trans [OF watches_connect watches_connect])
  show "procs (snd (both_up p q w)) = procs w"
    unfolding both by simp
  assume "calm l w"
  then show "clock (snd (both_up p q w)) \<le> clock w + 2 * (l + 100)"
    unfolding both using connect_time_le [of l w p] connect_time_le [of l ?w1 q] by simp
qed (fact assms)

interpretation port50: readiness "port_up p" 1 50 for p
  by (rule readiness_port) simp

interpretation port100: readiness "port_up p" 1 100 for p
  by (rule readiness_port) simp

interpretation both100: readiness "both_up p q" 2 100 for p q
  by (rule readiness_both) simp

section \<open>Dropping a child\<close>

lemma watches_kill: "watches p w (kill p w)"
  by (simp add: kill_def)

lemma watches_child_wait: "child_wait p w = Some w' \<Longrightarrow> watches p w w'"
  unfolding child_wait_def by (metis option.distinct(1) option.inject watches_mark_dead watches_syscall)

lemma watches_drop_child:
  assumes "drop_child p w = Some w'"
  shows "watches p w w'"
proof -
  obtain a v where t: "try_wait p w = (a, v)" by (cases "try_wait p w")
  have v: "watches p w v" using watches_try_wait [of p w] t by simp
  show ?thesis
  proof (cases a)
    case ChildRunning
    with assms t have "child_wait p (kill p v) = Some w'" by (simp add: drop_child_def)
    then show ?thesis by (rule watches_trans [OF watches_trans [OF v watches_kill] watches_child_wait])
  qed (use assms t v in \<open>simp_all add: drop_child_def\<close>)
qed

text \<open>The system delivers the kill signal; the system lets the harness wait for its child.\<close>

definition killable :: "os \<Rightarrow> bool" where
  "killable w = (\<forall>n. \<not> kill_fails (host w) n)"

definition waitable :: "os \<Rightarrow> bool" where
  "waitable w = (\<forall>n. \<not> wait_fails (host w) n)"

lemma drop_child_returns: "killable w \<Longrightarrow> \<exists>w'. drop_child p w = Some w'"
  by (auto simp: killable_def drop_child_def try_wait_def child_wait_def kill_def)

lemma drop_child_dead: "waitable w \<Longrightarrow> drop_child p w = Some w' \<Longrightarrow> \<not> is_alive p w'"
  by (auto simp: waitable_def drop_child_def try_wait_def child_wait_def kill_def
      split: prod.splits wait_answer.splits if_splits)

lemma watches_host: "watches p w w' \<Longrightarrow> host w' = host w"
  by (simp add: watches_def onward_def)

section \<open>The contract of a spawner\<close>

text \<open>
  \<open>tidy\<close> is what the system promises of its answers: process numbers in use are below the next
  one, and a temporary directory it hands out later is new. \<open>holds d p\<close> says what a started spawner
  owns: one live child \<open>p\<close>, and files only under a directory \<open>d\<close> handed out meanwhile. \<open>restored\<close> says that
  no process is left, and no file when the system removes what it is asked to remove.
\<close>

definition tidy :: "os \<Rightarrow> bool" where
  "tidy w =
     ((\<forall>q \<in> set (procs w). pid q < calls w) \<and>
      (\<forall>n \<ge> calls w. (\<forall>f \<in> set (files w). \<not> under (tempdir_given (host w) n) (fst f)) \<and>
                      (\<forall>p \<in> set (dirs w). \<not> under (tempdir_given (host w) n) p)))"

definition live :: "os \<Rightarrow> proc list" where
  "live w = filter alive (procs w)"

definition restored :: "os \<Rightarrow> os \<Rightarrow> bool" where
  "restored w w' = (live w' = live w \<and> (removable w \<longrightarrow> files w' = files w \<and> dirs w' = dirs w))"

definition holds :: "path \<Rightarrow> nat \<Rightarrow> os \<Rightarrow> os \<Rightarrow> bool" where
  "holds d p w w' =
     (onward w w' \<and> calls w \<le> p \<and> p < calls w' \<and> (\<exists>q. pid q = p \<and> alive q \<and> procs w' = q # procs w) \<and>
      (\<exists>k \<ge> calls w. k < calls w' \<and> d = tempdir_given (host w) k) \<and>
      dm_retain (\<lambda>f _. \<not> under d f) (files w') = files w \<and> filter (\<lambda>f. \<not> under d f) (dirs w') = dirs w)"

definition release :: "path \<Rightarrow> nat \<Rightarrow> os \<Rightarrow> os option" where
  "release d p w = map_option (drop_tempdir d) (drop_child p w)"

lemma mark_dead_above: "\<forall>q \<in> set (procs w). pid q < p \<Longrightarrow> procs (mark_dead p w) = procs w"
  by (auto simp: mark_dead_def intro!: map_idI)

lemma release_returns: "killable w \<Longrightarrow> \<exists>w'. release d p w = Some w'"
  using drop_child_returns [of w p] by (auto simp: release_def)

lemma release_onward: "release d p w = Some w' \<Longrightarrow> onward w w'"
  using watches_drop_child by (fastforce simp: release_def watches_def onward_def intro: le_trans)

lemma holds_release:
  assumes tidy: "tidy w" and "waitable w" and holds: "holds d p w w'" and "watches p w' w''"
    and "release d p w'' = Some v"
  shows "restored w v"
proof -
  from assms(5) obtain u where u: "drop_child p w'' = Some u" "v = drop_tempdir d u"
    by (auto simp: release_def)
  from holds obtain q where q: "pid q = p" "procs w' = q # procs w" by (auto simp: holds_def)
  from tidy holds have below: "\<forall>r \<in> set (procs w). pid r < p"
    by (auto simp: tidy_def holds_def)
  have w: "watches p w' u"
    by (rule watches_trans [OF assms(4) watches_drop_child [OF u(1)]])
  have "waitable w''"
    using assms by (simp add: waitable_def holds_def watches_def onward_def)
  then have dead: "\<not> is_alive p u" using u(1) by (rule drop_child_dead)
  have "procs (mark_dead p w') = q\<lparr>alive := False\<rparr> # procs w"
    using q mark_dead_above [OF below] by (simp add: mark_dead_def)
  with w q have "procs u \<in> {q # procs w, q\<lparr>alive := False\<rparr> # procs w}"
    by (auto simp: watches_def)
  with dead q have "live u = live w"
    by (auto simp: live_def is_alive_def)
  moreover have "files v = files w \<and> dirs v = dirs w" if "removable w"
  proof -
    have "host u = host w" using w holds by (simp add: holds_def watches_def onward_def)
    with that have "removable u" by (simp add: removable_def)
    with w holds show ?thesis by (simp add: u drop_tempdir_removes holds_def watches_def)
  qed
  ultimately show ?thesis using u by (simp add: restored_def live_def)
qed

lemma tidy_onward:
  "tidy w \<Longrightarrow> onward w w' \<Longrightarrow> procs w' = procs w \<Longrightarrow> files w' = files w \<Longrightarrow> dirs w' = dirs w \<Longrightarrow> tidy w'"
  unfolding tidy_def onward_def by (auto intro: less_le_trans)

text \<open>What every \<open>build\<close> does between finding its binary and waiting for the child.\<close>

definition launch ::
  "(string \<Rightarrow> 'e) \<Rightarrow> (string \<Rightarrow> 'e) \<Rightarrow> path \<Rightarrow> (path \<Rightarrow> ('e, 'c) io) \<Rightarrow> (path \<Rightarrow> 'c \<Rightarrow> string list) \<Rightarrow>
   (path \<Rightarrow> 'c \<Rightarrow> (string \<times> string) list) \<Rightarrow> (path \<Rightarrow> 'c \<Rightarrow> nat \<Rightarrow> 'd) \<Rightarrow> ('e, 'd) io" where
  "launch tmp_err spawn_err x configure as vs handle =
     with_tempdir tmp_err (\<lambda>d.
       io_bind (configure d) (\<lambda>c.
       io_bind (spawn spawn_err x (as d c) (vs d c)) (\<lambda>p.
       io_return (handle d c p))))"

lemma tidy_retain:
  assumes "tidy w" and "calls w \<le> n" and "d = tempdir_given (host w) n"
  shows "dm_retain (\<lambda>f _. \<not> under d f) (files w) = files w" "filter (\<lambda>f. \<not> under d f) (dirs w) = dirs w"
  using assms by (fastforce simp: tidy_def dm_retain_def intro!: filter_True)+

lemma launch_Ok:
  assumes "tidy w" and conf: "\<And>d. io_rel (inside d) (configure d)"
    and "launch te se x configure as vs handle w = (Ok s, w')"
  obtains d c p w1 w2 where "s = handle d c p" "holds d p w w'" "configure d w1 = (Ok c, w2)"
    "files w' = files w2" "onward w w1" "calls w2 = p"
    "procs w' = \<lparr>pid = p, exe = x, cmd_args = as d c, cmd_env = vs d c, alive = True\<rparr> # procs w"
proof -
  let ?d = "tempdir_given (host w) (calls w)" and ?w1 = "(syscall w)\<lparr>dirs := tempdir_given (host w) (calls w) # dirs w\<rparr>"
  have t: "tempdir te w = (Ok d, w1) \<Longrightarrow> d = ?d \<and> w1 = ?w1" for d w1
    by (auto simp: tempdir_def os_call_Ok_iff Let_def)
  from assms(3) obtain c w2 p w3 where c: "configure ?d ?w1 = (Ok c, w2)"
    and sp: "spawn se x (as ?d c) (vs ?d c) w2 = (Ok p, w3)" and s: "s = handle ?d c p" "w' = w3"
    unfolding launch_def with_tempdir_def io_bind_Ok_iff on_error_Ok_iff
    by (auto simp: io_return_def dest: t)
  from sp have p: "p = calls w2" and w3: "w3 = (syscall w2)\<lparr>procs :=
        \<lparr>pid = calls w2, exe = x, cmd_args = as ?d c, cmd_env = vs ?d c, alive = True\<rparr> # procs w2\<rparr>"
    by (auto simp: spawn_def os_call_Ok_iff)
  note w' = w3 [folded s(2)]
  have ins: "inside ?d ?w1 w2"
    by (rule io_relD [OF conf c])
  with tidy_retain [OF assms(1) order_refl refl] have "holds ?d (calls w2) w w'"
    by (auto simp: holds_def w' inside_def onward_def intro: exI [of _ "calls w"])
  moreover have "onward w ?w1" by (simp add: onward_def)
  ultimately show ?thesis
    using that [of ?d c "calls w2" ?w1 w2] s p c ins by (simp add: w' inside_def)
qed

lemma launch_Err:
  assumes "tidy w" and conf: "\<And>d. io_rel (inside d) (configure d)"
    and "launch te se x configure as vs handle w = (r, w')" and "\<forall>s. r \<noteq> Ok s"
  shows "restored w w' \<and> onward w w'"
proof (cases "failure (host w) (calls w)")
  case (Some msg)
  with assms(3) show ?thesis
    by (auto simp: launch_def with_tempdir_def tempdir_def os_call_def io_bind_def restored_def live_def onward_def)
next
  case None
  let ?d = "tempdir_given (host w) (calls w)" and ?w1 = "(syscall w)\<lparr>dirs := tempdir_given (host w) (calls w) # dirs w\<rparr>"
  obtain cr w2 where c: "configure ?d ?w1 = (cr, w2)" by (cases "configure ?d ?w1")
  have ins: "inside ?d ?w1 w2"
    by (rule io_relD [OF conf c])
  from None assms(3,4) c have "w' = drop_tempdir ?d w2 \<or> w' = drop_tempdir ?d (syscall w2)"
    by (cases cr)
      (auto simp: launch_def with_tempdir_def tempdir_def os_call_def io_bind_def Let_def on_error_def
        spawn_def io_return_def split: option.splits prod.splits)
  then obtain v where v: "w' = drop_tempdir ?d v" "inside ?d ?w1 v"
    using ins by (auto simp: inside_def onward_def)
  moreover have "removable v \<longleftrightarrow> removable w" using v(2) by (simp add: removable_def inside_def onward_def)
  moreover have "onward w w'"
    using v by (auto simp: inside_def onward_def intro: le_trans [OF _ drop_tempdir_simps(4)])
  ultimately show ?thesis
    using tidy_retain [OF assms(1) order_refl refl] drop_tempdir_removes [of v ?d]
    by (auto simp: restored_def live_def inside_def)
qed

lemma launch_no_Panic:
  assumes "\<And>d w w'. configure d w \<noteq> (Panic, w')"
  shows "launch te se x configure as vs handle w \<noteq> (Panic, w')"
  unfolding launch_def with_tempdir_def tempdir_def spawn_def
  by (intro io_bind_no_Panic os_call_no_Panic on_error_no_Panic assms) (simp add: io_return_def)

text \<open>
  \<open>acquires\<close>: success hands over exactly one child and one directory, an error hands over nothing,
  and there is no third outcome.
\<close>

definition acquired :: "('d \<Rightarrow> path) \<Rightarrow> ('d \<Rightarrow> nat) \<Rightarrow> os \<Rightarrow> ('e, 'd) result \<times> os \<Rightarrow> bool" where
  "acquired dir_of child_of w out =
     (case out of
        (Ok s, w') \<Rightarrow> holds (dir_of s) (child_of s) w w'
      | (Err e, w') \<Rightarrow> restored w w'
      | (Panic, w') \<Rightarrow> False)"

definition acquires :: "('d \<Rightarrow> path) \<Rightarrow> ('d \<Rightarrow> nat) \<Rightarrow> ('e, 'd) io \<Rightarrow> bool" where
  "acquires dir_of child_of m = (\<forall>w. tidy w \<longrightarrow> acquired dir_of child_of w (m w))"

definition still :: "os \<Rightarrow> os \<Rightarrow> bool" where
  "still w w' = (onward w w' \<and> procs w' = procs w \<and> files w' = files w \<and> dirs w' = dirs w)"

definition with_exe :: "'e \<Rightarrow> (os \<Rightarrow> path option \<times> os) \<Rightarrow> (path \<Rightarrow> ('e, 'd) io) \<Rightarrow> ('e, 'd) io" where
  "with_exe not_found find_exe k w =
     (case find_exe w of
        (None, w') \<Rightarrow> (Err not_found, w')
      | (Some x, w') \<Rightarrow> k x w')"

lemma still_tidy: "tidy w \<Longrightarrow> still w w' \<Longrightarrow> tidy w'"
  by (simp add: still_def tidy_onward)

lemma still_restored: "still w v \<Longrightarrow> restored v w' \<Longrightarrow> restored w w'"
  by (simp add: still_def restored_def live_def removable_def onward_def)

lemma still_holds: "still w v \<Longrightarrow> holds d p v w' \<Longrightarrow> holds d p w w'"
  by (auto simp: still_def holds_def onward_def intro: le_trans)

lemma still_acquired: "still w v \<Longrightarrow> acquired dir_of child_of v out \<Longrightarrow> acquired dir_of child_of w out"
  by (cases out; cases "fst out") (auto simp: acquired_def still_holds still_restored)

lemma acquires_launch:
  assumes "\<And>d. io_rel (inside d) (configure d)" and "\<And>d w w'. configure d w \<noteq> (Panic, w')"
    and "\<And>d c p. dir_of (handle d c p) = d" and "\<And>d c p. child_of (handle d c p) = p"
  shows "acquires dir_of child_of (launch te se x configure as vs handle)"
  unfolding acquires_def
proof (intro allI impI)
  fix w assume tidy: "tidy w"
  obtain r w' where m: "launch te se x configure as vs handle w = (r, w')"
    by (cases "launch te se x configure as vs handle w")
  show "acquired dir_of child_of w (launch te se x configure as vs handle w)"
  proof (cases r)
    case (Ok s)
    with m have "launch te se x configure as vs handle w = (Ok s, w')" by simp
    from launch_Ok [OF tidy assms(1) this] assms(3,4) have "holds (dir_of s) (child_of s) w w'" by metis
    with m Ok show ?thesis by (simp add: acquired_def)
  next
    case (Err e)
    with m launch_Err [OF tidy assms(1) m] show ?thesis by (simp add: acquired_def)
  next
    case Panic
    with m show ?thesis
      using launch_no_Panic [of configure te se x as vs handle w w', OF assms(2)] by simp
  qed
qed

lemma acquires_with_exe:
  assumes "\<And>w. still w (snd (find_exe w))" and "\<And>x. acquires dir_of child_of (k x)"
  shows "acquires dir_of child_of (with_exe nf find_exe k)"
  unfolding acquires_def
proof (intro allI impI)
  fix w assume tidy: "tidy w"
  obtain e v where f: "find_exe w = (e, v)" by (cases "find_exe w")
  then have st: "still w v" using assms(1) [of w] by simp
  show "acquired dir_of child_of w (with_exe nf find_exe k w)"
  proof (cases e)
    case None
    with f st show ?thesis by (simp add: acquired_def with_exe_def still_def restored_def live_def)
  next
    case (Some x)
    have "acquired dir_of child_of v (k x v)"
      using assms(2) still_tidy [OF tidy st] by (simp add: acquires_def)
    with still_acquired [OF st] f Some show ?thesis by (simp add: with_exe_def)
  qed
qed

lemma prepared_Ok:
  assumes "tidy w" and "\<And>d. io_rel (inside d) (configure d)"
    and "with_exe nf (\<lambda>w. (find_exe (host w), w)) (\<lambda>x. launch te se x configure as vs handle) w = (Ok s, w')"
  obtains x d c p w1 w2 where "find_exe (host w) = Some x" "s = handle d c p" "holds d p w w'"
    "configure d w1 = (Ok c, w2)" "files w' = files w2"
    "procs w' = \<lparr>pid = p, exe = x, cmd_args = as d c, cmd_env = vs d c, alive = True\<rparr> # procs w"
proof -
  from assms(3) obtain x where x: "find_exe (host w) = Some x"
    and l: "launch te se x configure as vs handle w = (Ok s, w')"
    by (auto simp: with_exe_def split: option.splits)
  from launch_Ok [OF assms(1,2) l] that [OF x] show ?thesis by metis
qed

lemma quiet_launch:
  assumes "find_exe (host w) = Some x" and "\<And>n. failure (host w) n = None" and "\<And>n. latency (host w) n = 0"
    and "\<And>d w. (\<And>n. failure (host w) n = None) \<Longrightarrow> (\<And>n. latency (host w) n = 0) \<Longrightarrow>
      \<exists>c w'. configure d w = (Ok c, w') \<and> host w' = host w \<and> clock w' = clock w"
  shows "\<exists>d c p w'. with_exe nf (\<lambda>w. (find_exe (host w), w)) (\<lambda>x. launch te se x configure as vs handle) w =
      (Ok (handle d c p), w') \<and> host w' = host w \<and> is_alive p w' \<and> clock w' = clock w"
proof -
  let ?d = "tempdir_given (host w) (calls w)" and ?w = "(syscall w)\<lparr>dirs := tempdir_given (host w) (calls w) # dirs w\<rparr>"
  have "\<exists>c w'. configure ?d ?w = (Ok c, w') \<and> host w' = host ?w \<and> clock w' = clock ?w"
    by (rule assms(4)) (simp_all add: assms(2,3))
  then obtain c w2 where c: "configure ?d ?w = (Ok c, w2)" "host w2 = host w" "clock w2 = clock w"
    using assms(3) by auto
  then show ?thesis
    using assms(1-3)
    by (intro exI [of _ ?d] exI [of _ c] exI [of _ "calls w2"])
      (simp add: with_exe_def launch_def with_tempdir_def tempdir_def os_call_def Let_def io_bind_def on_error_def
        spawn_def io_return_def is_alive_def)
qed

lemma acquires_bind:
  assumes "\<And>w. still w (snd (m w))" and "\<And>w w'. m w \<noteq> (Panic, w')"
    and "\<And>a. acquires dir_of child_of (f a)"
  shows "acquires dir_of child_of (io_bind m f)"
  unfolding acquires_def
proof (intro allI impI)
  fix w assume tidy: "tidy w"
  obtain r v where m: "m w = (r, v)" by (cases "m w")
  then have st: "still w v" using assms(1) [of w] by simp
  show "acquired dir_of child_of w (io_bind m f w)"
  proof (cases r)
    case (Ok a)
    have "acquired dir_of child_of v (f a v)"
      using assms(3) still_tidy [OF tidy st] by (simp add: acquires_def)
    with still_acquired [OF st] m Ok show ?thesis by (simp add: io_bind_def)
  next
    case (Err e)
    with m st show ?thesis by (simp add: acquired_def io_bind_def still_def restored_def live_def)
  next
    case Panic
    with m assms(2) show ?thesis by blast
  qed
qed

locale spawner =
  fixes prepare :: "('e, 'd) io"
    and wait :: "'d \<Rightarrow> os \<Rightarrow> (('e, unit) result \<times> os) option"
    and dir_of :: "'d \<Rightarrow> path"
    and child_of :: "'d \<Rightarrow> nat"
    and timeout :: nat
  assumes prepare_acquires: "acquires dir_of child_of prepare"
    and wait_returns: "\<exists>r w'. wait s w = Some (r, w') \<and> watches (child_of s) w w' \<and>
      (r = Panic \<longrightarrow> instant_end \<le> clock w + timeout)"
begin

definition build :: "os \<Rightarrow> (('e, 'd) result \<times> os) option" where
  "build = await_ready prepare wait (\<lambda>s. release (dir_of s) (child_of s))"

lemma prepare_Ok: "tidy w \<Longrightarrow> prepare w = (Ok s, w') \<Longrightarrow> holds (dir_of s) (child_of s) w w'"
  and prepare_Err: "tidy w \<Longrightarrow> prepare w = (Err e, w') \<Longrightarrow> restored w w'"
  and prepare_no_Panic: "tidy w \<Longrightarrow> prepare w \<noteq> (Panic, w')"
  using prepare_acquires by (auto simp: acquires_def acquired_def dest!: spec [of _ w])

lemma build_returns:
  assumes "tidy w" "killable w"
  shows "\<exists>r w'. build w = Some (r, w') \<and> (r = Panic \<longrightarrow> instant_end \<le> clock w' + timeout)"
proof -
  obtain r w' where p: "prepare w = (r, w')" by (cases "prepare w")
  show ?thesis
  proof (cases r)
    case (Ok s)
    obtain x v where x: "wait s w' = Some (x, v)" "watches (child_of s) w' v"
      "x = Panic \<longrightarrow> instant_end \<le> clock w' + timeout"
      using wait_returns by blast
    have "host v = host w"
      using watches_host [OF x(2)] prepare_Ok [OF assms(1)] p Ok by (simp add: holds_def onward_def)
    with assms(2) have "killable v" by (simp add: killable_def)
    then obtain u where u: "release (dir_of s) (child_of s) v = Some u" using release_returns by blast
    have "clock w' \<le> clock u"
      using release_onward [OF u] x(2) by (auto simp: watches_def onward_def)
    with p Ok x u show ?thesis by (cases x) (auto simp: build_def await_ready_def)
  qed (use p prepare_no_Panic [OF assms(1)] in \<open>auto simp: build_def await_ready_def\<close>)
qed

lemma build_fails_restores:
  assumes "tidy w" "waitable w" "build w = Some (r, w'')" "\<And>s. r \<noteq> Ok s"
  shows "restored w w''"
proof -
  obtain r' w' where p: "prepare w = (r', w')" by (cases "prepare w")
  show ?thesis
  proof (cases r')
    case (Ok s)
    obtain x v where x: "wait s w' = Some (x, v)" "watches (child_of s) w' v" using wait_returns by blast
    with p Ok assms(3,4) have "release (dir_of s) (child_of s) v = Some w''"
      by (cases x) (auto simp: build_def await_ready_def)
    with holds_release [OF assms(1,2) prepare_Ok [OF assms(1)] x(2)] p Ok show ?thesis by simp
  qed (use p prepare_Err [OF assms(1)] prepare_no_Panic [OF assms(1)] assms(3) in \<open>auto simp: build_def await_ready_def\<close>)
qed

lemma build_Ok_cases:
  assumes "build w = Some (Ok s, w'')"
  obtains w' where "prepare w = (Ok s, w')" "wait s w' = Some (Ok (), w'')" "watches (child_of s) w' w''"
proof -
  obtain r w' where p: "prepare w = (r, w')" by (cases "prepare w")
  obtain s' where r: "r = Ok s'"
    using assms p by (cases r) (simp_all add: build_def await_ready_def)
  obtain x v where x: "wait s' w' = Some (x, v)" "watches (child_of s') w' v"
    using wait_returns by blast
  with assms p r have "s' = s" "x = Ok ()" "v = w''"
    by (cases x; auto simp: build_def await_ready_def)+
  with p r x that show ?thesis by simp
qed

lemma build_Ok_drop_restores:
  assumes "tidy w" "killable w" "waitable w" "build w = Some (Ok s, w')" "watches (child_of s) w' w''"
  shows "\<exists>u. release (dir_of s) (child_of s) w'' = Some u \<and> restored w u"
proof -
  from assms(4) obtain v where v: "prepare w = (Ok s, v)" "watches (child_of s) v w'"
    by (rule build_Ok_cases)
  have "host w'' = host w"
    using watches_host [OF v(2)] watches_host [OF assms(5)] prepare_Ok [OF assms(1) v(1)]
    by (simp add: holds_def onward_def)
  with assms(2) have "killable w''" by (simp add: killable_def)
  then obtain u where u: "release (dir_of s) (child_of s) w'' = Some u" using release_returns by blast
  with holds_release [OF assms(1,3) prepare_Ok [OF assms(1) v(1)] watches_trans [OF v(2) assms(5)]]
  show ?thesis by blast
qed

lemma build_leaves:
  assumes "tidy w" "killable w" "waitable w" "build w = Some (r, w')"
  shows "case r of
      Ok s \<Rightarrow> (\<forall>v. watches (child_of s) w' v \<longrightarrow>
        (\<exists>u. release (dir_of s) (child_of s) v = Some u \<and> restored w u))
    | _ \<Rightarrow> restored w w'"
  using assms(4) build_Ok_drop_restores [OF assms(1-3)] build_fails_restores [OF assms(1,3)]
  by (cases r) auto

end

text \<open>
  Temporary directories are never nested. Then the promise \<open>tidy\<close> outlives every spawner.
\<close>

definition apart :: "host \<Rightarrow> bool" where
  "apart h = (\<forall>m n. under (tempdir_given h m) (tempdir_given h n) \<longrightarrow> m = n)"

lemma under_comparable: "under a p \<Longrightarrow> under b p \<Longrightarrow> under a b \<or> under b a"
  by (auto simp: under_def dest: prefix_same_cases)

lemma tidy_holds:
  assumes tidy: "tidy w" and "apart (host w)" and holds: "holds d p w w'" and watch: "watches p w' w''"
  shows "tidy w''"
proof -
  from holds obtain k q where k: "k < calls w'" "d = tempdir_given (host w) k"
    and q: "procs w' = q # procs w" "pid q = p" "p < calls w'"
    and on: "onward w w'" by (auto simp: holds_def)
  have h: "host w'' = host w" "calls w' \<le> calls w''" "files w'' = files w'" "dirs w'' = dirs w'"
    using on watch by (auto simp: watches_def onward_def)
  have "map pid (procs (mark_dead p w')) = map pid (procs w')"
    by (simp add: mark_dead_def)
  then have pids: "pid ` set (procs w'') = pid ` set (procs w')"
    using watch unfolding watches_def by (metis set_map)
  have "\<forall>n \<in> pid ` set (procs w'). n < calls w''"
    using q h tidy on by (auto simp: tidy_def onward_def)
  then have "\<forall>r \<in> set (procs w''). pid r < calls w''"
    unfolding pids [symmetric] by simp
  moreover have "\<not> under (tempdir_given (host w) n) f"
    if n: "calls w'' \<le> n" and f: "f \<in> fst ` set (files w'') \<or> f \<in> set (dirs w'')" for n f
  proof (cases "under d f")
    case True
    with under_comparable assms(2) k h n show ?thesis
      unfolding apart_def by (metis less_le_trans not_le order_less_irrefl)
  next
    case False
    have "set (files w) = {g \<in> set (files w'). \<not> under d (fst g)}" "set (dirs w) = {g \<in> set (dirs w'). \<not> under d g}"
      using holds by (simp_all add: holds_def dm_retain_def case_prod_beta' flip: set_filter)
    with f h False have "f \<in> fst ` set (files w) \<or> f \<in> set (dirs w)" by auto
    moreover have "calls w \<le> n" using on h n by (auto simp: onward_def)
    ultimately show ?thesis using tidy by (auto simp: tidy_def)
  qed
  ultimately show ?thesis by (auto simp: tidy_def h)
qed

text \<open>A host on which every call succeeds at once, for concrete runs.\<close>

definition quiet_host :: host where
  "quiet_host =
     \<lparr>env_var = (\<lambda>_. None), is_file = (\<lambda>_. False), latency = (\<lambda>_. 0), failure = (\<lambda>_. None),
      port_given = (\<lambda>n. of_nat (20000 + n)), tempdir_given = (\<lambda>n. \<lparr>absolute = True, comps = [''tmp'', digits n]\<rparr>),
      child_exits = (\<lambda>_. False), wait_fails = (\<lambda>_. False), kill_fails = (\<lambda>_. False),
      removal_keeps = (\<lambda>_ _. False), accepts = (\<lambda>_ _. True), connect_time = (\<lambda>_. 0)\<rparr>"

definition start_os :: "host \<Rightarrow> os" where
  "start_os h = \<lparr>host = h, clock = 0, calls = 0, procs = [], files = dm_empty, dirs = [], p2poolv2_cache = None\<rparr>"

lemma start_os_simps [simp]:
  "host (start_os h) = h" "calls (start_os h) = 0" "procs (start_os h) = []" "files (start_os h) = dm_empty"
  "dirs (start_os h) = []" "clock (start_os h) = 0" "p2poolv2_cache (start_os h) = None"
  by (simp_all add: start_os_def)

lemma start_os_tidy [simp]: "tidy (start_os h)"
  by (simp add: tidy_def dm_empty_def)

lemma quiet_host_simps [simp]:
  "latency quiet_host n = 0" "failure quiet_host n = None" "wait_fails quiet_host n = False"
  "kill_fails quiet_host n = False" "removal_keeps quiet_host n q = False"
  "child_exits quiet_host n = False" "accepts quiet_host n p = True" "connect_time quiet_host n = 0"
  "env_var quiet_host v = None" "port_given quiet_host n = of_nat (20000 + n)"
  "tempdir_given quiet_host n = \<lparr>absolute = True, comps = [''tmp'', digits n]\<rparr>"
  by (simp_all add: quiet_host_def)

lemma killable_quiet [simp]: "killable (start_os quiet_host)" "waitable (start_os quiet_host)"
  by (simp_all add: killable_def waitable_def)

lemma apart_quiet: "apart quiet_host"
  by (simp add: apart_def under_def)

lemma quiet_probe_port:
  "host w = quiet_host \<Longrightarrow> is_alive child w \<Longrightarrow>
     \<exists>v. ready_probe e (port_up p) child w = (Some (Ok ()), v) \<and> host v = quiet_host \<and> clock v = clock w"
  by (simp add: ready_probe_def try_wait_def port_up_def connect_timeout_def)

lemma quiet_probe_both:
  "host w = quiet_host \<Longrightarrow> is_alive child w \<Longrightarrow>
     \<exists>v. ready_probe e (both_up p q) child w = (Some (Ok ()), v) \<and> host v = quiet_host \<and> clock v = clock w"
  by (simp add: ready_probe_def try_wait_def both_up_def connect_timeout_def Let_def)

lemma ready_loop_hit:
  "ready_probe e up child w = (Some r, v) \<Longrightarrow> clock w + timeout < instant_end \<Longrightarrow>
     ready_loop e t up gap child timeout w = Some (r, v)"
  by (simp add: ready_loop_def deadline_after_def poll_loop_hit)

lemma ready_loop_overflow:
  "instant_end \<le> clock w + timeout \<Longrightarrow> ready_loop e t up gap child timeout w = Some (Panic, w)"
  by (simp add: ready_loop_def deadline_after_def)

end
