(* ===== verification/Testenv_Toml.thy ===== *)
theory Testenv_Toml
  imports Text_Utils
begin

text \<open>
  The configuration files the spawners of \<open>crates/sv2-p2pool-testenv/src/\<close> write. The sources fill
  raw string templates; here a template is the list of its lines, and \<open>render\<close> gives the text. A
  reference reader for the lines that occur (tables, arrays of tables, basic strings without
  escapes, bare values) says what a TOML reader finds in a rendered file.
\<close>

datatype toml_item =
    Blank
  | Table string
  | ArrayTable string
  | Str string string
  | Raw string string

abbreviation quote :: char where
  "quote \<equiv> CHR 0x22"

fun render_item :: "toml_item \<Rightarrow> string" where
  "render_item Blank = []"
| "render_item (Table t) = ''['' @ t @ '']''"
| "render_item (ArrayTable t) = ''[['' @ t @ '']]''"
| "render_item (Str k v) = k @ '' = '' @ quote # v @ [quote]"
| "render_item (Raw k v) = k @ '' = '' @ v"

definition render :: "toml_item list \<Rightarrow> string" where
  "render items = unlines (map render_item items)"

section \<open>The reference reader\<close>

definition is_bare :: "char \<Rightarrow> bool" where
  "is_bare c = (let n = (of_char c :: nat) in
     (48 \<le> n \<and> n \<le> 57) \<or> (65 \<le> n \<and> n \<le> 90) \<or> (97 \<le> n \<and> n \<le> 122) \<or> n = 95 \<or> n = 45)"

definition bare_key :: "string \<Rightarrow> bool" where
  "bare_key k = (k \<noteq> [] \<and> list_all is_bare k)"

definition table_name :: "string \<Rightarrow> bool" where
  "table_name t = (t \<noteq> [] \<and> list_all (\<lambda>c. is_bare c \<or> c = CHR ''.'') t)"

definition plain :: "string \<Rightarrow> bool" where
  "plain v = list_all (\<lambda>c. c \<noteq> quote \<and> c \<noteq> CHR 0x5C \<and> c \<noteq> nl \<and> c \<noteq> cr) v"

definition parse_value :: "string \<Rightarrow> string \<Rightarrow> toml_item option" where
  "parse_value k v =
     (if v = [] then None
      else if hd v = quote
      then (if 2 \<le> length v \<and> last v = quote \<and> plain (butlast (tl v)) then Some (Str k (butlast (tl v))) else None)
      else Some (Raw k v))"

definition parse_line :: "string \<Rightarrow> toml_item option" where
  "parse_line l =
     (if l = [] then Some Blank
      else if prefix ''[['' l
      then (let t = butlast (butlast (drop 2 l)) in if table_name t \<and> l = ''[['' @ t @ '']]'' then Some (ArrayTable t) else None)
      else if prefix ''['' l
      then (let t = butlast (drop 1 l) in if table_name t \<and> l = ''['' @ t @ '']'' then Some (Table t) else None)
      else case split_once '' = '' l of
             None \<Rightarrow> None
           | Some (k, v) \<Rightarrow> if bare_key k then parse_value k v else None)"

fun all_some :: "'a option list \<Rightarrow> 'a list option" where
  "all_some [] = Some []"
| "all_some (None # xs) = None"
| "all_some (Some x # xs) = map_option (Cons x) (all_some xs)"

definition parse_toml :: "string \<Rightarrow> toml_item list option" where
  "parse_toml s = all_some (map parse_line (str_lines s))"

text \<open>The value of a key in a table; the table before the first header has the empty name.\<close>

fun toml_get :: "string \<Rightarrow> toml_item list \<Rightarrow> string \<Rightarrow> string \<Rightarrow> string option" where
  "toml_get cur [] t k = None"
| "toml_get cur (Blank # is) t k = toml_get cur is t k"
| "toml_get cur (Table u # is) t k = toml_get u is t k"
| "toml_get cur (ArrayTable u # is) t k = toml_get u is t k"
| "toml_get cur (Str a v # is) t k = (if cur = t \<and> a = k then Some v else toml_get cur is t k)"
| "toml_get cur (Raw a v # is) t k = (if cur = t \<and> a = k then Some v else toml_get cur is t k)"

definition config_value :: "string \<Rightarrow> string \<Rightarrow> string \<Rightarrow> string option" where
  "config_value txt t k = Option.bind (parse_toml txt) (\<lambda>is. toml_get [] is t k)"

section \<open>Rendered items are read back\<close>

fun wf_item :: "toml_item \<Rightarrow> bool" where
  "wf_item Blank = True"
| "wf_item (Table t) = table_name t"
| "wf_item (ArrayTable t) = table_name t"
| "wf_item (Str k v) = (bare_key k \<and> plain v)"
| "wf_item (Raw k v) = (bare_key k \<and> plain v \<and> v \<noteq> [])"

lemma bare_no_special: "is_bare c \<Longrightarrow> c \<noteq> CHR '' '' \<and> c \<noteq> CHR ''['' \<and> c \<noteq> nl \<and> c \<noteq> cr"
  by (auto simp: is_bare_def)

lemma bare_key_no_space: "bare_key k \<Longrightarrow> CHR '' '' \<notin> set k"
  using bare_no_special by (auto simp: bare_key_def list_all_iff)

lemma split_key: "bare_key k \<Longrightarrow> split_once '' = '' (k @ '' = '' @ v) = Some (k, v)"
  using split_once_hd [of "'' = ''" k v] bare_key_no_space by simp

lemma parse_line_key:
  assumes "bare_key k"
  shows "parse_line (k @ '' = '' @ v) = parse_value k v"
proof -
  obtain c k' where k: "k = c # k'" and "is_bare c"
    using assms by (cases k) (auto simp: bare_key_def)
  then have "c \<noteq> CHR ''[''" using bare_no_special by blast
  then have "\<not> prefix ''['' (k @ '' = '' @ v)" "\<not> prefix ''[['' (k @ '' = '' @ v)"
    by (simp_all add: k)
  with split_key [OF assms, of v] assms k show ?thesis
    by (simp only: parse_line_def if_False option.case prod.case append_is_Nil_conv list.distinct simp_thms if_True)
qed

lemma table_name_no_bracket: "table_name t \<Longrightarrow> hd t \<noteq> CHR ''[''"
  using bare_no_special by (cases t) (auto simp: table_name_def)

lemma parse_line_render: "wf_item i \<Longrightarrow> parse_line (render_item i) = Some i"
proof (cases i)
  case (Table t)
  assume "wf_item i"
  with Table have t: "table_name t" by simp
  then have "\<not> prefix ''[['' (render_item i)"
    using table_name_no_bracket [OF t] Table by (cases t) (auto simp: table_name_def)
  with t Table show ?thesis by (simp add: parse_line_def)
next
  case (ArrayTable t)
  assume "wf_item i"
  with ArrayTable show ?thesis by (simp add: parse_line_def butlast_append)
next
  case (Str k v)
  assume "wf_item i"
  with Str show ?thesis
    using parse_line_key [of k "quote # v @ [quote]"] by (simp add: parse_value_def)
next
  case (Raw k v)
  assume "wf_item i"
  with Raw have "bare_key k" "v \<noteq> []" "hd v \<noteq> quote"
    by (auto simp: plain_def neq_Nil_conv)
  with Raw show ?thesis
    using parse_line_key [of k v] by (simp add: parse_value_def)
qed (simp add: parse_line_def)

lemma table_chars: "table_name t \<Longrightarrow> nl \<notin> set t \<and> cr \<notin> set t"
  by (auto simp: table_name_def list_all_iff is_bare_def)

lemma key_chars: "bare_key k \<Longrightarrow> nl \<notin> set k \<and> cr \<notin> set k"
  by (auto simp: bare_key_def list_all_iff is_bare_def)

lemma plain_chars: "plain v \<Longrightarrow> nl \<notin> set v \<and> cr \<notin> set v"
  by (auto simp: plain_def list_all_iff)

lemma render_item_one_line: "wf_item i \<Longrightarrow> nl \<notin> set (render_item i) \<and> cr \<notin> set (render_item i)"
  using table_chars key_chars plain_chars by (cases i) auto

lemma all_some_map: "(\<And>x. x \<in> set xs \<Longrightarrow> f (g x) = Some x) \<Longrightarrow> all_some (map (f \<circ> g) xs) = Some xs"
  by (induction xs) auto

lemma parse_render:
  assumes "list_all wf_item items"
  shows "parse_toml (render items) = Some items"
proof -
  have "str_lines (render items) = map render_item items"
    unfolding render_def using assms render_item_one_line
    by (intro str_lines_unlines) (auto simp: list_all_iff)
  moreover have "all_some (map (parse_line \<circ> render_item) items) = Some items"
    using assms parse_line_render by (intro all_some_map) (auto simp: list_all_iff)
  ultimately show ?thesis by (simp add: parse_toml_def)
qed

lemma config_value_render:
  "list_all wf_item items \<Longrightarrow> config_value (render items) t k = toml_get [] items t k"
  by (simp add: config_value_def parse_render)

lemma plain_append [simp]: "plain (a @ b) \<longleftrightarrow> plain a \<and> plain b"
  by (simp add: plain_def)

lemma plain_digits [simp]: "plain (digits n)"
proof -
  have "is_digit c \<Longrightarrow> c \<noteq> quote \<and> c \<noteq> CHR 0x5C \<and> c \<noteq> nl \<and> c \<noteq> cr" for c
    by (auto simp: is_digit_def)
  then show ?thesis
    using digits_are_digits [of n] by (auto simp: plain_def list_all_iff)
qed

lemma plain_sep_join: "plain (sep_join ''/'' ws) \<longleftrightarrow> (\<forall>w \<in> set ws. plain w)"
proof (induction "''/''" ws rule: sep_join.induct)
  case 1
  show ?case by (simp add: plain_def)
next
  case (2 w)
  show ?case by simp
next
  case (3 w v ws)
  then show ?case by (auto simp: plain_def)
qed

lemma plain_join: "plain (path_display d) \<Longrightarrow> plain n \<Longrightarrow> plain (path_display (path_join d n))"
  by (auto simp: path_display_def path_join_def plain_sep_join)

end
