(* ===== verification/Testenv_P2pool.thy ===== *)
theory Testenv_P2pool
  imports Testenv_Process Testenv_Toml Bitcoin_Types
begin

text \<open>
  \<open>crates/sv2-p2pool-testenv/src/p2poolv2d.rs\<close>: the spawner of the \<open>p2poolv2\<close> node. The handle of
  the running \<open>bitcoind\<close> (crate \<open>corepc-node\<close>) is a parameter: its RPC URL and the answer of its
  cookie lookup.
\<close>

record bitcoind =
  rpc_url :: string
  cookie_values :: "string + (string \<times> string) option"

type_synonym p2poolv2_error = spawn_error

record p2poolv2d =
  pv_child :: nat
  pv_tempdir :: path
  pv_config_path :: path
  pv_api_addr :: sock_addr
  pv_stratum_addr :: sock_addr
  pv_libp2p_port :: u16

record p2poolv2d_builder =
  pvb_bitcoind :: bitcoind
  pvb_exe :: "path option"
  pvb_ready_timeout :: nat
  pvb_network :: network

definition default_ready_timeout :: nat where
  "default_ready_timeout = 5000"

definition p2poolv2_new :: "bitcoind \<Rightarrow> p2poolv2d_builder" where
  "p2poolv2_new b = \<lparr>pvb_bitcoind = b, pvb_exe = None, pvb_ready_timeout = default_ready_timeout, pvb_network = Testnet4\<rparr>"

definition p2poolv2_with_exe :: "path \<Rightarrow> p2poolv2d_builder \<Rightarrow> p2poolv2d_builder" where
  "p2poolv2_with_exe p b = b\<lparr>pvb_exe := Some p\<rparr>"

definition p2poolv2_with_ready_timeout :: "nat \<Rightarrow> p2poolv2d_builder \<Rightarrow> p2poolv2d_builder" where
  "p2poolv2_with_ready_timeout t b = b\<lparr>pvb_ready_timeout := t\<rparr>"

definition p2poolv2_with_network :: "network \<Rightarrow> p2poolv2d_builder \<Rightarrow> p2poolv2d_builder" where
  "p2poolv2_with_network n b = b\<lparr>pvb_network := n\<rparr>"

definition find_p2poolv2_on_path :: "os \<Rightarrow> path option \<times> os" where
  "find_p2poolv2_on_path w =
     (case p2poolv2_cache w of
        Some r \<Rightarrow> (r, w)
      | None \<Rightarrow> let r = which_compat (host w) ''p2poolv2'' in (r, w\<lparr>p2poolv2_cache := Some r\<rparr>))"

definition p2poolv2_allocate_free_port :: "(p2poolv2_error, u16) io" where
  "p2poolv2_allocate_free_port = allocate_port PortAllocation"

fun p2poolv2_network_to_name :: "network \<Rightarrow> string" where
  "p2poolv2_network_to_name Bitcoin = ''main''"
| "p2poolv2_network_to_name Testnet = ''testnet''"
| "p2poolv2_network_to_name Testnet4 = ''testnet4''"
| "p2poolv2_network_to_name Signet = ''signet''"
| "p2poolv2_network_to_name Regtest = ''regtest''"

fun p2poolv2_address_for_network :: "network \<Rightarrow> string" where
  "p2poolv2_address_for_network Bitcoin = ''bc1qar0srrr7xfkvy5l643lydnw9re59gtzzwf5mdq''"
| "p2poolv2_address_for_network Testnet = ''tb1qyazxde6558qj6z3d9np5e6msmrspwpf6k0qggk''"
| "p2poolv2_address_for_network Testnet4 = ''tb1qyazxde6558qj6z3d9np5e6msmrspwpf6k0qggk''"
| "p2poolv2_address_for_network Signet = ''tb1qyazxde6558qj6z3d9np5e6msmrspwpf6k0qggk''"
| "p2poolv2_address_for_network Regtest = ''bcrt1qx2nf3uvxq6h2vksjwgdvnwhvexmkqwqx0vexap''"

definition bitcoind_credentials :: "bitcoind \<Rightarrow> string \<times> string" where
  "bitcoind_credentials b =
     (case cookie_values b of
        Inr (Some c) \<Rightarrow> c
      | _ \<Rightarrow> (''user'', ''pass''))"

text \<open>The share-chain configuration; the two spawners that write it differ in the values only.\<close>

record share_chain_conf =
  sc_libp2p :: u16
  sc_store :: path
  sc_stratum :: u16
  sc_start_difficulty :: nat
  sc_minimum_difficulty :: nat
  sc_addr :: string
  sc_zmq :: u16
  sc_network :: string
  sc_signature :: string
  sc_rpc_url :: string
  sc_credentials :: "string \<times> string"
  sc_stats :: path
  sc_api :: u16

definition share_chain_toml :: "share_chain_conf \<Rightarrow> toml_item list" where
  "share_chain_toml c =
     [Blank,
      Table ''network'',
      Str ''listen_address'' (''/ip4/127.0.0.1/tcp/'' @ show_port (sc_libp2p c)),
      Raw ''dial_peers'' ''[]'',
      Raw ''max_pending_incoming'' ''10'',
      Raw ''max_pending_outgoing'' ''10'',
      Raw ''max_established_incoming'' ''50'',
      Raw ''max_established_outgoing'' ''50'',
      Raw ''max_established_per_peer'' ''1'',
      Raw ''max_workbase_per_second'' ''10'',
      Raw ''max_userworkbase_per_second'' ''10'',
      Raw ''max_miningshare_per_second'' ''100'',
      Raw ''max_inventory_per_second'' ''100'',
      Raw ''max_transaction_per_second'' ''100'',
      Raw ''max_requests_per_second'' ''100'',
      Raw ''dial_timeout_secs'' ''30'',
      Blank,
      Table ''store'',
      Str ''path'' (path_display (sc_store c)),
      Raw ''background_task_frequency_hours'' ''24'',
      Raw ''pplns_ttl_days'' ''7'',
      Blank,
      Table ''stratum'',
      Str ''hostname'' ''127.0.0.1'',
      Raw ''port'' (show_port (sc_stratum c)),
      Raw ''start_difficulty'' (digits (sc_start_difficulty c)),
      Raw ''minimum_difficulty'' (digits (sc_minimum_difficulty c)),
      Str ''solo_address'' (sc_addr c),
      Str ''bootstrap_address'' (sc_addr c),
      Str ''zmqpubhashblock'' (''tcp://127.0.0.1:'' @ show_port (sc_zmq c)),
      Str ''network'' (sc_network c),
      Str ''version_mask'' ''1fffe000'',
      Raw ''difficulty_multiplier'' ''1.0'',
      Str ''pool_signature'' (sc_signature c),
      Blank,
      Table ''bitcoinrpc'',
      Str ''url'' (sc_rpc_url c),
      Str ''username'' (fst (sc_credentials c)),
      Str ''password'' (snd (sc_credentials c)),
      Blank,
      Table ''logging'',
      Raw ''console'' ''true'',
      Str ''level'' ''info'',
      Str ''stats_dir'' (path_display (sc_stats c)),
      Blank,
      Table ''api'',
      Str ''hostname'' ''127.0.0.1'',
      Raw ''port'' (show_port (sc_api c))]"

definition p2poolv2_conf :: "p2poolv2d_builder \<Rightarrow> path \<Rightarrow> u16 \<Rightarrow> u16 \<Rightarrow> u16 \<Rightarrow> u16 \<Rightarrow> share_chain_conf" where
  "p2poolv2_conf b d libp2p stratum zmq api =
     \<lparr>sc_libp2p = libp2p, sc_store = path_join d ''store.db'', sc_stratum = stratum,
      sc_start_difficulty = 10000, sc_minimum_difficulty = 100,
      sc_addr = p2poolv2_address_for_network (pvb_network b), sc_zmq = zmq,
      sc_network = p2poolv2_network_to_name (pvb_network b), sc_signature = ''sv2-p2pool-testenv'',
      sc_rpc_url = rpc_url (pvb_bitcoind b), sc_credentials = bitcoind_credentials (pvb_bitcoind b),
      sc_stats = path_join d ''stats'', sc_api = api\<rparr>"

definition p2poolv2_configure :: "p2poolv2d_builder \<Rightarrow> path \<Rightarrow> (p2poolv2_error, share_chain_conf) io" where
  "p2poolv2_configure b d =
     io_bind (create_dir_all WriteConfig (path_join d ''stats'')) (\<lambda>_.
     io_bind p2poolv2_allocate_free_port (\<lambda>libp2p.
     io_bind p2poolv2_allocate_free_port (\<lambda>stratum.
     io_bind p2poolv2_allocate_free_port (\<lambda>zmq.
     io_bind p2poolv2_allocate_free_port (\<lambda>api.
     let c = p2poolv2_conf b d libp2p stratum zmq api in
     io_bind (write_file WriteConfig (path_join d ''p2pool.toml'') (render (share_chain_toml c))) (\<lambda>_.
     io_return c))))))"

definition p2poolv2_handle :: "path \<Rightarrow> share_chain_conf \<Rightarrow> nat \<Rightarrow> p2poolv2d" where
  "p2poolv2_handle d c child =
     \<lparr>pv_child = child, pv_tempdir = d, pv_config_path = path_join d ''p2pool.toml'',
      pv_api_addr = localhost (sc_api c), pv_stratum_addr = localhost (sc_stratum c),
      pv_libp2p_port = sc_libp2p c\<rparr>"

definition p2poolv2_find_exe :: "p2poolv2d_builder \<Rightarrow> os \<Rightarrow> path option \<times> os" where
  "p2poolv2_find_exe b w =
     (case or_else (pvb_exe b) (map_option path_of (env_var (host w) ''P2POOLV2_EXE'')) of
        Some x \<Rightarrow> (Some x, w)
      | None \<Rightarrow> find_p2poolv2_on_path w)"

definition p2poolv2_prepare :: "p2poolv2d_builder \<Rightarrow> (p2poolv2_error, p2poolv2d) io" where
  "p2poolv2_prepare b =
     with_exe BinaryNotFound (p2poolv2_find_exe b) (\<lambda>x.
       launch Tempdir Spawn x (p2poolv2_configure b)
         (\<lambda>d c. [''-c'', path_display (path_join d ''p2pool.toml'')]) (\<lambda>d c. []) p2poolv2_handle)"

definition p2poolv2_wait_for_ready :: "p2poolv2d \<Rightarrow> nat \<Rightarrow> os \<Rightarrow> ((p2poolv2_error, unit) result \<times> os) option" where
  "p2poolv2_wait_for_ready s timeout =
     ready_loop ExitedDuringStartup ReadinessTimeout (port_up (snd (pv_api_addr s))) 50 (pv_child s) timeout"

definition p2poolv2_drop :: "p2poolv2d \<Rightarrow> os \<Rightarrow> os option" where
  "p2poolv2_drop s = release (pv_tempdir s) (pv_child s)"

definition p2poolv2_build :: "p2poolv2d_builder \<Rightarrow> os \<Rightarrow> ((p2poolv2_error, p2poolv2d) result \<times> os) option" where
  "p2poolv2_build b =
     await_ready (p2poolv2_prepare b) (\<lambda>s. p2poolv2_wait_for_ready s (pvb_ready_timeout b)) p2poolv2_drop"

section \<open>Lemmas\<close>

lemma p2poolv2_configure_inside: "io_rel (inside d) (p2poolv2_configure b d)"
  unfolding p2poolv2_configure_def p2poolv2_allocate_free_port_def Let_def by (intro inside_intros)

lemma p2poolv2_configure_no_Panic: "p2poolv2_configure b d w \<noteq> (Panic, w')"
  unfolding p2poolv2_configure_def p2poolv2_allocate_free_port_def Let_def
  by (intro io_bind_no_Panic) simp_all

lemma p2poolv2_find_still: "still w (snd (p2poolv2_find_exe b w))"
  by (auto simp: p2poolv2_find_exe_def find_p2poolv2_on_path_def still_def onward_def Let_def
      split: option.splits)

lemma p2poolv2_prepare_acquires: "acquires pv_tempdir pv_child (p2poolv2_prepare b)"
  unfolding p2poolv2_prepare_def
  by (intro acquires_with_exe acquires_launch p2poolv2_find_still p2poolv2_configure_inside
      p2poolv2_configure_no_Panic) (simp_all add: p2poolv2_handle_def)

interpretation pv: spawner "p2poolv2_prepare b" "\<lambda>s. p2poolv2_wait_for_ready s (pvb_ready_timeout b)"
    pv_tempdir pv_child "pvb_ready_timeout b" for b
proof
  show "acquires pv_tempdir pv_child (p2poolv2_prepare b)" by (rule p2poolv2_prepare_acquires)
  fix s w
  show "\<exists>r w'. p2poolv2_wait_for_ready s (pvb_ready_timeout b) w = Some (r, w') \<and> watches (pv_child s) w w' \<and>
      (r = Panic \<longrightarrow> instant_end \<le> clock w + pvb_ready_timeout b)"
    unfolding p2poolv2_wait_for_ready_def by (rule port50.ready_total)
qed

lemma p2poolv2_build_is: "p2poolv2_build b = pv.build b"
  unfolding p2poolv2_build_def pv.build_def p2poolv2_drop_def ..

text \<open>What a reader finds in the share-chain configuration.\<close>

definition plain_conf :: "share_chain_conf \<Rightarrow> bool" where
  "plain_conf c =
     (plain (path_display (sc_store c)) \<and> plain (sc_addr c) \<and> plain (sc_network c) \<and>
      plain (sc_signature c) \<and> plain (sc_rpc_url c) \<and> plain (fst (sc_credentials c)) \<and>
      plain (snd (sc_credentials c)) \<and> plain (path_display (sc_stats c)))"

lemma plain_literal_simps: "plain [] = True"
  "plain (c # cs) = (c \<noteq> quote \<and> c \<noteq> CHR 0x5C \<and> c \<noteq> nl \<and> c \<noteq> cr \<and> plain cs)"
  by (simp_all add: plain_def)

lemmas toml_wf_simps = bare_key_def table_name_def is_bare_def plain_literal_simps show_port_def

lemma share_chain_wf: "plain_conf c \<Longrightarrow> list_all wf_item (share_chain_toml c)"
  by (simp add: share_chain_toml_def plain_conf_def toml_wf_simps)

lemma share_chain_values:
  "toml_get [] (share_chain_toml c) ''network'' ''listen_address'' = Some (''/ip4/127.0.0.1/tcp/'' @ show_port (sc_libp2p c))"
  "toml_get [] (share_chain_toml c) ''store'' ''path'' = Some (path_display (sc_store c))"
  "toml_get [] (share_chain_toml c) ''stratum'' ''port'' = Some (show_port (sc_stratum c))"
  "toml_get [] (share_chain_toml c) ''stratum'' ''start_difficulty'' = Some (digits (sc_start_difficulty c))"
  "toml_get [] (share_chain_toml c) ''stratum'' ''minimum_difficulty'' = Some (digits (sc_minimum_difficulty c))"
  "toml_get [] (share_chain_toml c) ''stratum'' ''network'' = Some (sc_network c)"
  "toml_get [] (share_chain_toml c) ''bitcoinrpc'' ''url'' = Some (sc_rpc_url c)"
  "toml_get [] (share_chain_toml c) ''bitcoinrpc'' ''username'' = Some (fst (sc_credentials c))"
  "toml_get [] (share_chain_toml c) ''bitcoinrpc'' ''password'' = Some (snd (sc_credentials c))"
  "toml_get [] (share_chain_toml c) ''api'' ''port'' = Some (show_port (sc_api c))"
  by (simp_all add: share_chain_toml_def)

end
