(* ===== verification/Testenv_Sv2.thy ===== *)
theory Testenv_Sv2
  imports Testenv_P2pool
begin

text \<open>
  \<open>crates/sv2-p2pool-testenv/src/sv2_p2pool_d.rs\<close>: the spawner of the \<open>sv2-p2pool\<close> daemon itself,
  which writes two configuration files and waits for two ports. The scraping functions of the
  handle are in \<open>Testenv_Scrape\<close>.
\<close>

type_synonym sv2_error = spawn_error

definition default_sv2_p2pool_ready_timeout :: nat where
  "default_sv2_p2pool_ready_timeout = 10000"

definition test_authority_public_key :: string where
  "test_authority_public_key = ''9auqWEzQDVyd2oe1JVGFLMLHZtCo2FFqZwtKA5gd9xbuEu7PH72''"

definition test_authority_secret_key :: string where
  "test_authority_secret_key = ''mkDLTBBRxdBv998612qipDYoTK3YUrqLe8uWw7gu3iXbSrn2n''"

record sv2_p2pool_d =
  sv_child :: nat
  sv_tempdir :: path
  sv_pool_config_path :: path
  sv_p2pool_config_path :: path
  sv_jds_addr :: sock_addr
  sv_mining_addr :: sock_addr
  sv_metrics_addr :: sock_addr
  sv_monitoring_addr :: sock_addr

record sv2_builder =
  svb_bitcoind :: bitcoind
  svb_exe :: "path option"
  svb_ready_timeout :: nat
  svb_network :: network
  svb_bitcoin_data_dir :: "path option"
  svb_difficulty_override :: "(nat \<times> nat) option"
  svb_bitcoinrpc_url_override :: "string option"

definition sv2_new :: "bitcoind \<Rightarrow> sv2_builder" where
  "sv2_new b =
     \<lparr>svb_bitcoind = b, svb_exe = None, svb_ready_timeout = default_sv2_p2pool_ready_timeout,
      svb_network = Testnet4, svb_bitcoin_data_dir = None, svb_difficulty_override = None,
      svb_bitcoinrpc_url_override = None\<rparr>"

definition sv2_with_exe :: "path \<Rightarrow> sv2_builder \<Rightarrow> sv2_builder" where
  "sv2_with_exe p b = b\<lparr>svb_exe := Some p\<rparr>"

definition sv2_with_ready_timeout :: "nat \<Rightarrow> sv2_builder \<Rightarrow> sv2_builder" where
  "sv2_with_ready_timeout t b = b\<lparr>svb_ready_timeout := t\<rparr>"

definition sv2_with_network :: "network \<Rightarrow> sv2_builder \<Rightarrow> sv2_builder" where
  "sv2_with_network n b = b\<lparr>svb_network := n\<rparr>"

definition with_low_difficulty :: "sv2_builder \<Rightarrow> sv2_builder" where
  "with_low_difficulty b = b\<lparr>svb_difficulty_override := Some (1, 1)\<rparr>"

definition sv2_with_bitcoin_data_dir :: "path \<Rightarrow> sv2_builder \<Rightarrow> sv2_builder" where
  "sv2_with_bitcoin_data_dir d b = b\<lparr>svb_bitcoin_data_dir := Some d\<rparr>"

definition with_bitcoinrpc_url_override :: "string \<Rightarrow> sv2_builder \<Rightarrow> sv2_builder" where
  "with_bitcoinrpc_url_override u b = b\<lparr>svb_bitcoinrpc_url_override := Some u\<rparr>"

definition workspace_candidates :: "path \<Rightarrow> path list" where
  "workspace_candidates p =
     map (\<lambda>profile. path_join (path_join (path_join p ''target'') profile) ''sv2-p2pool'') [''debug'', ''release'']"

definition find_sv2_p2pool_in_workspace_target :: "host \<Rightarrow> path option" where
  "find_sv2_p2pool_in_workspace_target h = find_from_manifest h workspace_candidates"

definition sv2_find_exe :: "sv2_builder \<Rightarrow> host \<Rightarrow> path option" where
  "sv2_find_exe b h =
     or_else (svb_exe b)
       (or_else (map_option path_of (env_var h ''SV2_P2POOL_EXE''))
          (or_else (find_sv2_p2pool_in_workspace_target h) (which_compat h ''sv2-p2pool'')))"

definition sv2_allocate_free_port :: "(sv2_error, u16) io" where
  "sv2_allocate_free_port = allocate_port PortAllocation"

fun sv2_network_to_name :: "network \<Rightarrow> string" where
  "sv2_network_to_name Bitcoin = ''mainnet''"
| "sv2_network_to_name Testnet = ''testnet''"
| "sv2_network_to_name Testnet4 = ''testnet4''"
| "sv2_network_to_name Signet = ''signet''"
| "sv2_network_to_name Regtest = ''regtest''"

fun sv2_address_for_network :: "network \<Rightarrow> string" where
  "sv2_address_for_network Bitcoin = ''bc1qar0srrr7xfkvy5l643lydnw9re59gtzzwf5mdq''"
| "sv2_address_for_network Testnet = ''tb1qa0sm0hxzj0x25rh8gw5xlzwlsfvvyz8u96w3p8''"
| "sv2_address_for_network Testnet4 = ''tb1qa0sm0hxzj0x25rh8gw5xlzwlsfvvyz8u96w3p8''"
| "sv2_address_for_network Signet = ''tb1qa0sm0hxzj0x25rh8gw5xlzwlsfvvyz8u96w3p8''"
| "sv2_address_for_network Regtest = ''bcrt1qx2nf3uvxq6h2vksjwgdvnwhvexmkqwqx0vexap''"

section \<open>Configuration files\<close>

definition data_dir_items :: "path option \<Rightarrow> toml_item list" where
  "data_dir_items d = (case d of None \<Rightarrow> [] | Some p \<Rightarrow> [Str ''data_dir'' (path_display p)])"

definition pool_toml :: "sv2_builder \<Rightarrow> u16 \<Rightarrow> u16 \<Rightarrow> u16 \<Rightarrow> toml_item list" where
  "pool_toml b mining_port monitoring_port jds_port =
     [Blank,
      Str ''authority_public_key'' test_authority_public_key,
      Str ''authority_secret_key'' test_authority_secret_key,
      Raw ''cert_validity_sec'' ''3600'',
      Str ''listen_address'' (show_addr (localhost mining_port)),
      Blank,
      Str ''coinbase_reward_script'' (''addr('' @ sv2_address_for_network (svb_network b) @ '')''),
      Blank,
      Raw ''server_id'' ''1'',
      Str ''pool_signature'' ''sv2-p2pool-test'',
      Raw ''shares_per_minute'' ''6.0'',
      Raw ''share_batch_size'' ''10'',
      Blank,
      Raw ''supported_extensions'' ''[]'',
      Raw ''required_extensions'' ''[]'',
      Blank,
      Str ''monitoring_address'' (show_addr (localhost monitoring_port)),
      Raw ''monitoring_cache_refresh_secs'' ''15'',
      Blank,
      Table ''template_provider_type.BitcoinCoreIpc'',
      Str ''network'' (sv2_network_to_name (svb_network b)),
      Raw ''fee_threshold'' ''100'',
      Raw ''min_interval'' ''5''] @
     data_dir_items (svb_bitcoin_data_dir b) @
     [Blank,
      Table ''jds'',
      Str ''listen_address'' (show_addr (localhost jds_port))]"

record sv2_conf =
  c_jds :: u16
  c_mining :: u16
  c_monitoring :: u16
  c_metrics :: u16
  c_share_chain :: share_chain_conf

definition sv2_share_chain_conf ::
  "sv2_builder \<Rightarrow> path \<Rightarrow> u16 \<Rightarrow> u16 \<Rightarrow> u16 \<Rightarrow> u16 \<Rightarrow> share_chain_conf" where
  "sv2_share_chain_conf b d libp2p stratum zmq api =
     (let (start_difficulty, minimum_difficulty) =
            (case svb_difficulty_override b of Some p \<Rightarrow> p | None \<Rightarrow> (10000, 100))
      in \<lparr>sc_libp2p = libp2p, sc_store = path_join d ''p2pool-store.db'', sc_stratum = stratum,
          sc_start_difficulty = start_difficulty, sc_minimum_difficulty = minimum_difficulty,
          sc_addr = sv2_address_for_network (svb_network b), sc_zmq = zmq,
          sc_network = sv2_network_to_name (svb_network b), sc_signature = ''sv2-p2pool-test'',
          sc_rpc_url = (case svb_bitcoinrpc_url_override b of Some u \<Rightarrow> u | None \<Rightarrow> rpc_url (svb_bitcoind b)),
          sc_credentials = bitcoind_credentials (svb_bitcoind b),
          sc_stats = path_join d ''p2pool-stats'', sc_api = api\<rparr>)"

definition sv2_configure :: "sv2_builder \<Rightarrow> path \<Rightarrow> (sv2_error, sv2_conf) io" where
  "sv2_configure b d =
     io_bind sv2_allocate_free_port (\<lambda>jds_port.
     io_bind sv2_allocate_free_port (\<lambda>mining_port.
     io_bind sv2_allocate_free_port (\<lambda>monitoring_port.
     io_bind sv2_allocate_free_port (\<lambda>metrics_port.
     io_bind (create_dir_all WriteConfig (path_join d ''p2pool-stats'')) (\<lambda>_.
     io_bind (write_file WriteConfig (path_join d ''pool.toml'')
                (render (pool_toml b mining_port monitoring_port jds_port))) (\<lambda>_.
     io_bind sv2_allocate_free_port (\<lambda>libp2p_port.
     io_bind sv2_allocate_free_port (\<lambda>stratum_port.
     io_bind sv2_allocate_free_port (\<lambda>zmq_port.
     io_bind sv2_allocate_free_port (\<lambda>api_port.
     let sc = sv2_share_chain_conf b d libp2p_port stratum_port zmq_port api_port in
     io_bind (write_file WriteConfig (path_join d ''p2pool.toml'') (render (share_chain_toml sc))) (\<lambda>_.
     io_return \<lparr>c_jds = jds_port, c_mining = mining_port, c_monitoring = monitoring_port,
                c_metrics = metrics_port, c_share_chain = sc\<rparr>)))))))))))"

section \<open>Spawning\<close>

definition sv2_args :: "path \<Rightarrow> sv2_conf \<Rightarrow> string list" where
  "sv2_args d c =
     [''--config'', path_display (path_join d ''pool.toml''),
      ''--p2pool-config'', path_display (path_join d ''p2pool.toml''),
      ''--metrics-addr'', show_addr (localhost (c_metrics c))]"

definition sv2_handle :: "path \<Rightarrow> sv2_conf \<Rightarrow> nat \<Rightarrow> sv2_p2pool_d" where
  "sv2_handle d c child =
     \<lparr>sv_child = child, sv_tempdir = d, sv_pool_config_path = path_join d ''pool.toml'',
      sv_p2pool_config_path = path_join d ''p2pool.toml'', sv_jds_addr = localhost (c_jds c),
      sv_mining_addr = localhost (c_mining c), sv_metrics_addr = localhost (c_metrics c),
      sv_monitoring_addr = localhost (c_monitoring c)\<rparr>"

definition sv2_prepare :: "sv2_builder \<Rightarrow> (sv2_error, sv2_p2pool_d) io" where
  "sv2_prepare b =
     with_exe BinaryNotFound (\<lambda>w. (sv2_find_exe b (host w), w)) (\<lambda>x.
       launch Tempdir Spawn x (sv2_configure b) sv2_args (\<lambda>d c. []) sv2_handle)"

definition sv2_wait_for_ready :: "sv2_p2pool_d \<Rightarrow> nat \<Rightarrow> os \<Rightarrow> ((sv2_error, unit) result \<times> os) option" where
  "sv2_wait_for_ready s timeout =
     ready_loop ExitedDuringStartup ReadinessTimeout
       (both_up (snd (sv_jds_addr s)) (snd (sv_metrics_addr s))) 100 (sv_child s) timeout"

definition sv2_drop :: "sv2_p2pool_d \<Rightarrow> os \<Rightarrow> os option" where
  "sv2_drop s = release (sv_tempdir s) (sv_child s)"

definition sv2_build :: "sv2_builder \<Rightarrow> os \<Rightarrow> ((sv2_error, sv2_p2pool_d) result \<times> os) option" where
  "sv2_build b = await_ready (sv2_prepare b) (\<lambda>s. sv2_wait_for_ready s (svb_ready_timeout b)) sv2_drop"

section \<open>Lemmas\<close>

lemma sv2_configure_inside: "io_rel (inside d) (sv2_configure b d)"
  unfolding sv2_configure_def sv2_allocate_free_port_def Let_def by (intro inside_intros)

lemma sv2_configure_no_Panic: "sv2_configure b d w \<noteq> (Panic, w')"
  unfolding sv2_configure_def sv2_allocate_free_port_def Let_def
  by (intro io_bind_no_Panic) simp_all

lemma sv2_prepare_acquires: "acquires sv_tempdir sv_child (sv2_prepare b)"
  unfolding sv2_prepare_def
  by (intro acquires_with_exe acquires_launch sv2_configure_inside sv2_configure_no_Panic)
    (simp_all add: sv2_handle_def still_def onward_def)

interpretation sv: spawner "sv2_prepare b" "\<lambda>s. sv2_wait_for_ready s (svb_ready_timeout b)"
    sv_tempdir sv_child "svb_ready_timeout b" for b
proof
  show "acquires sv_tempdir sv_child (sv2_prepare b)" by (rule sv2_prepare_acquires)
  fix s w
  show "\<exists>r w'. sv2_wait_for_ready s (svb_ready_timeout b) w = Some (r, w') \<and> watches (sv_child s) w w' \<and>
      (r = Panic \<longrightarrow> instant_end \<le> clock w + svb_ready_timeout b)"
    unfolding sv2_wait_for_ready_def by (rule both100.ready_total)
qed

lemma sv2_build_is: "sv2_build b = sv.build b"
  unfolding sv2_build_def sv.build_def sv2_drop_def ..

text \<open>What the files in the temporary directory say.\<close>

lemma path_join_neq: "a \<noteq> b \<Longrightarrow> a \<noteq> [] \<Longrightarrow> b \<noteq> [] \<Longrightarrow> path_join d a \<noteq> path_join d b"
  by (metis last_snoc path.select_convs(2) path.surjective path.update_convs(2) path_join_def)

lemma sv2_configure_files:
  assumes "sv2_configure b d w = (Ok c, w')"
  shows "dm_get (files w') (path_join d ''pool.toml'') =
           Some (render (pool_toml b (c_mining c) (c_monitoring c) (c_jds c)))"
    and "dm_get (files w') (path_join d ''p2pool.toml'') = Some (render (share_chain_toml (c_share_chain c)))"
    and "\<exists>libp2p stratum zmq api. c_share_chain c = sv2_share_chain_conf b d libp2p stratum zmq api"
  using assms path_join_neq [of "''pool.toml''" "''p2pool.toml''" d]
  by (auto simp: sv2_configure_def sv2_allocate_free_port_def Let_def io_bind_Ok_iff io_return_def
      dest!: call_files) blast

lemma sv2_prepare_Ok:
  assumes "tidy w" and "sv2_prepare b w = (Ok s, w')"
  obtains x d c w1 w2 where "sv2_find_exe b (host w) = Some x" "s = sv2_handle d c (sv_child s)"
    "sv2_configure b d w1 = (Ok c, w2)" "files w' = files w2"
    "procs w' = \<lparr>pid = sv_child s, exe = x, cmd_args = sv2_args d c, cmd_env = [], alive = True\<rparr> # procs w"
proof -
  from prepared_Ok [OF assms(1) sv2_configure_inside assms(2) [unfolded sv2_prepare_def]]
  obtain x d c p w1 w2 where "sv2_find_exe b (host w) = Some x" "s = sv2_handle d c p"
    "sv2_configure b d w1 = (Ok c, w2)" "files w' = files w2"
    "procs w' = \<lparr>pid = p, exe = x, cmd_args = sv2_args d c, cmd_env = [], alive = True\<rparr> # procs w"
    by metis
  moreover from this(2) have "sv_child s = p" by (simp add: sv2_handle_def)
  ultimately show ?thesis using that [of x d c w1 w2] by metis
qed

lemma plain_names [simp]:
  "plain (sv2_network_to_name n)" "plain (sv2_address_for_network n)" "plain test_authority_public_key"
  "plain test_authority_secret_key" "plain (show_addr (localhost p))"
  by (cases n; simp add: plain_literal_simps)+
    (simp_all add: plain_literal_simps test_authority_public_key_def test_authority_secret_key_def
      show_addr_def localhost_def show_port_def)

definition plain_dir :: "path option \<Rightarrow> bool" where
  "plain_dir d = (case d of None \<Rightarrow> True | Some p \<Rightarrow> plain (path_display p))"

lemma pool_toml_wf: "plain_dir (svb_bitcoin_data_dir b) \<Longrightarrow> list_all wf_item (pool_toml b m n j)"
  by (auto simp: pool_toml_def data_dir_items_def toml_wf_simps plain_dir_def split: option.splits)

lemma pool_toml_values:
  "toml_get [] (pool_toml b m n j) [] ''listen_address'' = Some (show_addr (localhost m))"
  "toml_get [] (pool_toml b m n j) [] ''monitoring_address'' = Some (show_addr (localhost n))"
  "toml_get [] (pool_toml b m n j) ''jds'' ''listen_address'' = Some (show_addr (localhost j))"
  "toml_get [] (pool_toml b m n j) ''template_provider_type.BitcoinCoreIpc'' ''network'' =
     Some (sv2_network_to_name (svb_network b))"
  "toml_get [] (pool_toml b m n j) ''template_provider_type.BitcoinCoreIpc'' ''data_dir'' =
     map_option path_display (svb_bitcoin_data_dir b)"
  "toml_get [] (pool_toml b m n j) [] ''authority_public_key'' = Some test_authority_public_key"
  by (auto simp: pool_toml_def data_dir_items_def split: option.splits)

lemma sv2_build_Ok:
  assumes "tidy w" and "sv2_build b w = Some (Ok s, w')"
  obtains x d c w1 w2 where "sv2_find_exe b (host w) = Some x" "s = sv2_handle d c (sv_child s)"
    "sv2_configure b d w1 = (Ok c, w2)" "files w' = files w2"
    "procs w' = \<lparr>pid = sv_child s, exe = x, cmd_args = sv2_args d c, cmd_env = [], alive = True\<rparr> # procs w"
    "\<exists>v. both_up (snd (sv_jds_addr s)) (snd (sv_metrics_addr s)) v = (True, w')"
proof -
  from assms(2) obtain v where v: "sv2_prepare b w = (Ok s, v)"
    "sv2_wait_for_ready s (svb_ready_timeout b) v = Some (Ok (), w')" "watches (sv_child s) v w'"
    unfolding sv2_build_is by (rule sv.build_Ok_cases)
  from v(2) have "procs w' = procs v" and
    "\<exists>u. both_up (snd (sv_jds_addr s)) (snd (sv_metrics_addr s)) u = (True, w')"
    unfolding sv2_wait_for_ready_def by (auto dest: both100.ready_Ok_procs both100.ready_Ok_up)
  moreover from v(3) have "files w' = files v" by (simp add: watches_def)
  ultimately show ?thesis
    using sv2_prepare_Ok [OF assms(1) v(1)] that by metis
qed

section \<open>Properties\<close>

text \<open>
  when \<open>Sv2P2poolDBuilder::build\<close> succeeds, the two files it left on disk, read by a TOML reader,
  hold exactly the addresses of the returned handle (mining, JDS and monitoring listeners), the data
  directory, RPC URL, credentials and difficulties the builder was given, the running child was
  started on these two files with the handle's metrics address, and both the JDS and the metrics port
  have just accepted a connection.
\<close>

lemma sv2_build_configured:
  assumes "tidy w" and "sv2_build b w = Some (Ok s, w')"
    and "plain_dir (svb_bitcoin_data_dir b)" and "plain (path_display (sv_tempdir s))"
    and "plain (case svb_bitcoinrpc_url_override b of Some u \<Rightarrow> u | None \<Rightarrow> rpc_url (svb_bitcoind b))"
    and "plain (fst (bitcoind_credentials (svb_bitcoind b)))"
    and "plain (snd (bitcoind_credentials (svb_bitcoind b)))"
  shows "\<exists>pool p2pool q.
    dm_get (files w') (sv_pool_config_path s) = Some pool \<and>
    config_value pool [] ''listen_address'' = Some (show_addr (sv_mining_addr s)) \<and>
    config_value pool ''jds'' ''listen_address'' = Some (show_addr (sv_jds_addr s)) \<and>
    config_value pool [] ''monitoring_address'' = Some (show_addr (sv_monitoring_addr s)) \<and>
    config_value pool ''template_provider_type.BitcoinCoreIpc'' ''data_dir'' =
      map_option path_display (svb_bitcoin_data_dir b) \<and>
    dm_get (files w') (sv_p2pool_config_path s) = Some p2pool \<and>
    config_value p2pool ''bitcoinrpc'' ''url'' =
      Some (case svb_bitcoinrpc_url_override b of Some u \<Rightarrow> u | None \<Rightarrow> rpc_url (svb_bitcoind b)) \<and>
    config_value p2pool ''bitcoinrpc'' ''password'' = Some (snd (bitcoind_credentials (svb_bitcoind b))) \<and>
    config_value p2pool ''stratum'' ''start_difficulty'' =
      Some (digits (case svb_difficulty_override b of Some p \<Rightarrow> fst p | None \<Rightarrow> 10000)) \<and>
    q \<in> set (procs w') \<and> pid q = sv_child s \<and> alive q \<and>
    cmd_args q = [''--config'', path_display (sv_pool_config_path s),
                  ''--p2pool-config'', path_display (sv_p2pool_config_path s),
                  ''--metrics-addr'', show_addr (sv_metrics_addr s)] \<and>
    (\<exists>v. both_up (snd (sv_jds_addr s)) (snd (sv_metrics_addr s)) v = (True, w'))"
proof -
  obtain x d c w1 w2 where s: "s = sv2_handle d c (sv_child s)" and c: "sv2_configure b d w1 = (Ok c, w2)"
    and files: "files w' = files w2"
    and procs: "procs w' = \<lparr>pid = sv_child s, exe = x, cmd_args = sv2_args d c, cmd_env = [], alive = True\<rparr> # procs w"
    and up: "\<exists>v. both_up (snd (sv_jds_addr s)) (snd (sv_metrics_addr s)) v = (True, w')"
    using assms(1,2) by (rule sv2_build_Ok)
  have h: "sv_tempdir s = d" "sv_pool_config_path s = path_join d ''pool.toml''"
    "sv_p2pool_config_path s = path_join d ''p2pool.toml''" "sv_mining_addr s = localhost (c_mining c)"
    "sv_jds_addr s = localhost (c_jds c)" "sv_monitoring_addr s = localhost (c_monitoring c)"
    "sv_metrics_addr s = localhost (c_metrics c)"
    by (subst s, simp add: sv2_handle_def)+
  note f = sv2_configure_files [OF c, folded files]
  obtain l st z a where sc: "c_share_chain c = sv2_share_chain_conf b d l st z a" using f(3) by blast
  have dir: "plain (path_display (path_join d n))" if "plain n" for n
    using assms(4) that by (simp add: h plain_join)
  have "plain_conf (c_share_chain c)"
    using assms(5-7) by (auto simp: sc plain_conf_def sv2_share_chain_conf_def Let_def dir plain_literal_simps
        split: option.splits prod.splits)
  note share = share_chain_wf [OF this] and pool = pool_toml_wf [OF assms(3)]
  show ?thesis
    unfolding h
    by (rule exI [of _ "render (pool_toml b (c_mining c) (c_monitoring c) (c_jds c))"],
        rule exI [of _ "render (share_chain_toml (c_share_chain c))"],
        rule exI [of _ "\<lparr>pid = sv_child s, exe = x, cmd_args = sv2_args d c, cmd_env = [], alive = True\<rparr>"])
      (use f up share pool in \<open>simp add: h config_value_render pool_toml_values share_chain_values procs
        sv2_args_def sc sv2_share_chain_conf_def split: option.splits prod.splits\<close>)
qed

definition sample_builder :: sv2_builder where
  "sample_builder =
     with_low_difficulty (sv2_with_exe (path_of ''/bin/sv2-p2pool'')
       (sv2_new \<lparr>rpc_url = ''http://127.0.0.1:18443'', cookie_values = Inr None\<rparr>))"

lemmas sv2_run_simps = sv2_build_def await_ready_def sv2_prepare_def with_exe_def sv2_find_exe_def launch_def
  with_tempdir_def io_bind_def on_error_def tempdir_def os_call_def sv2_configure_def
  sv2_allocate_free_port_def allocate_port_def bind_port_def local_addr_def create_dir_all_def
  write_file_def spawn_def io_return_def Let_def sv2_wait_for_ready_def ready_loop_def

lemma sample_digits: "digits 0 = ''0''" "digits 20003 = ''20003''"
  by (simp_all add: digits.simps digit_chars)

lemma sample_build:
  "\<exists>s w'. sv2_build sample_builder (start_os quiet_host) = Some (Ok s, w') \<and>
     sv_tempdir s = \<lparr>absolute = True, comps = [''tmp'', ''0'']\<rparr> \<and> sv_mining_addr s = (''127.0.0.1'', 20003)"
proof -
  let ?d = "\<lparr>absolute = True, comps = [''tmp'', ''0'']\<rparr>"
  let ?s = "\<lparr>sv_child = 20, sv_tempdir = ?d, sv_pool_config_path = path_join ?d ''pool.toml'',
    sv_p2pool_config_path = path_join ?d ''p2pool.toml'', sv_jds_addr = (''127.0.0.1'', 20001),
    sv_mining_addr = (''127.0.0.1'', 20003), sv_metrics_addr = (''127.0.0.1'', 20007),
    sv_monitoring_addr = (''127.0.0.1'', 20005)\<rparr>"
  have "\<exists>w1. sv2_prepare sample_builder (start_os quiet_host) = (Ok ?s, w1) \<and> host w1 = quiet_host \<and> is_alive 20 w1 \<and>
      clock w1 = 0"
    by (simp add: sv2_run_simps sample_builder_def sv2_new_def with_low_difficulty_def sv2_with_exe_def
        sv2_handle_def is_alive_def localhost_def sample_digits)
  then obtain w1 where p: "sv2_prepare sample_builder (start_os quiet_host) = (Ok ?s, w1)"
    and h: "host w1 = quiet_host" and al: "is_alive 20 w1" and "clock w1 = 0" by blast
  have "\<exists>v. ready_probe ExitedDuringStartup (both_up 20001 20007) 20 w1 = (Some (Ok ()), v)"
    using h al by (simp add: ready_probe_def try_wait_def both_up_def connect_timeout_def Let_def)
  then obtain v where "ready_probe ExitedDuringStartup (both_up 20001 20007) 20 w1 = (Some (Ok ()), v)" by blast
  moreover have "clock w1 + svb_ready_timeout sample_builder < instant_end"
    using \<open>clock w1 = 0\<close>
    by (simp add: sample_builder_def sv2_new_def with_low_difficulty_def sv2_with_exe_def instant_end_def
        default_sv2_p2pool_ready_timeout_def)
  ultimately show ?thesis
    using p by (simp add: sv2_build_def await_ready_def sv2_wait_for_ready_def ready_loop_hit)
qed

theorem sv2_build_configured_witness:
  "\<exists>s w' pool. sv2_build sample_builder (start_os quiet_host) = Some (Ok s, w') \<and>
     dm_get (files w') (sv_pool_config_path s) = Some pool \<and>
     config_value pool [] ''listen_address'' = Some ''127.0.0.1:20003''"
proof -
  obtain s w' where s: "sv2_build sample_builder (start_os quiet_host) = Some (Ok s, w')"
    "sv_tempdir s = \<lparr>absolute = True, comps = [''tmp'', ''0'']\<rparr>" "sv_mining_addr s = (''127.0.0.1'', 20003)"
    using sample_build by blast
  have "plain_dir (svb_bitcoin_data_dir sample_builder)" "plain (path_display (sv_tempdir s))"
    "plain (case svb_bitcoinrpc_url_override sample_builder of Some u \<Rightarrow> u | None \<Rightarrow> rpc_url (svb_bitcoind sample_builder))"
    "plain (fst (bitcoind_credentials (svb_bitcoind sample_builder)))"
    "plain (snd (bitcoind_credentials (svb_bitcoind sample_builder)))"
    by (simp_all add: s sample_builder_def sv2_new_def with_low_difficulty_def sv2_with_exe_def plain_dir_def
        path_display_def plain_literal_simps bitcoind_credentials_def)
  from sv2_build_configured [OF start_os_tidy s(1) this] s show ?thesis
    by (fastforce simp: show_addr_def show_port_def sample_digits)
qed

end
