(* ===== verification/Testenv_Miners.thy ===== *)
theory Testenv_Miners
  imports Testenv_Sv2
begin

text \<open>
  The three spawners downstream of the pool: \<open>jdcd.rs\<close> (job declarator client), \<open>translator_sv2d.rs\<close>
  (SV1 translator) and \<open>mujinad.rs\<close> (CPU miner), all of \<open>crates/sv2-p2pool-testenv/src/\<close>. A
  floating-point setting of the translator is carried by the text that \<open>Display\<close> gives for it.
\<close>

section \<open>The job declarator client\<close>

type_synonym jdc_error = spawn_error

record jd_client_d =
  jd_child :: nat
  jd_tempdir :: path
  jd_config_path :: path
  jd_listening_addr :: sock_addr

record jdc_builder =
  jdb_bitcoind :: bitcoind
  jdb_upstream :: sv2_p2pool_d
  jdb_exe :: "path option"
  jdb_ready_timeout :: nat
  jdb_network :: network
  jdb_bitcoin_data_dir :: "path option"
  jdb_user_identity :: string

definition default_jd_client_ready_timeout :: nat where
  "default_jd_client_ready_timeout = 10000"

definition jdc_new :: "bitcoind \<Rightarrow> sv2_p2pool_d \<Rightarrow> jdc_builder" where
  "jdc_new b up =
     \<lparr>jdb_bitcoind = b, jdb_upstream = up, jdb_exe = None, jdb_ready_timeout = default_jd_client_ready_timeout,
      jdb_network = Testnet4, jdb_bitcoin_data_dir = None, jdb_user_identity = ''sv2-p2pool-testenv''\<rparr>"

definition jdc_with_exe :: "path \<Rightarrow> jdc_builder \<Rightarrow> jdc_builder" where
  "jdc_with_exe p b = b\<lparr>jdb_exe := Some p\<rparr>"

definition jdc_with_ready_timeout :: "nat \<Rightarrow> jdc_builder \<Rightarrow> jdc_builder" where
  "jdc_with_ready_timeout t b = b\<lparr>jdb_ready_timeout := t\<rparr>"

definition jdc_with_network :: "network \<Rightarrow> jdc_builder \<Rightarrow> jdc_builder" where
  "jdc_with_network n b = b\<lparr>jdb_network := n\<rparr>"

definition jdc_with_bitcoin_data_dir :: "path \<Rightarrow> jdc_builder \<Rightarrow> jdc_builder" where
  "jdc_with_bitcoin_data_dir d b = b\<lparr>jdb_bitcoin_data_dir := Some d\<rparr>"

definition jdc_with_user_identity :: "string \<Rightarrow> jdc_builder \<Rightarrow> jdc_builder" where
  "jdc_with_user_identity u b = b\<lparr>jdb_user_identity := u\<rparr>"

definition path_joins :: "path \<Rightarrow> string list \<Rightarrow> path" where
  "path_joins = foldl path_join"

definition jdc_candidates :: "path \<Rightarrow> path list" where
  "jdc_candidates p =
     map (\<lambda>profile. path_joins p [''vendor'', ''sv2-apps'', ''miner-apps'', ''target'', profile, ''jd_client_sv2''])
       [''debug'', ''release'']"

definition find_jd_client_in_sv2_apps_target :: "host \<Rightarrow> path option" where
  "find_jd_client_in_sv2_apps_target h = find_from_manifest h jdc_candidates"

definition jdc_find_exe :: "jdc_builder \<Rightarrow> host \<Rightarrow> path option" where
  "jdc_find_exe b h =
     or_else (jdb_exe b)
       (or_else (map_option path_of (env_var h ''JD_CLIENT_EXE''))
          (or_else (find_jd_client_in_sv2_apps_target h) (which_compat h ''jd_client_sv2'')))"

definition jdc_allocate_free_port :: "(jdc_error, u16) io" where
  "jdc_allocate_free_port = allocate_port PortAllocation"

fun jdc_network_to_name :: "network \<Rightarrow> string" where
  "jdc_network_to_name Bitcoin = ''mainnet''"
| "jdc_network_to_name Testnet = ''testnet''"
| "jdc_network_to_name Testnet4 = ''testnet4''"
| "jdc_network_to_name Signet = ''signet''"
| "jdc_network_to_name Regtest = ''regtest''"

fun jdc_address_for_network :: "network \<Rightarrow> string" where
  "jdc_address_for_network Bitcoin = ''bc1qar0srrr7xfkvy5l643lydnw9re59gtzzwf5mdq''"
| "jdc_address_for_network Testnet = ''tb1qpusf5256yxv50qt0pm0tue8k952fsu5lzsphft''"
| "jdc_address_for_network Testnet4 = ''tb1qpusf5256yxv50qt0pm0tue8k952fsu5lzsphft''"
| "jdc_address_for_network Signet = ''tb1qpusf5256yxv50qt0pm0tue8k952fsu5lzsphft''"
| "jdc_address_for_network Regtest = ''bcrt1qx2nf3uvxq6h2vksjwgdvnwhvexmkqwqx0vexap''"

definition jdc_toml :: "jdc_builder \<Rightarrow> u16 \<Rightarrow> u16 \<Rightarrow> toml_item list" where
  "jdc_toml b listening_port monitoring_port =
     (let pool_addr = sv_mining_addr (jdb_upstream b); jds_addr = sv_jds_addr (jdb_upstream b) in
     [Blank,
      Str ''listening_address'' (show_addr (localhost listening_port)),
      Blank,
      Raw ''max_supported_version'' ''2'',
      Raw ''min_supported_version'' ''2'',
      Blank,
      Str ''authority_public_key'' test_authority_public_key,
      Str ''authority_secret_key'' test_authority_secret_key,
      Raw ''cert_validity_sec'' ''3600'',
      Blank,
      Str ''user_identity'' (jdb_user_identity b),
      Blank,
      Raw ''shares_per_minute'' ''6.0'',
      Raw ''share_batch_size'' ''10'',
      Blank,
      Str ''mode'' ''FULLTEMPLATE'',
      Blank,
      Str ''jdc_signature'' ''sv2-p2pool-test'',
      Blank,
      Str ''coinbase_reward_script'' (''addr('' @ jdc_address_for_network (jdb_network b) @ '')''),
      Blank,
      Raw ''supported_extensions'' ''[]'',
      Blank,
      Str ''monitoring_address'' (show_addr (localhost monitoring_port)),
      Raw ''monitoring_cache_refresh_secs'' ''15'',
      Blank,
      ArrayTable ''upstreams'',
      Str ''authority_pubkey'' test_authority_public_key,
      Str ''pool_address'' (fst pool_addr),
      Raw ''pool_port'' (show_port (snd pool_addr)),
      Str ''jds_address'' (fst jds_addr),
      Raw ''jds_port'' (show_port (snd jds_addr)),
      Blank,
      Table ''template_provider_type.BitcoinCoreIpc'',
      Str ''network'' (jdc_network_to_name (jdb_network b)),
      Raw ''fee_threshold'' ''100'',
      Raw ''min_interval'' ''5''] @
     data_dir_items (jdb_bitcoin_data_dir b))"

definition jdc_configure :: "jdc_builder \<Rightarrow> path \<Rightarrow> (jdc_error, u16 \<times> u16) io" where
  "jdc_configure b d =
     io_bind jdc_allocate_free_port (\<lambda>listening_port.
     io_bind jdc_allocate_free_port (\<lambda>monitoring_port.
     io_bind (write_file WriteConfig (path_join d ''jdc-config.toml'')
                (render (jdc_toml b listening_port monitoring_port))) (\<lambda>_.
     io_return (listening_port, monitoring_port))))"

definition jdc_handle :: "path \<Rightarrow> u16 \<times> u16 \<Rightarrow> nat \<Rightarrow> jd_client_d" where
  "jdc_handle d c child =
     \<lparr>jd_child = child, jd_tempdir = d, jd_config_path = path_join d ''jdc-config.toml'',
      jd_listening_addr = localhost (fst c)\<rparr>"

definition jdc_prepare :: "jdc_builder \<Rightarrow> (jdc_error, jd_client_d) io" where
  "jdc_prepare b =
     with_exe BinaryNotFound (\<lambda>w. (jdc_find_exe b (host w), w)) (\<lambda>x.
       launch Tempdir Spawn x (jdc_configure b)
         (\<lambda>d c. [''-c'', path_display (path_join d ''jdc-config.toml'')]) (\<lambda>d c. []) jdc_handle)"

definition jdc_wait_for_ready :: "jd_client_d \<Rightarrow> nat \<Rightarrow> os \<Rightarrow> ((jdc_error, unit) result \<times> os) option" where
  "jdc_wait_for_ready s timeout =
     ready_loop ExitedDuringStartup ReadinessTimeout (port_up (snd (jd_listening_addr s))) 100 (jd_child s) timeout"

definition jdc_drop :: "jd_client_d \<Rightarrow> os \<Rightarrow> os option" where
  "jdc_drop s = release (jd_tempdir s) (jd_child s)"

definition jdc_build :: "jdc_builder \<Rightarrow> os \<Rightarrow> ((jdc_error, jd_client_d) result \<times> os) option" where
  "jdc_build b = await_ready (jdc_prepare b) (\<lambda>s. jdc_wait_for_ready s (jdb_ready_timeout b)) jdc_drop"

section \<open>The translator\<close>

type_synonym translator_error = spawn_error

record translator_d =
  tr_child :: nat
  tr_tempdir :: path
  tr_config_path :: path
  tr_downstream_addr :: sock_addr

record translator_builder =
  trb_upstream :: jd_client_d
  trb_exe :: "path option"
  trb_ready_timeout :: nat
  trb_user_identity :: string
  trb_min_individual_miner_hashrate :: string
  trb_shares_per_minute :: string

definition default_translator_sv2_ready_timeout :: nat where
  "default_translator_sv2_ready_timeout = 10000"

definition translator_new :: "jd_client_d \<Rightarrow> translator_builder" where
  "translator_new up =
     \<lparr>trb_upstream = up, trb_exe = None, trb_ready_timeout = default_translator_sv2_ready_timeout,
      trb_user_identity = ''sv2-p2pool-testenv'', trb_min_individual_miner_hashrate = ''1000000'',
      trb_shares_per_minute = ''6''\<rparr>"

definition translator_with_exe :: "path \<Rightarrow> translator_builder \<Rightarrow> translator_builder" where
  "translator_with_exe p b = b\<lparr>trb_exe := Some p\<rparr>"

definition translator_with_ready_timeout :: "nat \<Rightarrow> translator_builder \<Rightarrow> translator_builder" where
  "translator_with_ready_timeout t b = b\<lparr>trb_ready_timeout := t\<rparr>"

definition translator_with_user_identity :: "string \<Rightarrow> translator_builder \<Rightarrow> translator_builder" where
  "translator_with_user_identity u b = b\<lparr>trb_user_identity := u\<rparr>"

definition with_min_individual_miner_hashrate :: "string \<Rightarrow> translator_builder \<Rightarrow> translator_builder" where
  "with_min_individual_miner_hashrate h b = b\<lparr>trb_min_individual_miner_hashrate := h\<rparr>"

definition with_shares_per_minute :: "string \<Rightarrow> translator_builder \<Rightarrow> translator_builder" where
  "with_shares_per_minute s b = b\<lparr>trb_shares_per_minute := s\<rparr>"

definition translator_candidates :: "path \<Rightarrow> path list" where
  "translator_candidates p =
     concat (map (\<lambda>profile.
       map (\<lambda>target_root. path_joins p (target_root @ [profile, ''translator_sv2'']))
         [[''vendor'', ''sv2-apps'', ''miner-apps'', ''target''], [''vendor'', ''sv2-apps'', ''target'']])
       [''debug'', ''release''])"

definition find_translator_in_sv2_apps_target :: "host \<Rightarrow> path option" where
  "find_translator_in_sv2_apps_target h = find_from_manifest h translator_candidates"

definition translator_find_exe :: "translator_builder \<Rightarrow> host \<Rightarrow> path option" where
  "translator_find_exe b h =
     or_else (trb_exe b)
       (or_else (map_option path_of (env_var h ''TRANSLATOR_SV2_EXE''))
          (or_else (find_translator_in_sv2_apps_target h) (which_compat h ''translator_sv2'')))"

definition translator_allocate_free_port :: "(translator_error, u16) io" where
  "translator_allocate_free_port = allocate_port PortAllocation"

definition translator_toml :: "translator_builder \<Rightarrow> u16 \<Rightarrow> u16 \<Rightarrow> toml_item list" where
  "translator_toml b downstream_port monitoring_port =
     (let upstream_addr = jd_listening_addr (trb_upstream b) in
     [Blank,
      Str ''downstream_address'' ''127.0.0.1'',
      Raw ''downstream_port'' (show_port downstream_port),
      Blank,
      Raw ''max_supported_version'' ''2'',
      Raw ''min_supported_version'' ''2'',
      Blank,
      Raw ''downstream_extranonce2_size'' ''4'',
      Blank,
      Str ''user_identity'' (trb_user_identity b),
      Blank,
      Raw ''verify_payout'' ''false'',
      Blank,
      Raw ''aggregate_channels'' ''false'',
      Blank,
      Raw ''supported_extensions'' ''[]'',
      Blank,
      Str ''monitoring_address'' (show_addr (localhost monitoring_port)),
      Raw ''monitoring_cache_refresh_secs'' ''15'',
      Blank,
      Table ''downstream_difficulty_config'',
      Raw ''min_individual_miner_hashrate'' (trb_min_individual_miner_hashrate b),
      Raw ''shares_per_minute'' (trb_shares_per_minute b),
      Raw ''enable_vardiff'' ''false'',
      Blank,
      Raw ''job_keepalive_interval_secs'' ''60'',
      Blank,
      ArrayTable ''upstreams'',
      Str ''address'' (fst upstream_addr),
      Raw ''port'' (show_port (snd upstream_addr)),
      Str ''authority_pubkey'' test_authority_public_key])"

definition translator_configure :: "translator_builder \<Rightarrow> path \<Rightarrow> (translator_error, u16 \<times> u16) io" where
  "translator_configure b d =
     io_bind translator_allocate_free_port (\<lambda>downstream_port.
     io_bind translator_allocate_free_port (\<lambda>monitoring_port.
     io_bind (write_file WriteConfig (path_join d ''translator-config.toml'')
                (render (translator_toml b downstream_port monitoring_port))) (\<lambda>_.
     io_return (downstream_port, monitoring_port))))"

definition translator_handle :: "path \<Rightarrow> u16 \<times> u16 \<Rightarrow> nat \<Rightarrow> translator_d" where
  "translator_handle d c child =
     \<lparr>tr_child = child, tr_tempdir = d, tr_config_path = path_join d ''translator-config.toml'',
      tr_downstream_addr = localhost (fst c)\<rparr>"

definition translator_prepare :: "translator_builder \<Rightarrow> (translator_error, translator_d) io" where
  "translator_prepare b =
     with_exe BinaryNotFound (\<lambda>w. (translator_find_exe b (host w), w)) (\<lambda>x.
       launch Tempdir Spawn x (translator_configure b)
         (\<lambda>d c. [''-c'', path_display (path_join d ''translator-config.toml'')]) (\<lambda>d c. []) translator_handle)"

definition translator_wait_for_ready ::
  "translator_d \<Rightarrow> nat \<Rightarrow> os \<Rightarrow> ((translator_error, unit) result \<times> os) option" where
  "translator_wait_for_ready s timeout =
     ready_loop ExitedDuringStartup ReadinessTimeout (port_up (snd (tr_downstream_addr s))) 100 (tr_child s) timeout"

definition translator_drop :: "translator_d \<Rightarrow> os \<Rightarrow> os option" where
  "translator_drop s = release (tr_tempdir s) (tr_child s)"

definition translator_build :: "translator_builder \<Rightarrow> os \<Rightarrow> ((translator_error, translator_d) result \<times> os) option" where
  "translator_build b =
     await_ready (translator_prepare b) (\<lambda>s. translator_wait_for_ready s (trb_ready_timeout b)) translator_drop"

section \<open>The miner\<close>

datatype mujina_error =
    MujinaBinaryNotFound
  | MujinaPortAllocation string
  | MujinaSpawn string
  | MujinaReadinessTimeout nat
  | MujinaExitedDuringStartup

record mujina_d =
  mj_child :: nat
  mj_tempdir :: path
  mj_api_addr :: sock_addr
  mj_pool_url :: "string option"

record mujina_builder =
  mjb_exe :: "path option"
  mjb_pool_url :: "string option"
  mjb_pool_user :: string
  mjb_pool_pass :: string
  mjb_cpu_threads :: u32
  mjb_cpu_duty :: u32
  mjb_rust_log :: string
  mjb_ready_timeout :: nat

definition default_mujina_ready_timeout :: nat where
  "default_mujina_ready_timeout = 10000"

definition mujina_new :: mujina_builder where
  "mujina_new =
     \<lparr>mjb_exe = None, mjb_pool_url = None, mjb_pool_user = ''sv2-p2pool-testenv-miner'', mjb_pool_pass = ''x'',
      mjb_cpu_threads = 1, mjb_cpu_duty = 50, mjb_rust_log = ''info'',
      mjb_ready_timeout = default_mujina_ready_timeout\<rparr>"

definition mujina_with_exe :: "path \<Rightarrow> mujina_builder \<Rightarrow> mujina_builder" where
  "mujina_with_exe p b = b\<lparr>mjb_exe := Some p\<rparr>"

definition with_pool_url :: "string \<Rightarrow> mujina_builder \<Rightarrow> mujina_builder" where
  "with_pool_url u b = b\<lparr>mjb_pool_url := Some u\<rparr>"

definition with_pool_user :: "string \<Rightarrow> mujina_builder \<Rightarrow> mujina_builder" where
  "with_pool_user u b = b\<lparr>mjb_pool_user := u\<rparr>"

definition with_pool_pass :: "string \<Rightarrow> mujina_builder \<Rightarrow> mujina_builder" where
  "with_pool_pass u b = b\<lparr>mjb_pool_pass := u\<rparr>"

definition with_cpu_threads :: "u32 \<Rightarrow> mujina_builder \<Rightarrow> mujina_builder" where
  "with_cpu_threads n b = b\<lparr>mjb_cpu_threads := n\<rparr>"

definition with_cpu_duty :: "u32 \<Rightarrow> mujina_builder \<Rightarrow> mujina_builder" where
  "with_cpu_duty n b = b\<lparr>mjb_cpu_duty := n\<rparr>"

definition with_rust_log :: "string \<Rightarrow> mujina_builder \<Rightarrow> mujina_builder" where
  "with_rust_log r b = b\<lparr>mjb_rust_log := r\<rparr>"

definition mujina_with_ready_timeout :: "nat \<Rightarrow> mujina_builder \<Rightarrow> mujina_builder" where
  "mujina_with_ready_timeout t b = b\<lparr>mjb_ready_timeout := t\<rparr>"

definition mujina_find_exe :: "mujina_builder \<Rightarrow> host \<Rightarrow> path option" where
  "mujina_find_exe b h =
     or_else (mjb_exe b)
       (or_else (map_option path_of (env_var h ''MUJINA_MINERD_EXE'')) (which_compat h ''mujina-minerd''))"

definition mujina_allocate_free_port :: "(mujina_error, u16) io" where
  "mujina_allocate_free_port = allocate_port MujinaPortAllocation"

definition mujina_env :: "mujina_builder \<Rightarrow> u16 \<Rightarrow> path \<Rightarrow> (string \<times> string) list" where
  "mujina_env b api_port d =
     [(''MUJINA_API_LISTEN'', show_addr (localhost api_port)),
      (''MUJINA_USB_DISABLE'', ''1''),
      (''MUJINA_CPUMINER_THREADS'', digits (unat (mjb_cpu_threads b))),
      (''MUJINA_CPUMINER_DUTY'', digits (unat (mjb_cpu_duty b))),
      (''MUJINA_POOL_USER'', mjb_pool_user b),
      (''MUJINA_POOL_PASS'', mjb_pool_pass b),
      (''RUST_LOG'', mjb_rust_log b),
      (''HOME'', path_display d),
      (''XDG_CONFIG_HOME'', path_display (path_join d ''config''))] @
     (case mjb_pool_url b of None \<Rightarrow> [] | Some url \<Rightarrow> [(''MUJINA_POOL_URL'', url)])"

definition mujina_handle :: "mujina_builder \<Rightarrow> u16 \<Rightarrow> path \<Rightarrow> unit \<Rightarrow> nat \<Rightarrow> mujina_d" where
  "mujina_handle b api_port d _ child =
     \<lparr>mj_child = child, mj_tempdir = d, mj_api_addr = localhost api_port, mj_pool_url = mjb_pool_url b\<rparr>"

definition mujina_prepare :: "mujina_builder \<Rightarrow> (mujina_error, mujina_d) io" where
  "mujina_prepare b =
     with_exe MujinaBinaryNotFound (\<lambda>w. (mujina_find_exe b (host w), w)) (\<lambda>x.
       io_bind mujina_allocate_free_port (\<lambda>api_port.
         launch (\<lambda>e. MujinaSpawn (''failed to create tempdir: '' @ e)) MujinaSpawn x
           (\<lambda>d. create_dir_all (\<lambda>e. MujinaSpawn (''failed to create XDG config dir: '' @ e)) (path_join d ''config''))
           (\<lambda>d _. []) (\<lambda>d _. mujina_env b api_port d) (mujina_handle b api_port)))"

definition mujina_wait_for_ready :: "mujina_d \<Rightarrow> nat \<Rightarrow> os \<Rightarrow> ((mujina_error, unit) result \<times> os) option" where
  "mujina_wait_for_ready s timeout =
     ready_loop MujinaExitedDuringStartup MujinaReadinessTimeout (port_up (snd (mj_api_addr s))) 100 (mj_child s) timeout"

definition mujina_drop :: "mujina_d \<Rightarrow> os \<Rightarrow> os option" where
  "mujina_drop s = release (mj_tempdir s) (mj_child s)"

definition mujina_build :: "mujina_builder \<Rightarrow> os \<Rightarrow> ((mujina_error, mujina_d) result \<times> os) option" where
  "mujina_build b = await_ready (mujina_prepare b) (\<lambda>s. mujina_wait_for_ready s (mjb_ready_timeout b)) mujina_drop"

section \<open>The spawner contract\<close>

lemma jdc_configure_inside: "io_rel (inside d) (jdc_configure b d)"
  unfolding jdc_configure_def jdc_allocate_free_port_def by (intro inside_intros)

lemma jdc_configure_no_Panic: "jdc_configure b d w \<noteq> (Panic, w')"
  unfolding jdc_configure_def jdc_allocate_free_port_def by (intro io_bind_no_Panic) simp_all

interpretation jd: spawner "jdc_prepare b" "\<lambda>s. jdc_wait_for_ready s (jdb_ready_timeout b)"
    jd_tempdir jd_child "jdb_ready_timeout b" for b
proof
  show "acquires jd_tempdir jd_child (jdc_prepare b)"
    unfolding jdc_prepare_def
    by (intro acquires_with_exe acquires_launch jdc_configure_inside jdc_configure_no_Panic)
      (simp_all add: jdc_handle_def still_def onward_def)
qed (unfold jdc_wait_for_ready_def, rule port100.ready_total)

lemma jdc_build_is: "jdc_build b = jd.build b"
  unfolding jdc_build_def jd.build_def jdc_drop_def ..

lemma translator_configure_inside: "io_rel (inside d) (translator_configure b d)"
  unfolding translator_configure_def translator_allocate_free_port_def by (intro inside_intros)

lemma translator_configure_no_Panic: "translator_configure b d w \<noteq> (Panic, w')"
  unfolding translator_configure_def translator_allocate_free_port_def by (intro io_bind_no_Panic) simp_all

interpretation tr: spawner "translator_prepare b" "\<lambda>s. translator_wait_for_ready s (trb_ready_timeout b)"
    tr_tempdir tr_child "trb_ready_timeout b" for b
proof
  show "acquires tr_tempdir tr_child (translator_prepare b)"
    unfolding translator_prepare_def
    by (intro acquires_with_exe acquires_launch translator_configure_inside translator_configure_no_Panic)
      (simp_all add: translator_handle_def still_def onward_def)
qed (unfold translator_wait_for_ready_def, rule port100.ready_total)

lemma translator_build_is: "translator_build b = tr.build b"
  unfolding translator_build_def tr.build_def translator_drop_def ..

lemma allocate_port_still: "still w (snd (allocate_port wrap w))"
  by (auto simp: allocate_port_def bind_port_def local_addr_def io_bind_def os_call_def still_def onward_def
      split: option.splits)

interpretation mj: spawner "mujina_prepare b" "\<lambda>s. mujina_wait_for_ready s (mjb_ready_timeout b)"
    mj_tempdir mj_child "mjb_ready_timeout b" for b
proof
  show "acquires mj_tempdir mj_child (mujina_prepare b)"
    unfolding mujina_prepare_def mujina_allocate_free_port_def
    by (intro acquires_with_exe acquires_bind acquires_launch allocate_port_still inside_intros)
      (simp_all add: mujina_handle_def still_def onward_def)
qed (unfold mujina_wait_for_ready_def, rule port100.ready_total)

lemma mujina_build_is: "mujina_build b = mj.build b"
  unfolding mujina_build_def mj.build_def mujina_drop_def ..

section \<open>What the configuration files say\<close>

lemma jdc_plain_names [simp]: "plain (jdc_network_to_name n)" "plain (jdc_address_for_network n)"
  by (cases n; simp add: plain_literal_simps)+

lemma jdc_toml_wf:
  assumes "plain_dir (jdb_bitcoin_data_dir b)" "plain (jdb_user_identity b)"
    "plain (fst (sv_mining_addr (jdb_upstream b)))" "plain (fst (sv_jds_addr (jdb_upstream b)))"
  shows "list_all wf_item (jdc_toml b l m)"
  using assms
  by (auto simp: jdc_toml_def Let_def data_dir_items_def toml_wf_simps plain_dir_def split: option.splits)

lemma jdc_toml_values:
  "toml_get [] (jdc_toml b l m) [] ''listening_address'' = Some (show_addr (localhost l))"
  "toml_get [] (jdc_toml b l m) [] ''user_identity'' = Some (jdb_user_identity b)"
  "toml_get [] (jdc_toml b l m) [] ''authority_public_key'' = Some test_authority_public_key"
  "toml_get [] (jdc_toml b l m) ''upstreams'' ''authority_pubkey'' = Some test_authority_public_key"
  "toml_get [] (jdc_toml b l m) ''upstreams'' ''pool_address'' = Some (fst (sv_mining_addr (jdb_upstream b)))"
  "toml_get [] (jdc_toml b l m) ''upstreams'' ''pool_port'' = Some (show_port (snd (sv_mining_addr (jdb_upstream b))))"
  "toml_get [] (jdc_toml b l m) ''upstreams'' ''jds_address'' = Some (fst (sv_jds_addr (jdb_upstream b)))"
  "toml_get [] (jdc_toml b l m) ''upstreams'' ''jds_port'' = Some (show_port (snd (sv_jds_addr (jdb_upstream b))))"
  by (simp_all add: jdc_toml_def Let_def)

lemma translator_toml_wf:
  assumes "plain (trb_user_identity b)" "plain (fst (jd_listening_addr (trb_upstream b)))"
    "plain (trb_min_individual_miner_hashrate b)" "trb_min_individual_miner_hashrate b \<noteq> []"
    "plain (trb_shares_per_minute b)" "trb_shares_per_minute b \<noteq> []"
  shows "list_all wf_item (translator_toml b l m)"
  using assms by (simp add: translator_toml_def Let_def toml_wf_simps)

lemma translator_toml_values:
  "toml_get [] (translator_toml b l m) [] ''downstream_port'' = Some (show_port l)"
  "toml_get [] (translator_toml b l m) ''upstreams'' ''address'' = Some (fst (jd_listening_addr (trb_upstream b)))"
  "toml_get [] (translator_toml b l m) ''upstreams'' ''port'' = Some (show_port (snd (jd_listening_addr (trb_upstream b))))"
  "toml_get [] (translator_toml b l m) ''upstreams'' ''authority_pubkey'' = Some test_authority_public_key"
  by (simp_all add: translator_toml_def Let_def)

lemma jdc_build_Ok:
  assumes "tidy w" and "jdc_build b w = Some (Ok s, w')"
  obtains m q where "dm_get (files w') (jd_config_path s) = Some (render (jdc_toml b (snd (jd_listening_addr s)) m))"
    "jd_listening_addr s = localhost (snd (jd_listening_addr s))"
    "procs w' = q # procs w" "pid q = jd_child s" "alive q" "cmd_args q = [''-c'', path_display (jd_config_path s)]"
    "\<exists>v. port_up (snd (jd_listening_addr s)) v = (True, w')"
    "\<exists>v. holds (jd_tempdir s) (jd_child s) w v \<and> watches (jd_child s) v w'"
proof -
  from assms(2) obtain v where v: "jdc_prepare b w = (Ok s, v)"
    "jdc_wait_for_ready s (jdb_ready_timeout b) v = Some (Ok (), w')" "watches (jd_child s) v w'"
    unfolding jdc_build_is by (rule jd.build_Ok_cases)
  from v(2) have pr: "procs w' = procs v" and up: "\<exists>u. port_up (snd (jd_listening_addr s)) u = (True, w')"
    unfolding jdc_wait_for_ready_def by (auto dest: port100.ready_Ok_procs port100.ready_Ok_up)
  have fl: "files w' = files v" using v(3) by (simp add: watches_def)
  obtain x d c p w1 w2 where s: "s = jdc_handle d c p" and h: "holds d p w v" and
    c: "jdc_configure b d w1 = (Ok c, w2)" "files v = files w2" and
    q: "procs v = \<lparr>pid = p, exe = x, cmd_args = [''-c'', path_display (path_join d ''jdc-config.toml'')],
        cmd_env = [], alive = True\<rparr> # procs w"
    using prepared_Ok [OF assms(1) jdc_configure_inside v(1) [unfolded jdc_prepare_def]] by metis
  from c(1) have "dm_get (files w2) (path_join d ''jdc-config.toml'') = Some (render (jdc_toml b (fst c) (snd c)))"
    by (auto simp: jdc_configure_def jdc_allocate_free_port_def io_bind_Ok_iff io_return_def dest!: call_files)
  with s h c(2) q pr fl up v(3) show ?thesis
    by (intro that [of "snd c" "hd (procs v)"]) (auto simp: jdc_handle_def localhost_def)
qed

lemma translator_build_Ok:
  assumes "tidy w" and "translator_build b w = Some (Ok s, w')"
  obtains m q where
    "dm_get (files w') (tr_config_path s) = Some (render (translator_toml b (snd (tr_downstream_addr s)) m))"
    "procs w' = q # procs w" "pid q = tr_child s" "alive q" "cmd_args q = [''-c'', path_display (tr_config_path s)]"
    "\<exists>v. port_up (snd (tr_downstream_addr s)) v = (True, w')"
    "\<exists>v. holds (tr_tempdir s) (tr_child s) w v \<and> watches (tr_child s) v w'"
proof -
  from assms(2) obtain v where v: "translator_prepare b w = (Ok s, v)"
    "translator_wait_for_ready s (trb_ready_timeout b) v = Some (Ok (), w')" "watches (tr_child s) v w'"
    unfolding translator_build_is by (rule tr.build_Ok_cases)
  from v(2) have pr: "procs w' = procs v" and up: "\<exists>u. port_up (snd (tr_downstream_addr s)) u = (True, w')"
    unfolding translator_wait_for_ready_def by (auto dest: port100.ready_Ok_procs port100.ready_Ok_up)
  have fl: "files w' = files v" using v(3) by (simp add: watches_def)
  obtain x d c p w1 w2 where s: "s = translator_handle d c p" and h: "holds d p w v" and
    c: "translator_configure b d w1 = (Ok c, w2)" "files v = files w2" and
    q: "procs v = \<lparr>pid = p, exe = x, cmd_args = [''-c'', path_display (path_join d ''translator-config.toml'')],
        cmd_env = [], alive = True\<rparr> # procs w"
    using prepared_Ok [OF assms(1) translator_configure_inside v(1) [unfolded translator_prepare_def]] by metis
  from c(1) have "dm_get (files w2) (path_join d ''translator-config.toml'') =
      Some (render (translator_toml b (fst c) (snd c)))"
    by (auto simp: translator_configure_def translator_allocate_free_port_def io_bind_Ok_iff io_return_def
        dest!: call_files)
  with s h c(2) q pr fl up v(3) show ?thesis
    by (intro that [of "snd c" "hd (procs v)"]) (auto simp: translator_handle_def localhost_def)
qed

end
