(* ===== verification/Testenv_Stack.thy ===== *)
theory Testenv_Stack
  imports Testenv_Miners
begin

text \<open>
  What the five spawners promise together: every \<open>build\<close> returns, in bounded time, and either hands
  over a running daemon or leaves no process and no file behind; the daemons of a stack are wired to
  each other; and the search for a binary takes the first candidate in a fixed order.
\<close>

section \<open>The order of the binary search\<close>

fun ancestors :: "nat \<Rightarrow> path \<Rightarrow> path list" where
  "ancestors 0 p = []"
| "ancestors (Suc n) p = (case path_pop p of None \<Rightarrow> [] | Some q \<Rightarrow> q # ancestors n q)"

lemma find_append: "find P (xs @ ys) = or_else (find P xs) (find P ys)"
  by (induction xs) auto

lemma find_up_flat: "find_up f cands n p = find f (concat (map cands (ancestors n p)))"
proof (induction n arbitrary: p)
  case (Suc n)
  show ?case
    by (cases "path_pop p"; cases "find f (cands (the (path_pop p)))") (simp_all add: Suc find_append)
qed simp

lemma or_else_Some_iff: "or_else a b = Some x \<longleftrightarrow> a = Some x \<or> a = None \<and> b = Some x"
  by (cases a) auto



section \<open>Properties\<close>

text \<open>
  C37: every \<open>build\<close> of the five spawners returns: the readiness loops end even when the child never
  exits and its port never accepts. The outcome is a handle or an error; a panic only when the ready
  timeout is so large that the deadline, the clock plus the timeout, is not representable as an instant.
  The condition is that the kill signal reaches the child: otherwise the destructor waits for a child
  that may never exit.
\<close>

theorem spawn_terminates:
  assumes "tidy w" and "killable w"
  shows "(\<exists>r w'. p2poolv2_build pb w = Some (r, w') \<and> (r = Panic \<longrightarrow> instant_end \<le> clock w' + pvb_ready_timeout pb)) \<and>
    (\<exists>r w'. sv2_build sb w = Some (r, w') \<and> (r = Panic \<longrightarrow> instant_end \<le> clock w' + svb_ready_timeout sb)) \<and>
    (\<exists>r w'. jdc_build jb w = Some (r, w') \<and> (r = Panic \<longrightarrow> instant_end \<le> clock w' + jdb_ready_timeout jb)) \<and>
    (\<exists>r w'. translator_build tb w = Some (r, w') \<and> (r = Panic \<longrightarrow> instant_end \<le> clock w' + trb_ready_timeout tb)) \<and>
    (\<exists>r w'. mujina_build mb w = Some (r, w') \<and> (r = Panic \<longrightarrow> instant_end \<le> clock w' + mjb_ready_timeout mb))"
  unfolding p2poolv2_build_is sv2_build_is jdc_build_is translator_build_is mujina_build_is
  using pv.build_returns [OF assms] sv.build_returns [OF assms] jd.build_returns [OF assms]
    tr.build_returns [OF assms] mj.build_returns [OF assms] by blast

text \<open>A host that never lets a child become ready, and one whose child dies at once.\<close>

definition deaf_host :: host where
  "deaf_host = quiet_host\<lparr>accepts := (\<lambda>_ _. False), connect_time := (\<lambda>_. 1000)\<rparr>"

lemma sample_timeout: "svb_ready_timeout sample_builder < instant_end"
  by (simp add: sample_builder_def sv2_new_def with_low_difficulty_def sv2_with_exe_def instant_end_def
      default_sv2_p2pool_ready_timeout_def)

definition dying_host :: host where
  "dying_host = quiet_host\<lparr>child_exits := (\<lambda>_. True)\<rparr>"

theorem spawn_terminates_witness:
  "\<exists>r w'. sv2_build sample_builder (start_os deaf_host) = Some (r, w') \<and>
     (case r of Panic \<Rightarrow> instant_end \<le> clock w' + default_sv2_p2pool_ready_timeout | _ \<Rightarrow> True)"
proof -
  have "killable (start_os deaf_host)" by (simp add: killable_def deaf_host_def)
  moreover have "svb_ready_timeout sample_builder = default_sv2_p2pool_ready_timeout"
    by (simp add: sample_builder_def sv2_new_def with_low_difficulty_def sv2_with_exe_def)
  ultimately show ?thesis
    using spawn_terminates [of "start_os deaf_host" undefined sample_builder undefined undefined undefined]
    by (fastforce split: result.splits)
qed

text \<open>
  A timeout that does not fit (\<open>Duration::MAX\<close> has more than \<open>2\<^sup>6\<^sup>3\<close> seconds) makes a build panic once the
  child runs.
\<close>

lemma huge_timeout_panics:
  assumes "instant_end \<le> svb_ready_timeout b" and "sv2_prepare b w = (Ok s, w')"
  shows "sv2_build b w = map_option (Pair Panic) (sv2_drop s w')"
  using assms by (simp add: sv2_build_def await_ready_def sv2_wait_for_ready_def ready_loop_overflow)

text \<open>
  C38: a readiness wait overshoots its timeout by at most one pause, one probe and the latency of the
  calls in them: with calls of latency at most \<open>l\<close> it returns within \<open>timeout\<close> plus 150 ms and 3 \<open>l\<close>
  (\<open>p2poolv2\<close>), 200 ms and 3 \<open>l\<close> (\<open>jd_client_sv2\<close>, \<open>translator_sv2\<close>, \<open>mujina\<close>) or 300 ms and 4 \<open>l\<close>
  (\<open>sv2-p2pool\<close>, which probes two ports). Each of the five waits reports success only after a probe in
  which its port (both ports, for \<open>sv2-p2pool\<close>) accepted, an exit only when the child is dead, and a
  timeout only once the timeout has elapsed; it panics only when the deadline is not representable.
\<close>

theorem readiness_wait_bounded:
  assumes "calm l w"
  shows "(\<forall>s r w'. p2poolv2_wait_for_ready s t w = Some (r, w') \<longrightarrow> clock w' \<le> clock w + t + 150 + 3 * l \<and>
      waited (port_up (snd (pv_api_addr s))) ExitedDuringStartup (ReadinessTimeout t) (pv_child s) t w r w') \<and>
    (\<forall>s r w'. sv2_wait_for_ready s t w = Some (r, w') \<longrightarrow> clock w' \<le> clock w + t + 300 + 4 * l \<and>
      waited (both_up (snd (sv_jds_addr s)) (snd (sv_metrics_addr s))) ExitedDuringStartup (ReadinessTimeout t)
        (sv_child s) t w r w') \<and>
    (\<forall>s r w'. jdc_wait_for_ready s t w = Some (r, w') \<longrightarrow> clock w' \<le> clock w + t + 200 + 3 * l \<and>
      waited (port_up (snd (jd_listening_addr s))) ExitedDuringStartup (ReadinessTimeout t) (jd_child s) t w r w') \<and>
    (\<forall>s r w'. translator_wait_for_ready s t w = Some (r, w') \<longrightarrow> clock w' \<le> clock w + t + 200 + 3 * l \<and>
      waited (port_up (snd (tr_downstream_addr s))) ExitedDuringStartup (ReadinessTimeout t) (tr_child s) t w r w') \<and>
    (\<forall>s r w'. mujina_wait_for_ready s t w = Some (r, w') \<longrightarrow> clock w' \<le> clock w + t + 200 + 3 * l \<and>
      waited (port_up (snd (mj_api_addr s))) MujinaExitedDuringStartup (MujinaReadinessTimeout t) (mj_child s) t w r w')"
  unfolding p2poolv2_wait_for_ready_def sv2_wait_for_ready_def jdc_wait_for_ready_def
    translator_wait_for_ready_def mujina_wait_for_ready_def
  by (intro conjI allI impI)
    (use port50.ready_by [OF assms] both100.ready_by [OF assms] port100.ready_by [OF assms] in fastforce,
      rule port50.ready_outcome both100.ready_outcome port100.ready_outcome, assumption)+

lemma deaf_never_ready: "\<exists>r w'. sv2_wait_for_ready s t (start_os deaf_host) = Some (r, w')"
  unfolding sv2_wait_for_ready_def by (rule both100.ready_returns)

definition sample_handle :: sv2_p2pool_d where
  "sample_handle =
     sv2_handle (path_of ''/tmp/t'') \<lparr>c_jds = 1, c_mining = 2, c_monitoring = 3, c_metrics = 4,
       c_share_chain = sv2_share_chain_conf sample_builder (path_of ''/tmp/t'') 5 6 7 8\<rparr> 9"

theorem readiness_wait_bounded_witness:
  "\<exists>r w'. sv2_wait_for_ready sample_handle 1000 (start_os deaf_host) = Some (r, w') \<and> clock w' \<le> 1304 \<and>
     r \<in> {Ok (), Err ExitedDuringStartup, Err (ReadinessTimeout 1000)}"
proof -
  obtain r w' where r: "sv2_wait_for_ready sample_handle 1000 (start_os deaf_host) = Some (r, w')"
    using deaf_never_ready by blast
  have "calm 1 (start_os deaf_host)" by (simp add: calm_def deaf_host_def)
  from readiness_wait_bounded [OF this, of 1000] r
  have "clock w' \<le> 1304" "waited (both_up (snd (sv_jds_addr sample_handle)) (snd (sv_metrics_addr sample_handle)))
      ExitedDuringStartup (ReadinessTimeout 1000) (sv_child sample_handle) 1000 (start_os deaf_host) r w'"
    by fastforce+
  with r show ?thesis by (auto simp: waited_def instant_end_def)
qed

text \<open>
  C36: a \<open>build\<close> that fails, at whatever step and even by a panic, leaves no process running that was not
  running before and no file or directory that was not there before, and dropping the handle of a \<open>build\<close>
  that succeeded returns and has the same effect, even when the child exits in between. The conditions
  are that the system delivers the kill signal and lets the harness wait for the child, and, for the
  files and directories, that it removes what it is asked to remove (the destructor of the temporary
  directory ignores a removal that fails); no process is left in any case.
\<close>

theorem spawn_leaves_nothing:
  assumes "tidy w" and "killable w" and "waitable w"
  shows "(\<forall>r w'. p2poolv2_build pb w = Some (r, w') \<longrightarrow>
      (case r of Ok s \<Rightarrow> \<forall>v. watches (pv_child s) w' v \<longrightarrow> (\<exists>u. p2poolv2_drop s v = Some u \<and> restored w u) | _ \<Rightarrow> restored w w')) \<and>
    (\<forall>r w'. sv2_build sb w = Some (r, w') \<longrightarrow>
      (case r of Ok s \<Rightarrow> \<forall>v. watches (sv_child s) w' v \<longrightarrow> (\<exists>u. sv2_drop s v = Some u \<and> restored w u) | _ \<Rightarrow> restored w w')) \<and>
    (\<forall>r w'. jdc_build jb w = Some (r, w') \<longrightarrow>
      (case r of Ok s \<Rightarrow> \<forall>v. watches (jd_child s) w' v \<longrightarrow> (\<exists>u. jdc_drop s v = Some u \<and> restored w u) | _ \<Rightarrow> restored w w')) \<and>
    (\<forall>r w'. translator_build tb w = Some (r, w') \<longrightarrow>
      (case r of Ok s \<Rightarrow> \<forall>v. watches (tr_child s) w' v \<longrightarrow> (\<exists>u. translator_drop s v = Some u \<and> restored w u) | _ \<Rightarrow> restored w w')) \<and>
    (\<forall>r w'. mujina_build mb w = Some (r, w') \<longrightarrow>
      (case r of Ok s \<Rightarrow> \<forall>v. watches (mj_child s) w' v \<longrightarrow> (\<exists>u. mujina_drop s v = Some u \<and> restored w u) | _ \<Rightarrow> restored w w'))"
  unfolding p2poolv2_build_is sv2_build_is jdc_build_is translator_build_is mujina_build_is
    p2poolv2_drop_def sv2_drop_def jdc_drop_def translator_drop_def mujina_drop_def
  by (intro conjI allI impI pv.build_leaves [OF assms] sv.build_leaves [OF assms] jd.build_leaves [OF assms]
      tr.build_leaves [OF assms] mj.build_leaves [OF assms])

lemma dying_build: "\<exists>w'. sv2_build sample_builder (start_os dying_host) = Some (Err ExitedDuringStartup, w')"
proof -
  have "\<exists>s w1. sv2_prepare sample_builder (start_os dying_host) = (Ok s, w1) \<and> host w1 = dying_host \<and> clock w1 = 0"
    by (simp add: sv2_run_simps sample_builder_def sv2_new_def with_low_difficulty_def sv2_with_exe_def
        dying_host_def)
  then obtain s w1 where p: "sv2_prepare sample_builder (start_os dying_host) = (Ok s, w1)"
    and h: "host w1 = dying_host" and c: "clock w1 = 0" by blast
  have "\<exists>v. ready_probe ExitedDuringStartup (both_up (snd (sv_jds_addr s)) (snd (sv_metrics_addr s))) (sv_child s) w1 =
      (Some (Err ExitedDuringStartup), v) \<and> host v = dying_host"
    using h by (simp add: ready_probe_def try_wait_def dying_host_def)
  then obtain v where v: "ready_probe ExitedDuringStartup (both_up (snd (sv_jds_addr s)) (snd (sv_metrics_addr s)))
      (sv_child s) w1 = (Some (Err ExitedDuringStartup), v)" "host v = dying_host" by blast
  then have "killable v" by (simp add: killable_def dying_host_def)
  then obtain u where "sv2_drop s v = Some u" unfolding sv2_drop_def using release_returns by blast
  moreover have "sv2_wait_for_ready s (svb_ready_timeout sample_builder) w1 = Some (Err ExitedDuringStartup, v)"
    unfolding sv2_wait_for_ready_def using ready_loop_hit [OF v(1)] c sample_timeout by simp
  ultimately show ?thesis
    using p by (simp add: sv2_build_def await_ready_def)
qed

theorem spawn_leaves_nothing_witness:
  "\<exists>w'. sv2_build sample_builder (start_os dying_host) = Some (Err ExitedDuringStartup, w') \<and>
     live w' = [] \<and> files w' = dm_empty \<and> dirs w' = []"
proof -
  obtain w' where w': "sv2_build sample_builder (start_os dying_host) = Some (Err ExitedDuringStartup, w')"
    using dying_build by blast
  have "killable (start_os dying_host)" "waitable (start_os dying_host)"
    by (simp_all add: killable_def waitable_def dying_host_def)
  from spawn_leaves_nothing [OF start_os_tidy this, of undefined sample_builder undefined undefined undefined] w'
  have "restored (start_os dying_host) w'" by auto
  moreover have "removable (start_os dying_host)" by (simp add: removable_def dying_host_def)
  ultimately show ?thesis using w' by (auto simp: restored_def live_def)
qed










text \<open>
  the search for the daemon's binary is a linear scan. An explicit path, then the environment
  variable, are taken as they are; otherwise the result is the first existing file in the list of
  \<open>target/debug\<close> and \<open>target/release\<close> under the three nearest ancestors of the manifest directory,
  nearest first, followed by the directories of \<open>PATH\<close> in order. The translator's search visits both
  of its target roots for one profile before the next profile.
\<close>

lemma binary_search_order:
  "sv2_find_exe b h =
     (case svb_exe b of
        Some x \<Rightarrow> Some x
      | None \<Rightarrow>
          (case env_var h ''SV2_P2POOL_EXE'' of
             Some v \<Rightarrow> Some (path_of v)
           | None \<Rightarrow> find (is_file h)
               ((case env_var h ''CARGO_MANIFEST_DIR'' of
                   None \<Rightarrow> []
                 | Some m \<Rightarrow> [path_joins a [''target'', profile, ''sv2-p2pool'']. a \<leftarrow> ancestors 3 (path_of m),
                                profile \<leftarrow> [''debug'', ''release'']]) @
                (case env_var h ''PATH'' of
                   None \<Rightarrow> []
                 | Some v \<Rightarrow> [path_join d ''sv2-p2pool''. d \<leftarrow> split_paths v])))) \<and>
   find_translator_in_sv2_apps_target h =
     (case env_var h ''CARGO_MANIFEST_DIR'' of
        None \<Rightarrow> None
      | Some m \<Rightarrow> find (is_file h)
          [path_joins a (root @ [profile, ''translator_sv2'']). a \<leftarrow> ancestors 3 (path_of m),
             profile \<leftarrow> [''debug'', ''release''],
             root \<leftarrow> [[''vendor'', ''sv2-apps'', ''miner-apps'', ''target''], [''vendor'', ''sv2-apps'', ''target'']]])"
  by (simp add: sv2_find_exe_def find_sv2_p2pool_in_workspace_target_def find_translator_in_sv2_apps_target_def
      find_from_manifest_def find_up_flat workspace_candidates_def [abs_def] translator_candidates_def [abs_def] which_compat_def
      find_append path_joins_def map_concat comp_def split: option.splits)

end
