(* ===== verification/Testenv_Scrape.thy ===== *)
theory Testenv_Scrape
  imports Testenv_Process Metrics_Endpoint
begin

text \<open>
  \<open>crates/sv2-p2pool-testenv/src/sv2_p2pool_d.rs\<close>, the scraping side of the handle: the minimal HTTP
  client, the metric lookup and the two waiting loops. The answers of one TCP conversation are a
  record; \<open>String::from_utf8_lossy\<close> is a parameter. The client is checked against the server model
  of \<open>Metrics_Endpoint\<close>.
\<close>

record conversation =
  cv_connect :: "string + unit"
  cv_set_timeout :: "string + unit"
  cv_write :: "string + unit"
  cv_read :: "string + string"

definition scrape_request :: string where
  "scrape_request =
     ''GET /metrics HTTP/1.1'' @ crlf @ ''Host: localhost'' @ crlf @ ''Connection: close'' @ crlf @ crlf"

definition split_nth1 :: "string \<Rightarrow> string \<Rightarrow> string option" where
  "split_nth1 sep s =
     (case split_once sep s of
        None \<Rightarrow> None
      | Some (_, rest) \<Rightarrow> Some (case split_once sep rest of None \<Rightarrow> rest | Some (b, _) \<Rightarrow> b))"

definition scrape_http_metrics :: "(string \<Rightarrow> string) \<Rightarrow> conversation \<Rightarrow> (string, string) result" where
  "scrape_http_metrics lossy c =
     rbind (sum_result id (cv_connect c)) (\<lambda>_.
     rbind (sum_result id (cv_set_timeout c)) (\<lambda>_.
     rbind (sum_result id (cv_write c)) (\<lambda>_.
     rbind (sum_result id (cv_read c)) (\<lambda>response.
     Ok (case split_nth1 (crlf @ crlf) (lossy response) of Some b \<Rightarrow> b | None \<Rightarrow> [])))))"

fun scan_metric :: "string \<Rightarrow> string list \<Rightarrow> nat option" where
  "scan_metric name [] = None"
| "scan_metric name (l # ls) =
     (if l = [] \<or> hd l = CHR ''#'' then scan_metric name ls
      else case rsplit_once (CHR '' '') l of
             None \<Rightarrow> scan_metric name ls
           | Some (lhs, rhs) \<Rightarrow> if lhs = name then parse_u64 rhs else scan_metric name ls)"

definition scrape_metric_value :: "(string \<Rightarrow> string) \<Rightarrow> conversation \<Rightarrow> string \<Rightarrow> (string, nat option) result" where
  "scrape_metric_value lossy c name =
     rbind (scrape_http_metrics lossy c) (\<lambda>body. Ok (scan_metric name (str_lines body)))"

section \<open>Waiting for a metric\<close>

text \<open>
  The clock, the number of scrapes so far and the state of the caller's \<open>FnMut\<close> predicate; what each
  scrape answers, how long it takes and by how much each sleep overshoots are functions of the number
  of the scrape.
\<close>

record 's watch =
  now_ms :: nat
  scrapes :: nat
  pred_state :: 's

definition metric_probe ::
  "(string \<Rightarrow> string) \<Rightarrow> (nat \<Rightarrow> conversation) \<Rightarrow> (nat \<Rightarrow> nat) \<Rightarrow> (string \<Rightarrow> 's \<Rightarrow> bool \<times> 's) \<Rightarrow>
   's watch \<Rightarrow> (string, bool) result option \<times> 's watch" where
  "metric_probe lossy answers took predicate w =
     (let n = scrapes w; w1 = w\<lparr>scrapes := Suc n, now_ms := now_ms w + took n\<rparr> in
      case scrape_http_metrics lossy (answers n) of
        Ok body \<Rightarrow>
          (let (hit, s) = predicate body (pred_state w1); w2 = w1\<lparr>pred_state := s\<rparr>
           in if hit then (Some (Ok True), w2) else (None, w2))
      | Err e \<Rightarrow> (Some (Err e), w1)
      | Panic \<Rightarrow> (Some Panic, w1))"

definition metric_nap :: "(nat \<Rightarrow> nat) \<Rightarrow> 's watch \<Rightarrow> 's watch" where
  "metric_nap late w = w\<lparr>now_ms := now_ms w + 200 + late (scrapes w)\<rparr>"

definition wait_for_metric ::
  "(string \<Rightarrow> string) \<Rightarrow> (nat \<Rightarrow> conversation) \<Rightarrow> (nat \<Rightarrow> nat) \<Rightarrow> (nat \<Rightarrow> nat) \<Rightarrow> (string \<Rightarrow> 's \<Rightarrow> bool \<times> 's) \<Rightarrow>
   nat \<Rightarrow> 's watch \<Rightarrow> ((string, bool) result \<times> 's watch) option" where
  "wait_for_metric lossy answers took late predicate timeout w =
     (case deadline_after (now_ms w) timeout of
        None \<Rightarrow> Some (Panic, w)
      | Some deadline \<Rightarrow>
          (case poll_loop (metric_probe lossy answers took predicate) now_ms (metric_nap late) deadline w of
             None \<Rightarrow> None
           | Some (Some r, w') \<Rightarrow> Some (r, w')
           | Some (None, w') \<Rightarrow> Some (Ok False, w')))"

definition wait_for_monitoring_metric ::
  "(string \<Rightarrow> string) \<Rightarrow> (nat \<Rightarrow> conversation) \<Rightarrow> (nat \<Rightarrow> nat) \<Rightarrow> (nat \<Rightarrow> nat) \<Rightarrow> (string \<Rightarrow> 's \<Rightarrow> bool \<times> 's) \<Rightarrow>
   nat \<Rightarrow> 's watch \<Rightarrow> ((string, bool) result \<times> 's watch) option" where
  "wait_for_monitoring_metric lossy monitoring_answers = wait_for_metric lossy monitoring_answers"

definition brisk :: "(nat \<Rightarrow> nat) \<Rightarrow> (nat \<Rightarrow> nat) \<Rightarrow> nat \<Rightarrow> 's watch \<Rightarrow> bool" where
  "brisk took late l w = (\<forall>n. took n \<le> l \<and> late n \<le> l)"

lemma scrape_no_Panic: "scrape_http_metrics lossy c \<noteq> Panic"
  by (auto simp: scrape_http_metrics_def rbind_Panic_iff)

interpretation metric: polling "metric_probe lossy answers took predicate" now_ms "metric_nap late" 200
    "brisk took late" "\<lambda>l. l" "\<lambda>l. 200 + l" for lossy answers took late predicate
  by unfold_locales
    (auto simp: metric_probe_def metric_nap_def brisk_def Let_def split: result.splits prod.splits)

section \<open>Reading a response\<close>

lemma has_blank_line_mono: "has_blank_line a \<Longrightarrow> has_blank_line (a @ b)"
  by (induction a rule: has_blank_line.induct) auto

lemma request_prefix: "has_blank_line (take n scrape_request) \<Longrightarrow> length scrape_request \<le> n"
proof (rule ccontr)
  assume blank: "has_blank_line (take n scrape_request)" and "\<not> length scrape_request \<le> n"
  then have n: "n \<le> length scrape_request - 1" by simp
  have "take (length scrape_request - 1) scrape_request =
      take n scrape_request @ take (length scrape_request - 1 - n) (drop n scrape_request)"
    using n by (metis le_add_diff_inverse take_add)
  with has_blank_line_mono [OF blank] have "has_blank_line (take (length scrape_request - 1) scrape_request)"
    by metis
  then show False by (simp add: scrape_request_def crlf_def)
qed

lemma request_blank: "has_blank_line scrape_request"
  by (simp add: scrape_request_def crlf_def)

lemma request_length: "length scrape_request < buf_len"
  by (simp add: scrape_request_def crlf_def buf_len_def)

lemma read_request_chunks:
  assumes "buf @ concat chunks = scrape_request" and "chunks \<noteq> []" and "[] \<notin> set chunks"
  shows "read_request buf (map Inr chunks) = Inr scrape_request"
  using assms
proof (induction chunks arbitrary: buf)
  case (Cons c cs)
  let ?b = "buf @ c"
  have len: "length ?b \<le> length scrape_request"
    using Cons.prems(1) by (metis append_assoc concat.simps(2) length_append le_add1)
  then have "length buf < buf_len" and fit: "take (buf_len - length buf) c = c"
    using request_length by simp_all
  have b: "?b = take (length ?b) scrape_request"
    using Cons.prems(1) by (metis append_assoc append_eq_conv_conj concat.simps(2))
  have "c \<noteq> []" using Cons.prems(3) by auto
  show ?case
  proof (cases cs)
    case Nil
    with Cons.prems fit \<open>length buf < buf_len\<close> request_blank show ?thesis
      by (simp add: read_request.simps [of buf] Let_def)
  next
    case (Cons d ds)
    with Cons.prems have "length ?b < length scrape_request"
      by (auto simp flip: Cons.prems(1))
    with request_prefix b have "\<not> has_blank_line ?b" by (metis not_le)
    with Cons.prems fit \<open>length buf < buf_len\<close> \<open>c \<noteq> []\<close> show ?thesis
      using Cons.IH [of ?b] Cons by (simp add: read_request.simps [of buf] Let_def)
  qed
qed simp

lemma request_path_metrics: "valid scrape_request \<Longrightarrow> request_path valid scrape_request = ''/metrics''"
  by (simp add: request_path_def first_line_def scrape_request_def crlf_def second_word_def word_at_front_def
      is_ws_def Let_def)

lemma split_once_line:
  "cr \<notin> set l \<Longrightarrow> split_once (crlf @ crlf) (l @ t) = map_option (\<lambda>(a, b). (l @ a, b)) (split_once (crlf @ crlf) t)"
proof (induction l)
  case Nil
  then show ?case by (simp add: option.map_ident_strong split_beta)
next
  case (Cons c l)
  then have "\<not> prefix (crlf @ crlf) (c # l @ t)" by (auto simp: crlf_def)
  with Cons show ?case
    by (simp add: split_once_skip option.map_comp comp_def split_beta)
qed

lemma split_once_crlf:
  assumes "t \<noteq> []" "hd t \<noteq> cr"
  shows "split_once (crlf @ crlf) (crlf @ t) = map_option (\<lambda>(a, b). (crlf @ a, b)) (split_once (crlf @ crlf) t)"
proof -
  have "\<not> prefix (crlf @ crlf) (cr # nl # t)" "\<not> prefix (crlf @ crlf) (nl # t)"
    using assms by (cases t; auto simp: crlf_def)+
  then have "split_once (crlf @ crlf) (cr # nl # t) =
      map_option (\<lambda>(a, b). (cr # nl # a, b)) (split_once (crlf @ crlf) t)"
    by (simp add: split_once_skip option.map_comp comp_def case_prod_beta')
  then show ?thesis by (simp add: crlf_def)
qed

lemma split_once_head:
  assumes "ls \<noteq> []" and "\<forall>l \<in> set ls. l \<noteq> [] \<and> cr \<notin> set l"
  shows "split_once (crlf @ crlf) (sep_join crlf ls @ crlf @ crlf @ rest) = Some (sep_join crlf ls, rest)"
  using assms
proof (induction crlf ls rule: sep_join.induct)
  case (2 w)
  then show ?case
    using split_once_line [of w "crlf @ crlf @ rest"] split_once_here [of "crlf @ crlf" rest] by simp
next
  case (3 w v ws)
  let ?t = "sep_join crlf (v # ws) @ crlf @ crlf @ rest"
  have "?t \<noteq> []" by (simp add: crlf_def)
  moreover have "hd ?t \<noteq> cr"
    using 3(3) by (cases v; cases ws) auto
  ultimately show ?case
    using 3 split_once_line [of w "crlf @ ?t"] split_once_crlf [of ?t] by simp
qed simp

lemma split_once_None: "cr \<notin> set s \<Longrightarrow> split_once (crlf @ crlf) s = None"
proof (induction s)
  case Nil
  then show ?case by (subst split_once.simps) (simp add: crlf_def)
next
  case (Cons c s)
  then have "\<not> prefix (crlf @ crlf) (c # s)" by (auto simp: crlf_def)
  with Cons show ?case by (simp add: split_once_skip)
qed

lemma reason_no_cr: "cr \<notin> set (reason_phrase n)"
  by (simp add: reason_phrase_def)

lemma digits_no_cr: "cr \<notin> set (digits n)"
  by (rule digit_notin_digits) (simp add: is_digit_def)

lemma response_split:
  assumes "cr \<notin> set ct"
  shows "\<exists>head. split_once (crlf @ crlf) (write_status status ct body) = Some (head, body)"
proof -
  let ?ls = "[''HTTP/1.1 '' @ digits status @ '' '' @ reason_phrase status, ''Content-Type: '' @ ct,
      ''Content-Length: '' @ digits (length body), ''Connection: close'']"
  have "write_status status ct body = sep_join crlf ?ls @ crlf @ crlf @ body"
    by (simp add: write_status_def)
  moreover have "split_once (crlf @ crlf) (sep_join crlf ?ls @ crlf @ crlf @ body) = Some (sep_join crlf ?ls, body)"
    using assms by (intro split_once_head) (simp_all add: reason_no_cr digits_no_cr)
  ultimately show ?thesis by simp
qed

lemma split_response:
  assumes "cr \<notin> set ct" and "cr \<notin> set body"
  shows "split_nth1 (crlf @ crlf) (write_status status ct body) = Some body"
  using response_split [OF assms(1), of status body] split_once_None [OF assms(2)]
  by (auto simp: split_nth1_def)

lemma scan_metric_found:
  assumes "name \<noteq> []" "hd name \<noteq> CHR ''#''" and "\<forall>l \<in> set pre. rsplit_once (CHR '' '') l \<noteq> Some (name, snd (the (rsplit_once (CHR '' '') l)))"
  shows "scan_metric name (pre @ (name @ '' '' @ digits n) # post) = (if n < 2 ^ 64 then Some n else None)"
proof -
  have "CHR '' '' \<notin> set (digits n)"
    by (rule digit_notin_digits) (simp add: is_digit_def)
  then have "rsplit_once (CHR '' '') (name @ '' '' @ digits n) = Some (name, digits n)"
    using rsplit_once_app [of "CHR '' ''" "digits n" name] by simp
  then have here: "scan_metric name ((name @ '' '' @ digits n) # post) = (if n < 2 ^ 64 then Some n else None)"
    using assms(1,2) by (simp add: parse_u64_digits)
  show ?thesis
    using assms(3)
  proof (induction pre)
    case Nil
    show ?case using here by simp
  next
    case (Cons l pre)
    then show ?case by (auto split: option.splits)
  qed
qed

section \<open>Properties\<close>

definition metric_line :: "string \<Rightarrow> string \<Rightarrow> bool" where
  "metric_line name l = (\<exists>v. rsplit_once (CHR '' '') l = Some (name, v))"

text \<open>
  C40: a metric scraped from the daemon's own endpoint is the one the encoder wrote. However the
  kernel splits the client's request, the endpoint reads it whole and answers with the encoded body;
  the client cuts exactly that body out of the response, and the first line whose left-hand side is
  the requested name (labels included) gives its value. A value that does not fit \<open>u64\<close> reads as
  absent. The encoder writes no carriage return, as the Prometheus text format prescribes.
\<close>

theorem scrape_roundtrip:
  assumes "concat chunks = scrape_request" "[] \<notin> set chunks" "valid_utf8 scrape_request"
    and "handle_one valid_utf8 (Inr body) fmt (map Inr chunks) = Inr response"
    and "lossy response = response"
    and "body = unlines (pre @ (name @ '' '' @ digits n) # post)"
    and "\<forall>l \<in> set (pre @ (name @ '' '' @ digits n) # post). nl \<notin> set l \<and> cr \<notin> set l" and "cr \<notin> set fmt"
    and "\<forall>l \<in> set pre. \<not> metric_line name l" and "name \<noteq> []" "hd name \<noteq> CHR ''#''"
  shows "scrape_metric_value lossy \<lparr>cv_connect = Inr (), cv_set_timeout = Inr (), cv_write = Inr (), cv_read = Inr response\<rparr> name =
      Ok (if n < 2 ^ 64 then Some n else None)"
proof -
  have "chunks \<noteq> []" using assms(1) by (auto simp: scrape_request_def)
  with assms(1,2) have "read_request [] (map Inr chunks) = Inr scrape_request"
    using read_request_chunks [of "[]" chunks] by simp
  then have resp: "response = write_status 200 fmt body"
    using assms(4) request_path_metrics [of valid_utf8, OF assms(3)] by (simp add: handle_one_def respond_def)
  have "cr \<notin> set body"
    using assms(7) by (auto simp: assms(6) unlines_def)
  with assms(8) have "split_nth1 (crlf @ crlf) response = Some body"
    unfolding resp by (rule split_response)
  moreover have "str_lines body = pre @ (name @ '' '' @ digits n) # post"
    unfolding assms(6) by (rule str_lines_unlines [OF assms(7)])
  moreover have "scan_metric name (pre @ (name @ '' '' @ digits n) # post) = (if n < 2 ^ 64 then Some n else None)"
    using assms(9,10,11) by (intro scan_metric_found) (auto simp: metric_line_def)
  ultimately show ?thesis
    using assms(5) by (simp add: scrape_metric_value_def scrape_http_metrics_def)
qed

definition sample_metrics :: string where
  "sample_metrics = unlines [''# TYPE blocks counter'', ''blocks 7'', ''jobs 0'']"

theorem scrape_roundtrip_witness:
  "\<exists>response.
     handle_one (\<lambda>_. True) (Inr sample_metrics) ''text/plain''
       [Inr (take 10 scrape_request), Inr (drop 10 scrape_request)] = Inr response \<and>
     scrape_metric_value (\<lambda>s. s) \<lparr>cv_connect = Inr (), cv_set_timeout = Inr (), cv_write = Inr (), cv_read = Inr response\<rparr>
       ''blocks'' = Ok (Some 7)"
proof -
  let ?cs = "[take 10 scrape_request, drop 10 scrape_request]"
  have cs: "concat ?cs = scrape_request" "[] \<notin> set ?cs" "?cs \<noteq> []"
    by (simp_all add: scrape_request_def)
  have "read_request [] (map Inr ?cs) = Inr scrape_request"
    using read_request_chunks [of "[]" ?cs] cs by simp
  then obtain response where r: "handle_one (\<lambda>_. True) (Inr sample_metrics) ''text/plain'' (map Inr ?cs) = Inr response"
    by (simp add: handle_one_def split_beta)
  have d: "digits 7 = ''7''" by (simp add: digits.simps digit_chars)
  have "scrape_metric_value (\<lambda>s. s) \<lparr>cv_connect = Inr (), cv_set_timeout = Inr (), cv_write = Inr (), cv_read = Inr response\<rparr>
      ''blocks'' = Ok (if 7 < (2 :: nat) ^ 64 then Some 7 else None)"
    by (rule scrape_roundtrip [OF cs(1,2) _ r, of _ "[''# TYPE blocks counter'']" "''blocks''" 7 "[''jobs 0'']"])
      (simp_all add: sample_metrics_def d metric_line_def rsplit_once_def)
  with r show ?thesis by auto
qed

text \<open>
  waiting for a metric always returns: with the error of the first scrape that fails, with true
  when the caller's predicate accepts a body that was just scraped, or with false once the timeout has
  elapsed; and never later than the timeout, one pause of 200 ms and two slowest calls. It panics
  exactly when the deadline is not representable.
\<close>

lemma metric_wait_outcome:
  "\<exists>r w'. wait_for_metric lossy answers took late predicate timeout w = Some (r, w') \<and>
     (r = Ok True \<and> (\<exists>k body s. scrape_http_metrics lossy (answers k) = Ok body \<and> predicate body s = (True, pred_state w')) \<or>
      r = Ok False \<and> now_ms w + timeout \<le> now_ms w' \<or>
      (\<exists>k e. r = Err e \<and> scrape_http_metrics lossy (answers k) = Err e) \<or> r = Panic) \<and>
     (r = Panic \<longleftrightarrow> instant_end \<le> now_ms w + timeout) \<and>
     (brisk took late l w \<longrightarrow> now_ms w' \<le> now_ms w + timeout + 200 + 2 * l)"
proof (cases "instant_end \<le> now_ms w + timeout")
  case True
  then show ?thesis by (simp add: wait_for_metric_def deadline_after_def)
next
  case False
  let ?loop = "poll_loop (metric_probe lossy answers took predicate) now_ms (metric_nap late) (now_ms w + timeout)"
  obtain a w' where loop: "?loop w = Some (a, w')"
    using metric.returns [of lossy answers took predicate late "now_ms w + timeout" w] by blast
  have time: "brisk took late l w \<longrightarrow> now_ms w' \<le> now_ms w + timeout + 200 + 2 * l"
    using metric.returns_by [OF _ loop, of l] by auto
  have run: "wait_for_metric lossy answers took late predicate timeout w =
      (case a of Some r \<Rightarrow> Some (r, w') | None \<Rightarrow> Some (Ok False, w'))"
    using loop False by (simp add: wait_for_metric_def deadline_after_def split: option.splits)
  show ?thesis
  proof (cases a)
    case None
    with metric.gives_up_late loop have "now_ms w + timeout \<le> now_ms w'" by blast
    with None run time False show ?thesis by simp
  next
    case (Some r)
    with metric.result_from_probe loop obtain v where v: "metric_probe lossy answers took predicate v = (Some r, w')"
      by metis
    then have "(r = Ok True \<and> (\<exists>k body s. scrape_http_metrics lossy (answers k) = Ok body \<and> predicate body s = (True, pred_state w'))) \<or>
        (\<exists>k e. r = Err e \<and> scrape_http_metrics lossy (answers k) = Err e)"
      using scrape_no_Panic [of lossy "answers (scrapes v)"]
      by (auto simp: metric_probe_def Let_def split: result.splits prod.splits if_splits)
    with Some run time False show ?thesis by auto
  qed
qed

definition slow_metrics :: "nat \<Rightarrow> conversation" where
  "slow_metrics n =
     \<lparr>cv_connect = (if n < 3 then Inr () else Inl ''refused''), cv_set_timeout = Inr (), cv_write = Inr (),
      cv_read = Inr (write_status 200 ''text/plain'' sample_metrics)\<rparr>"

theorem metric_wait_outcome_witness:
  "\<exists>r w'. wait_for_metric (\<lambda>s. s) slow_metrics (\<lambda>_. 5) (\<lambda>_. 1) (\<lambda>body k. (2 \<le> k, Suc k)) 10000
      \<lparr>now_ms = 0, scrapes = 0, pred_state = 0 :: nat\<rparr> = Some (r, w') \<and> now_ms w' \<le> 10210"
proof -
  let ?w = "\<lparr>now_ms = 0, scrapes = 0, pred_state = 0 :: nat\<rparr>"
  have "brisk (\<lambda>_. 5) (\<lambda>_. 1) 5 ?w" by (simp add: brisk_def)
  with metric_wait_outcome [of "\<lambda>s. s" slow_metrics "\<lambda>_. 5" "\<lambda>_. 1" "\<lambda>body k. (2 \<le> k, Suc k)" 10000 ?w 5]
  show ?thesis by auto
qed

end
