(* ===== verification/Testenv_Harness.thy ===== *)
theory Testenv_Harness
  imports Testenv_P2pool
begin

text \<open>
  \<open>crates/sv2-p2pool-testenv/src/lib.rs\<close>: the harness around one \<open>bitcoind\<close>. The crate \<open>corepc-node\<close>
  is a parameter: its lookup of the binary, the start of the node from a configuration, and the
  answers of its RPC client. A string that is sliced by byte offsets is the list of its UTF-8 bytes.
\<close>

datatype test_env_error =
    BitcoindStart string
  | Rpc string
  | Timeout string
  | P2poolV2Err string

record test_env =
  te_bitcoind :: bitcoind
  te_ipc_socket_path :: "path option"
  te_staticdir :: "path option"

record test_env_builder =
  teb_bitcoind_exe :: "string option"
  teb_enable_ipcbind :: bool
  teb_network :: network

record node_conf =
  conf_args :: "string list"
  conf_network :: string
  conf_staticdir :: "path option"

definition test_env_builder_new :: test_env_builder where
  "test_env_builder_new = \<lparr>teb_bitcoind_exe = None, teb_enable_ipcbind = False, teb_network = Regtest\<rparr>"

definition with_bitcoind_exe :: "string \<Rightarrow> test_env_builder \<Rightarrow> test_env_builder" where
  "with_bitcoind_exe p b = b\<lparr>teb_bitcoind_exe := Some p\<rparr>"

definition with_ipcbind :: "test_env_builder \<Rightarrow> test_env_builder" where
  "with_ipcbind b = b\<lparr>teb_enable_ipcbind := True\<rparr>"

definition te_with_network :: "network \<Rightarrow> test_env_builder \<Rightarrow> test_env_builder" where
  "te_with_network n b = b\<lparr>teb_network := n\<rparr>"

fun bitcoind_network_arg :: "network \<Rightarrow> string" where
  "bitcoind_network_arg Bitcoin = ''-chain=main''"
| "bitcoind_network_arg Testnet = ''-testnet''"
| "bitcoind_network_arg Testnet4 = ''-testnet4''"
| "bitcoind_network_arg Signet = ''-signet''"
| "bitcoind_network_arg Regtest = ''-regtest''"

fun bitcoind_network_subdir :: "network \<Rightarrow> string" where
  "bitcoind_network_subdir Bitcoin = ''''"
| "bitcoind_network_subdir Testnet = ''testnet3''"
| "bitcoind_network_subdir Testnet4 = ''testnet4''"
| "bitcoind_network_subdir Signet = ''signet''"
| "bitcoind_network_subdir Regtest = ''regtest''"

definition ipc_socket :: "network \<Rightarrow> path \<Rightarrow> path" where
  "ipc_socket n dir = path_join (path_join dir (bitcoind_network_subdir n)) ''node.sock''"

definition prepare_staticdir :: "test_env_builder \<Rightarrow> (test_env_error, path option) io" where
  "prepare_staticdir b =
     (if teb_enable_ipcbind b
      then io_bind (tempdir (\<lambda>e. BitcoindStart (''staticdir: '' @ e))) (\<lambda>dir.
           io_bind (create_dir_all (\<lambda>e. BitcoindStart (''network subdir: '' @ e))
                      (path_join dir (bitcoind_network_subdir (teb_network b)))) (\<lambda>_.
           io_return (Some dir)))
      else io_return None)"

definition node_conf_for :: "test_env_builder \<Rightarrow> path option \<Rightarrow> node_conf" where
  "node_conf_for b dir =
     \<lparr>conf_args = [bitcoind_network_arg (teb_network b), ''-fallbackfee=0.0001''] @
        (case dir of None \<Rightarrow> [] | Some d \<Rightarrow> [''-ipcbind=unix:'' @ path_display (ipc_socket (teb_network b) d)]),
      conf_network = bitcoind_network_subdir (teb_network b), conf_staticdir = dir\<rparr>"

definition test_env_build ::
  "(string + string) \<Rightarrow> (string \<Rightarrow> node_conf \<Rightarrow> string + bitcoind) \<Rightarrow> test_env_builder \<Rightarrow> (test_env_error, test_env) io" where
  "test_env_build exe_path with_conf b =
     io_bind (io_lift (case teb_bitcoind_exe b of
                         Some p \<Rightarrow> Ok p
                       | None \<Rightarrow> sum_result BitcoindStart exe_path)) (\<lambda>x.
     io_bind (prepare_staticdir b) (\<lambda>dir.
     io_bind (io_lift (sum_result BitcoindStart (with_conf x (node_conf_for b dir)))) (\<lambda>node.
     io_return \<lparr>te_bitcoind = node, te_ipc_socket_path = map_option (ipc_socket (teb_network b)) dir,
                te_staticdir = dir\<rparr>)))"

definition test_env_new :: "(string + string) \<Rightarrow> (string \<Rightarrow> node_conf \<Rightarrow> string + bitcoind) \<Rightarrow> (test_env_error, test_env) io" where
  "test_env_new exe_path with_conf = test_env_build exe_path with_conf test_env_builder_new"

definition test_env_drop :: "test_env \<Rightarrow> os \<Rightarrow> os" where
  "test_env_drop e w = (case te_staticdir e of None \<Rightarrow> w | Some dir \<Rightarrow> drop_tempdir dir w)"

text \<open>\<open>with_p2poolv2\<close> keeps only the text of the error; \<open>fmt\<close> is the \<open>Debug\<close> text of a duration.\<close>

fun p2poolv2_error_text :: "(nat \<Rightarrow> string) \<Rightarrow> p2poolv2_error \<Rightarrow> string" where
  "p2poolv2_error_text fmt BinaryNotFound =
     ''p2poolv2 binary not found: set P2POOLV2_EXE env var or place `p2poolv2` on PATH''"
| "p2poolv2_error_text fmt (PortAllocation e) = ''failed to allocate a free TCP port: '' @ e"
| "p2poolv2_error_text fmt (Tempdir e) = ''failed to create tempdir: '' @ e"
| "p2poolv2_error_text fmt (WriteConfig e) = ''failed to write p2pool config: '' @ e"
| "p2poolv2_error_text fmt (Spawn e) = ''failed to spawn p2poolv2: '' @ e"
| "p2poolv2_error_text fmt (ReadinessTimeout t) = ''p2poolv2 did not become ready within '' @ fmt t"
| "p2poolv2_error_text fmt ExitedDuringStartup = ''p2poolv2 exited during startup''"

definition with_p2poolv2 ::
  "(nat \<Rightarrow> string) \<Rightarrow> test_env \<Rightarrow> os \<Rightarrow> ((test_env_error, p2poolv2d) result \<times> os) option" where
  "with_p2poolv2 fmt e w =
     map_option (\<lambda>(r, w'). (map_err (\<lambda>x. P2poolV2Err (p2poolv2_error_text fmt x)) r, w'))
       (p2poolv2_build (p2poolv2_new (te_bitcoind e)) w)"

section \<open>Mining\<close>

definition hex_value :: "char \<Rightarrow> nat option" where
  "hex_value c =
     (let n = of_char c in
      if 48 \<le> n \<and> n \<le> 57 then Some (n - 48)
      else if 97 \<le> n \<and> n \<le> 102 then Some (n - 87)
      else if 65 \<le> n \<and> n \<le> 70 then Some (n - 55)
      else None)"

definition is_continuation :: "char \<Rightarrow> bool" where
  "is_continuation c = (128 \<le> (of_char c :: nat) \<and> (of_char c :: nat) < 192)"

definition u8_from_hex2 :: "char \<Rightarrow> char \<Rightarrow> byte option" where
  "u8_from_hex2 a b =
     (if a = CHR ''+'' then map_option of_nat (hex_value b)
      else case (hex_value a, hex_value b) of
             (Some x, Some y) \<Rightarrow> Some (of_nat (16 * x + y))
           | _ \<Rightarrow> None)"

fun hex_pairs :: "string \<Rightarrow> (string, bytes) result" where
  "hex_pairs [] = Ok []"
| "hex_pairs [a] = Panic"
| "hex_pairs (a # b # rest) =
     (if is_continuation a \<or> (rest \<noteq> [] \<and> is_continuation (hd rest)) then Panic
      else case u8_from_hex2 a b of
             None \<Rightarrow> Err ''invalid digit found in string''
           | Some v \<Rightarrow> rbind (hex_pairs rest) (\<lambda>vs. Ok (v # vs)))"

definition parse_hash_hex :: "string \<Rightarrow> (test_env_error, bytes) result" where
  "parse_hash_hex hex =
     rbind (map_err (\<lambda>e. Rpc (''bad hash hex: '' @ e)) (hex_pairs hex)) (\<lambda>bytes.
       ok_or (Rpc (''hash hex wrong length: '' @ hex)) (to_array32 bytes))"

fun collect_results :: "('a \<Rightarrow> ('e, 'b) result) \<Rightarrow> 'a list \<Rightarrow> ('e, 'b list) result" where
  "collect_results f [] = Ok []"
| "collect_results f (x # xs) = rbind (f x) (\<lambda>y. rbind (collect_results f xs) (\<lambda>ys. Ok (y # ys)))"

definition mine_blocks ::
  "string + string \<Rightarrow> (nat \<Rightarrow> string \<Rightarrow> string + string list) \<Rightarrow> nat \<Rightarrow> (test_env_error, block_hash list) result" where
  "mine_blocks new_address generate_to_address n =
     rbind (sum_result Rpc new_address) (\<lambda>addr.
     rbind (sum_result Rpc (generate_to_address n addr)) (\<lambda>hashes.
     collect_results parse_hash_hex hashes))"

text \<open>The \<open>Display\<close> text of a block hash: hexadecimal, last byte first. It is what \<open>bitcoind\<close> prints
  and what its \<open>invalidateblock\<close> call expects.\<close>

definition hex_char :: "nat \<Rightarrow> char" where
  "hex_char n = (if n < 10 then char_of (48 + n) else char_of (87 + n))"

definition hex_byte :: "byte \<Rightarrow> string" where
  "hex_byte b = [hex_char (unat b div 16), hex_char (unat b mod 16)]"

definition display_hash :: "block_hash \<Rightarrow> string" where
  "display_hash h = concat (map hex_byte (rev h))"

definition invalidate_block :: "(string \<Rightarrow> string + unit) \<Rightarrow> block_hash \<Rightarrow> (test_env_error, unit) result" where
  "invalidate_block invalidateblock h = sum_result Rpc (invalidateblock (display_hash h))"

section \<open>Waiting for a height\<close>

definition show_int :: "int \<Rightarrow> string" where
  "show_int i = (if i < 0 then ''-'' @ digits (nat (- i)) else digits (nat i))"

text \<open>The state of the loop: the time since its start in milliseconds and the number of RPC calls so
  far; what a call answers and takes, and how long a sleep lasts beyond 50 ms, depend on that number.\<close>

partial_function (option) height_loop ::
  "(nat \<Rightarrow> string) \<Rightarrow> (nat \<Rightarrow> string + int) \<Rightarrow> (nat \<Rightarrow> nat) \<Rightarrow> (nat \<Rightarrow> nat) \<Rightarrow> int \<Rightarrow> nat \<Rightarrow> nat \<Rightarrow> nat \<Rightarrow>
   ((test_env_error, unit) result \<times> nat) option" where
  "height_loop fmt info took late expected timeout elapsed k =
     (if elapsed < timeout
      then case info k of
             Inl e \<Rightarrow> Some (Err (Rpc e), elapsed + took k)
           | Inr blocks \<Rightarrow>
               if expected \<le> blocks then Some (Ok (), elapsed + took k)
               else height_loop fmt info took late expected timeout (elapsed + took k + 50 + late k) (Suc k)
      else Some (Err (Timeout (''tip never reached height '' @ show_int expected @ '' within '' @ fmt timeout)), elapsed))"

definition wait_until_height ::
  "(nat \<Rightarrow> string) \<Rightarrow> (nat \<Rightarrow> string + int) \<Rightarrow> (nat \<Rightarrow> nat) \<Rightarrow> (nat \<Rightarrow> nat) \<Rightarrow> int \<Rightarrow> nat \<Rightarrow>
   ((test_env_error, unit) result \<times> nat) option" where
  "wait_until_height fmt info took late expected timeout = height_loop fmt info took late expected timeout 0 0"

section \<open>Lemmas\<close>

lemma hex_char_code: "n < 16 \<Longrightarrow> (of_char (hex_char n) :: nat) = (if n < 10 then 48 + n else 87 + n)"
  by (simp add: hex_char_def of_char_of)

lemma hex_value_char: "n < 16 \<Longrightarrow> hex_value (hex_char n) = Some n"
  by (simp add: hex_value_def hex_char_code Let_def)

lemma hex_char_plain: "n < 16 \<Longrightarrow> hex_char n \<noteq> CHR ''+'' \<and> \<not> is_continuation (hex_char n)"
  using hex_char_code [of n] by (auto simp: is_continuation_def split: if_splits)

lemma unat_byte: "unat (b :: byte) div 16 < 16" "unat b mod 16 < 16"
proof -
  have "unat b < 2 ^ LENGTH(8)" by (rule unsigned_less)
  then show "unat b div 16 < 16" "unat b mod 16 < 16" by simp_all
qed

lemma u8_from_hex_byte: "u8_from_hex2 (hex_char (unat b div 16)) (hex_char (unat b mod 16)) = Some b"
  using unat_byte [of b] hex_char_plain by (simp add: u8_from_hex2_def hex_value_char)

lemma hex_pairs_encode: "hex_pairs (concat (map hex_byte bs)) = Ok bs"
proof (induction bs)
  case (Cons b bs)
  have "concat (map hex_byte bs) = [] \<or> \<not> is_continuation (hd (concat (map hex_byte bs)))"
    using hex_char_plain unat_byte(1) by (cases bs) (simp_all add: hex_byte_def)
  moreover have "concat (map hex_byte (b # bs)) =
      hex_char (unat b div 16) # hex_char (unat b mod 16) # concat (map hex_byte bs)"
    by (simp add: hex_byte_def)
  ultimately show ?case
    using Cons hex_char_plain [OF unat_byte(1) [of b]] by (auto simp: u8_from_hex_byte)
qed simp

lemma parse_display: "length h = 32 \<Longrightarrow> parse_hash_hex (display_hash h) = Ok (rev h)"
  by (simp add: parse_hash_hex_def display_hash_def hex_pairs_encode to_array32_def)

lemma collect_results_map: "(\<And>x. x \<in> set xs \<Longrightarrow> f (g x) = Ok (h x)) \<Longrightarrow> collect_results f (map g xs) = Ok (map h xs)"
  by (induction xs) auto

lemma hex_byte_inject: "concat (map hex_byte a) = concat (map hex_byte b) \<Longrightarrow> a = b"
  using hex_pairs_encode by (metis result.inject(1))

lemma height_loop_stop:
  "timeout \<le> elapsed \<Longrightarrow> height_loop fmt info took late expected timeout elapsed k =
     Some (Err (Timeout (''tip never reached height '' @ show_int expected @ '' within '' @ fmt timeout)), elapsed)"
  by (subst height_loop.simps) simp

lemma height_loop_go:
  "elapsed < timeout \<Longrightarrow> height_loop fmt info took late expected timeout elapsed k =
     (case info k of
        Inl e \<Rightarrow> Some (Err (Rpc e), elapsed + took k)
      | Inr blocks \<Rightarrow>
          if expected \<le> blocks then Some (Ok (), elapsed + took k)
          else height_loop fmt info took late expected timeout (elapsed + took k + 50 + late k) (Suc k))"
  by (subst height_loop.simps) simp

text \<open>Poll \<open>m\<close> happens in time and finds the height, and no earlier one ended the loop.\<close>

definition reached_at :: "(nat \<Rightarrow> string + int) \<Rightarrow> (nat \<Rightarrow> nat) \<Rightarrow> (nat \<Rightarrow> nat) \<Rightarrow> int \<Rightarrow> nat \<Rightarrow> nat \<Rightarrow> nat \<Rightarrow> nat \<Rightarrow> bool" where
  "reached_at info took late expected timeout elapsed k m =
     (k \<le> m \<and> elapsed + (\<Sum>i = k..<m. took i + 50 + late i) < timeout \<and>
      (\<forall>i. k \<le> i \<and> i < m \<longrightarrow> (\<exists>b. info i = Inr b \<and> b < expected)) \<and> (\<exists>b. info m = Inr b \<and> expected \<le> b))"

lemma reached_at_here:
  assumes "info k = Inr b"
  shows "(\<exists>m. reached_at info took late expected timeout elapsed k m) \<longleftrightarrow>
    elapsed < timeout \<and>
    (expected \<le> b \<or> (\<exists>m. reached_at info took late expected timeout (elapsed + took k + 50 + late k) (Suc k) m))"
proof
  assume "\<exists>m. reached_at info took late expected timeout elapsed k m"
  then obtain m where m: "reached_at info took late expected timeout elapsed k m" by blast
  show "elapsed < timeout \<and>
    (expected \<le> b \<or> (\<exists>m. reached_at info took late expected timeout (elapsed + took k + 50 + late k) (Suc k) m))"
  proof (cases "m = k")
    case True
    with m assms show ?thesis by (auto simp: reached_at_def)
  next
    case False
    with m have "Suc k \<le> m" "(\<Sum>i = k..<m. took i + 50 + late i) =
        (took k + 50 + late k) + (\<Sum>i = Suc k..<m. took i + 50 + late i)"
      by (auto simp: reached_at_def sum.atLeast_Suc_lessThan)
    with m have "reached_at info took late expected timeout (elapsed + took k + 50 + late k) (Suc k) m"
      by (auto simp: reached_at_def)
    with m show ?thesis by (auto simp: reached_at_def)
  qed
next
  assume *: "elapsed < timeout \<and>
    (expected \<le> b \<or> (\<exists>m. reached_at info took late expected timeout (elapsed + took k + 50 + late k) (Suc k) m))"
  show "\<exists>m. reached_at info took late expected timeout elapsed k m"
  proof (cases "expected \<le> b")
    case True
    with * assms show ?thesis by (intro exI [of _ k]) (auto simp: reached_at_def)
  next
    case False
    with * obtain m where m: "reached_at info took late expected timeout (elapsed + took k + 50 + late k) (Suc k) m"
      by blast
    then have "(\<Sum>i = k..<m. took i + 50 + late i) =
        (took k + 50 + late k) + (\<Sum>i = Suc k..<m. took i + 50 + late i)"
      by (auto simp: reached_at_def sum.atLeast_Suc_lessThan)
    with m False assms show ?thesis
      by (intro exI [of _ m]) (auto simp: reached_at_def elim: le_SucE dest: le_imp_less_or_eq)
  qed
qed

lemma height_loop_outcome:
  "\<exists>r t. height_loop fmt info took late expected timeout elapsed k = Some (r, t) \<and> r \<noteq> Panic \<and>
     (r = Ok () \<longleftrightarrow> (\<exists>m. reached_at info took late expected timeout elapsed k m))"
proof (induction "timeout - elapsed" arbitrary: elapsed k rule: less_induct)
  case less
  show ?case
  proof (cases "elapsed < timeout")
    case False
    then show ?thesis by (auto simp: height_loop_stop reached_at_def)
  next
    case True
    show ?thesis
    proof (cases "info k")
      case (Inl e)
      have "\<not> reached_at info took late expected timeout elapsed k m" for m
        using Inl by (cases "m = k") (auto simp: reached_at_def intro!: exI [of _ k])
      with True Inl show ?thesis by (simp add: height_loop_go)
    next
      case (Inr b)
      have "\<exists>r t. height_loop fmt info took late expected timeout (elapsed + took k + 50 + late k) (Suc k) = Some (r, t) \<and>
          r \<noteq> Panic \<and>
          (r = Ok () \<longleftrightarrow> (\<exists>m. reached_at info took late expected timeout (elapsed + took k + 50 + late k) (Suc k) m))"
        by (rule less) (use True in simp)
      with True Inr show ?thesis
        by (auto simp: height_loop_go reached_at_here [of info k b])
    qed
  qed
qed

section \<open>Properties\<close>

text \<open>
  \<open>wait_until_height\<close> always returns, and returns \<open>Ok\<close> exactly when some poll that starts before
  the timeout sees the expected height and every earlier poll answered with a lower one; so a timeout
  of zero never polls and never succeeds, and the first RPC error ends the wait.
\<close>

lemma wait_until_height_outcome:
  "\<exists>r t. wait_until_height fmt info took late expected timeout = Some (r, t) \<and> r \<noteq> Panic \<and>
     (r = Ok () \<longleftrightarrow>
        (\<exists>m b. (\<Sum>i<m. took i + 50 + late i) < timeout \<and> info m = Inr b \<and> expected \<le> b \<and>
           (\<forall>i<m. \<exists>c. info i = Inr c \<and> c < expected)))"
proof -
  have "(\<exists>m. reached_at info took late expected timeout 0 0 m) \<longleftrightarrow>
     (\<exists>m b. (\<Sum>i<m. took i + 50 + late i) < timeout \<and> info m = Inr b \<and> expected \<le> b \<and>
           (\<forall>i<m. \<exists>c. info i = Inr c \<and> c < expected))"
    by (auto simp: reached_at_def lessThan_atLeast0)
  with height_loop_outcome [of fmt info took late expected timeout 0 0] show ?thesis
    unfolding wait_until_height_def by simp
qed

theorem wait_until_height_outcome_witness:
  "\<exists>t. wait_until_height (\<lambda>_. ''1s'') (\<lambda>k. Inr (100 + int k)) (\<lambda>_. 5) (\<lambda>_. 0) 101 1000 = Some (Ok (), t)"
proof -
  have "\<exists>m b. (\<Sum>i<m. 5 + 50 + (0 :: nat)) < 1000 \<and> (Inr (100 + int m) :: string + int) = Inr b \<and> 101 \<le> b \<and>
      (\<forall>i<m. \<exists>c. (Inr (100 + int i) :: string + int) = Inr c \<and> c < 101)"
    by (intro exI [of _ 1] exI [of _ 101]) simp
  with wait_until_height_outcome [of "\<lambda>_. ''1s''" "\<lambda>k. Inr (100 + int k)" "\<lambda>_. 5" "\<lambda>_. 0" 101 1000]
  show ?thesis by auto
qed

text \<open>
  \<open>mine_blocks\<close> returns every hash byte-reversed. For the hashes \<open>hs\<close> of the mined blocks, which
  \<open>bitcoind\<close> prints last byte first, it returns \<open>map rev hs\<close>; handing one of them back to
  \<open>invalidate_block\<close> names the intended block only if its hash is a palindrome of bytes.
\<close>

lemma mined_hashes_reversed:
  assumes "new_address = Inr addr" and "generate n addr = Inr (map display_hash hs)"
    and "\<forall>h \<in> set hs. length h = 32"
  shows "mine_blocks new_address generate n = Ok (map rev hs) \<and>
    (\<forall>h \<in> set hs. invalidate_block invalidateblock (rev h) = sum_result Rpc (invalidateblock (concat (map hex_byte h))) \<and>
      (concat (map hex_byte h) = display_hash h \<longleftrightarrow> rev h = h))"
proof -
  have "collect_results parse_hash_hex (map display_hash hs) = Ok (map rev hs)"
    using assms(3) by (intro collect_results_map) (simp add: parse_display)
  moreover have "concat (map hex_byte h) = display_hash h \<longleftrightarrow> rev h = h" for h
    using hex_byte_inject [of h "rev h"] by (auto simp: display_hash_def)
  ultimately show ?thesis
    using assms(1,2) by (simp add: mine_blocks_def invalidate_block_def display_hash_def)
qed

theorem mined_hashes_reversed_witness:
  "mine_blocks (Inr ''bcrt1q'') (\<lambda>n a. Inr [display_hash (1 # replicate 31 0)]) 1 = Ok [replicate 31 0 @ [1]] \<and>
   rev (1 # replicate 31 0 :: bytes) \<noteq> 1 # replicate 31 0"
  using mined_hashes_reversed [of "Inr ''bcrt1q''" "''bcrt1q''" "\<lambda>n a. Inr [display_hash (1 # replicate 31 0)]" 1
      "[1 # replicate 31 0]" "\<lambda>_. Inr ()"]
  by (simp add: numeral_eq_Suc)

text \<open>
  the static directory of the harness. With \<open>with_ipcbind\<close> the node is started with the socket
  \<open><dir>/<network>/node.sock\<close>, the path that the handle reports, and dropping the handle removes the
  directory; but when the start of the node fails after the directory was created, no destructor owns
  it any more and it stays.
\<close>

lemma test_env_staticdir:
  assumes "tidy w" and "teb_enable_ipcbind b" and "failure (host w) (calls w) = None"
    and "failure (host w) (Suc (calls w)) = None" and "teb_bitcoind_exe b = Some x"
  shows "let d = tempdir_given (host w) (calls w); socket = ipc_socket (teb_network b) d;
             conf = \<lparr>conf_args = [bitcoind_network_arg (teb_network b), ''-fallbackfee=0.0001'',
                                 ''-ipcbind=unix:'' @ path_display socket],
                     conf_network = bitcoind_network_subdir (teb_network b), conf_staticdir = Some d\<rparr>;
             (r, w') = test_env_build exe_path with_conf b w
         in d \<in> set (dirs w') \<and>
            (case with_conf x conf of
               Inl e \<Rightarrow> r = Err (BitcoindStart e)
             | Inr node \<Rightarrow> \<exists>env. r = Ok env \<and> te_bitcoind env = node \<and> te_ipc_socket_path env = Some socket \<and>
                 (removable w \<longrightarrow> dirs (test_env_drop env w') = dirs w))"
proof -
  let ?d = "tempdir_given (host w) (calls w)"
  let ?sub = "path_join ?d (bitcoind_network_subdir (teb_network b))"
  obtain w' where prep: "prepare_staticdir b w = (Ok (Some ?d), w')" and w': "dirs w' = ?sub # ?d # dirs w"
    and h: "host w' = host w"
    using assms(2-4) by (simp add: prepare_staticdir_def io_bind_def tempdir_def os_call_def create_dir_all_def
        io_return_def Let_def)
  have "dirs (drop_tempdir ?d w') = dirs w" if "removable w"
    using that tidy_retain(2) [OF assms(1) order_refl refl] drop_tempdir_removes(2) [of w' ?d] w' h
    by (simp add: removable_def)
  with prep w' show ?thesis
    by (cases "with_conf x (node_conf_for b (Some ?d))")
      (simp_all add: test_env_build_def io_bind_def io_lift_def assms(5) io_return_def node_conf_for_def
        test_env_drop_def Let_def)
qed

theorem test_env_staticdir_witness:
  "let (r, w') = test_env_build (Inl ''no exe'') (\<lambda>_ _. Inl ''bind failed'')
        (with_ipcbind (with_bitcoind_exe ''/bin/bitcoind'' test_env_builder_new)) (start_os quiet_host)
   in r = Err (BitcoindStart ''bind failed'') \<and> dirs w' \<noteq> []"
  using test_env_staticdir [of "start_os quiet_host" "with_ipcbind (with_bitcoind_exe ''/bin/bitcoind'' test_env_builder_new)"
      "''/bin/bitcoind''" "Inl ''no exe''" "\<lambda>_ _. Inl ''bind failed''"]
  by (auto simp: with_ipcbind_def with_bitcoind_exe_def test_env_builder_new_def Let_def split_beta)

end
