(* ===== verification/Tdp_Pipeline.thy ===== *)
theory Tdp_Pipeline
  imports Tdp_System Tdp_Demux
begin

text \<open>
  The template-distribution path as \<open>Pool::start\<close> wires it: the engine's callers of
  \<open>request_tx_bodies\<close>, the merge task, the template provider, and the tee task that feeds the
  handle and the channel manager. The parts are those of \<open>Tdp_System\<close> and \<open>Tdp_Demux\<close>; here they share
  their channels. The provider is a parameter: \<open>answer t\<close> is its response to a request for template
  \<open>t\<close>, and it may answer in any order and push templates and tips at any time.
\<close>

section \<open>The composed system\<close>

record tdp_pipe =
  p_tdp :: tdp_sys
  p_merge :: merge_state
  tp_read :: nat
  tp_todo :: "u64 list"
  tp_sent :: "tdp_message list"
  tee_in :: "tdp_message list"
  tee_seen :: "tdp_message list"
  tee_alive :: bool
  cm_open :: bool
  cm_in :: "tdp_message list"

definition pipe_new :: tdp_pipe where
  "pipe_new = \<lparr>p_tdp = \<lparr>sys_h = tdp_new, sys_calls = [], sys_log = []\<rparr>, p_merge = merge_new, tp_read = 0,
     tp_todo = [], tp_sent = [], tee_in = [], tee_seen = [], tee_alive = True, cm_open = True, cm_in = []\<rparr>"

definition pipe_start :: "tdp_pipe \<Rightarrow> bool" where
  "pipe_start s \<longleftrightarrow> s = pipe_new"

fun answer_message :: "u64 \<Rightarrow> tx_data_result \<Rightarrow> tdp_message" where
  "answer_message t (TxSuccess l) = RequestTransactionDataSuccess t l"
| "answer_message t (TxError c) = RequestTransactionDataError t c"

fun answers_of :: "tdp_message \<Rightarrow> (u64 \<times> tx_data_result) list" where
  "answers_of (RequestTransactionDataSuccess t l) = [(t, TxSuccess l)]"
| "answers_of (RequestTransactionDataError t c) = [(t, TxError c)]"
| "answers_of _ = []"

fun requests_of :: "tdp_message \<Rightarrow> u64 list" where
  "requests_of (RequestTransactionData t) = [t]"
| "requests_of _ = []"

definition tee_sys :: "tdp_message \<Rightarrow> tdp_sys \<Rightarrow> tdp_sys" where
  "tee_sys m y = y\<lparr>sys_h := tee_observe m (sys_h y), sys_log := sys_log y @ answers_of m\<rparr>"

definition eng_request :: "u64 \<Rightarrow> tdp_handle \<Rightarrow> merge_state \<Rightarrow> merge_state" where
  "eng_request t h m = (if tx_request_closed h then m else eng_push (RequestTransactionData t) m)"

definition send_from_tp :: "tdp_message \<Rightarrow> tdp_pipe \<Rightarrow> tdp_pipe" where
  "send_from_tp m s = s\<lparr>tp_sent := tp_sent s @ [m], tee_in := tee_in s @ [m]\<rparr>"

definition close_requests :: "bool \<Rightarrow> tdp_sys \<Rightarrow> tdp_sys" where
  "close_requests b y = y\<lparr>sys_h := (sys_h y)\<lparr>tx_request_closed := b\<rparr>\<rparr>"

text \<open>
  The tasks of the pipeline itself: the merge, the provider working off what it was asked, the tee.
\<close>

inductive pipe_work :: "(u64 \<Rightarrow> tx_data_result) \<Rightarrow> tdp_pipe \<Rightarrow> tdp_pipe \<Rightarrow> bool" for answer where
  merge: "merge_task (p_merge s) m \<Longrightarrow>
     pipe_work answer s (s\<lparr>p_merge := m, p_tdp := close_requests (eng_closed m) (p_tdp s)\<rparr>)"
| tp_take: "tp_read s < length (tp_out (p_merge s)) \<Longrightarrow>
     pipe_work answer s (s\<lparr>tp_read := Suc (tp_read s),
       tp_todo := tp_todo s @ requests_of (snd (tp_out (p_merge s) ! tp_read s))\<rparr>)"
| tp_answer: "t \<in> set (tp_todo s) \<Longrightarrow>
     pipe_work answer s (send_from_tp (answer_message t (answer t)) (s\<lparr>tp_todo := remove1 t (tp_todo s)\<rparr>))"
| tee_forward: "tee_alive s \<Longrightarrow> tee_in s = m # q \<Longrightarrow> cm_open s \<Longrightarrow>
     pipe_work answer s (s\<lparr>p_tdp := tee_sys m (p_tdp s), tee_in := q, tee_seen := tee_seen s @ [m], cm_in := cm_in s @ [m]\<rparr>)"
| tee_exit: "tee_alive s \<Longrightarrow> tee_in s = m # q \<Longrightarrow> \<not> cm_open s \<Longrightarrow>
     pipe_work answer s (s\<lparr>p_tdp := tee_sys m (p_tdp s), tee_in := q, tee_seen := tee_seen s @ [m], tee_alive := False\<rparr>)"

text \<open>
  Everything: the pipeline's tasks, the callers at the suspension points of \<open>request_tx_bodies\<close>, the
  channel manager's own messages, the provider's unsolicited ones, and channels closing.
\<close>

inductive pipe_step :: "externals \<Rightarrow> (u64 \<Rightarrow> tx_data_result) \<Rightarrow> tdp_pipe \<Rightarrow> tdp_pipe \<Rightarrow> bool"
  for X answer where
  work: "pipe_work answer s s' \<Longrightarrow> pipe_step X answer s s'"
| call: "p_tdp s = y \<Longrightarrow> tdp_register t (sys_h y) = (Ok i, h) \<Longrightarrow>
     pipe_step X answer s (s\<lparr>p_tdp := y\<lparr>sys_h := h, sys_calls := sys_calls y @ [(t, Registered)]\<rparr>\<rparr>)"
| send: "p_tdp s = y \<Longrightarrow> i < length (sys_calls y) \<Longrightarrow> sys_calls y ! i = (t, Registered) \<Longrightarrow>
     tdp_send t (sys_h y) = (r, h) \<Longrightarrow>
     pipe_step X answer s
       (s\<lparr>p_tdp := y\<lparr>sys_h := h, sys_calls := (sys_calls y)[i := (t, after_send r)]\<rparr>,
          p_merge := eng_request t (sys_h y) (p_merge s)\<rparr>)"
| poll: "p_tdp s = y \<Longrightarrow> i < length (sys_calls y) \<Longrightarrow> sys_calls y ! i = (t, Waiting) \<Longrightarrow>
     pipe_step X answer s
       (s\<lparr>p_tdp := y\<lparr>sys_calls := (sys_calls y)[i := (t, Decided (poll_oneshot i (sys_h y)))]\<rparr>\<rparr>)"
| finish: "p_tdp s = y \<Longrightarrow> i < length (sys_calls y) \<Longrightarrow> sys_calls y ! i = (t, Decided oc) \<Longrightarrow>
     finish_wait X t i oc (sys_h y) = (r, h) \<Longrightarrow>
     pipe_step X answer s (s\<lparr>p_tdp := y\<lparr>sys_h := h, sys_calls := (sys_calls y)[i := (t, Done r)]\<rparr>\<rparr>)"
| cm_send: "\<not> cm_closed (p_merge s) \<Longrightarrow> pipe_step X answer s (s\<lparr>p_merge := cm_push m (p_merge s)\<rparr>)"
| tp_push: "answers_of m = [] \<Longrightarrow> pipe_step X answer s (send_from_tp m s)"
| cm_stops_sending: "pipe_step X answer s (s\<lparr>p_merge := (p_merge s)\<lparr>cm_closed := True\<rparr>\<rparr>)"
| cm_stops_receiving: "pipe_step X answer s (s\<lparr>cm_open := False\<rparr>)"
| tp_stops_receiving: "pipe_step X answer s (s\<lparr>p_merge := (p_merge s)\<lparr>tp_closed := True\<rparr>\<rparr>)"
| eng_stops_sending: "pipe_step X answer s
     (s\<lparr>p_merge := (p_merge s)\<lparr>eng_closed := True\<rparr>, p_tdp := close_requests True (p_tdp s)\<rparr>)"

inductive_cases pipe_workE: "pipe_work answer s s'"
inductive_cases pipe_stepE: "pipe_step X answer s s'"

section \<open>The parts inside the whole\<close>

text \<open>
  What the composed system does to the bridge and to the merge are steps of those systems, so their
  invariants carry over.
\<close>

lemma answers_message [simp]: "answers_of (answer_message t r) = [(t, r)]"
  by (cases r) auto

lemma requests_message [simp]: "requests_of (answer_message t r) = []"
  by (cases r) auto

lemma tee_sys_step: "tee_sys m y = y \<or> tdp_step X y (tee_sys m y)"
proof (cases m)
  case (RequestTransactionDataSuccess t l)
  then show ?thesis
    using tdp_step.deliver [of t "TxSuccess l" y "fst (deliver_response t (TxSuccess l) (sys_h y))"]
    by (simp add: tee_sys_def)
next
  case (RequestTransactionDataError t c)
  then show ?thesis
    using tdp_step.deliver [of t "TxError c" y "fst (deliver_response t (TxError c) (sys_h y))"]
    by (simp add: tee_sys_def)
qed (auto simp: tee_sys_def intro: tdp_step.prev_hash tdp_step.template)

definition pipe_parts :: "externals \<Rightarrow> tdp_pipe \<Rightarrow> bool" where
  "pipe_parts X s \<longleftrightarrow> tdp_inv X (p_tdp s) \<and> merge_inv (p_merge s) \<and>
     tx_request_closed (sys_h (p_tdp s)) = eng_closed (p_merge s)"

lemma tdp_inv_close: "tdp_inv X y \<Longrightarrow> tdp_inv X (close_requests b y)"
  by (simp add: tdp_inv_def close_requests_def oneshots_owned_def tdp_ok_def)

lemma tdp_inv_tee: "tdp_inv X y \<Longrightarrow> tdp_inv X (tee_sys m y)"
  using tee_sys_step tdp_inv_step by metis

lemma handle_frame [simp]:
  "tx_request_closed (remove_pending t h) = tx_request_closed h"
  "tx_request_sent (remove_pending t h) = tx_request_sent h"
  "last_template (remove_pending t h) = last_template h"
  "last_prev_hash (remove_pending t h) = last_prev_hash h"
  "tx_request_closed (drop_receiver i h) = tx_request_closed h"
  "tx_request_sent (drop_receiver i h) = tx_request_sent h"
  "last_template (drop_receiver i h) = last_template h"
  "last_prev_hash (drop_receiver i h) = last_prev_hash h"
  by (auto simp: remove_pending_def drop_sender_def drop_receiver_def split: option.splits)

lemma deliver_frame [simp]:
  "tx_request_closed (snd (deliver_response t r h)) = tx_request_closed h"
  "tx_request_sent (snd (deliver_response t r h)) = tx_request_sent h"
  by (auto simp: deliver_response_def Let_def split: option.splits)

lemma tee_frame [simp]:
  "tx_request_closed (tee_observe m h) = tx_request_closed h"
  "tx_request_sent (tee_observe m h) = tx_request_sent h"
  by (cases m; simp add: record_set_new_prev_hash_def record_new_template_def)+

lemma register_frame:
  assumes "tdp_register t h = (r, h')"
  shows "tx_request_closed h' = tx_request_closed h" "tx_request_sent h' = tx_request_sent h"
    "last_template h' = last_template h" "last_prev_hash h' = last_prev_hash h"
  using assms by (auto simp: tdp_register_def Let_def split: option.splits)

lemma send_frame:
  assumes "tdp_send t h = (r, h')"
  shows "tx_request_closed h' = tx_request_closed h" "last_template h' = last_template h"
    "last_prev_hash h' = last_prev_hash h"
    "tx_request_sent h' = (if tx_request_closed h then tx_request_sent h else tx_request_sent h @ [t])"
  using assms by (auto simp: tdp_send_def split: if_splits)

lemma finish_frame:
  assumes "finish_wait X t i oc h = (r, h')"
  shows "tx_request_closed h' = tx_request_closed h" "tx_request_sent h' = tx_request_sent h"
    "last_template h' = last_template h" "last_prev_hash h' = last_prev_hash h"
  using assms by (cases oc; auto simp: finish_wait_def)+

lemmas pipe_frames = register_frame send_frame finish_frame close_requests_def tee_sys_def
  send_from_tp_def eng_request_def

lemma pipe_parts_work: "pipe_work answer s s' \<Longrightarrow> pipe_parts X s \<Longrightarrow> pipe_parts X s'"
  by (erule pipe_workE)
    (auto simp: pipe_parts_def send_from_tp_def tdp_inv_close tdp_inv_tee merge_inv_task,
     auto simp: close_requests_def tee_sys_def)

lemma merge_inv_sends:
  "merge_inv m \<Longrightarrow> \<not> cm_closed m \<Longrightarrow> merge_inv (cm_push x m)"
  "merge_inv m \<Longrightarrow> \<not> eng_closed m \<Longrightarrow> merge_inv (eng_push x m)"
  "merge_inv m \<Longrightarrow> merge_inv (m\<lparr>cm_closed := True\<rparr>)" "merge_inv m \<Longrightarrow> merge_inv (m\<lparr>eng_closed := True\<rparr>)"
  "merge_inv m \<Longrightarrow> merge_inv (m\<lparr>tp_closed := True\<rparr>)"
  by (rule merge_inv_step, assumption, blast intro: merge_step.intros)+

lemma pipe_parts_step:
  assumes "pipe_step X answer s s'" and "pipe_parts X s"
  shows "pipe_parts X s'"
  using assms
proof (cases rule: pipe_step.cases)
  case work
  then show ?thesis using assms(2) pipe_parts_work by blast
next
  case (call y t i h)
  then show ?thesis
    using assms(2) tdp_inv_step [OF tdp_step.call [of t y i h X]] register_frame [OF call(3)]
    by (simp add: pipe_parts_def)
next
  case (send y i t r h)
  then show ?thesis
    using assms(2) tdp_inv_step [OF tdp_step.send [OF send(3-5), of X]] send_frame(1) [OF send(5)]
    by (simp add: pipe_parts_def eng_request_def merge_inv_sends) (simp add: eng_push_def)
next
  case (poll y i t)
  then show ?thesis
    using assms(2) tdp_inv_step [OF tdp_step.poll [OF poll(3,4), of X]] by (simp add: pipe_parts_def)
next
  case (finish y i t oc r h)
  then show ?thesis
    using assms(2) tdp_inv_step [OF tdp_step.finish [OF finish(3-5)]] finish_frame [OF finish(5)]
    by (simp add: pipe_parts_def)
qed (auto simp: pipe_parts_def merge_inv_sends send_from_tp_def tdp_inv_close,
     auto simp: cm_push_def close_requests_def)

section \<open>What the wires carry\<close>

definition tp_reads :: "tdp_pipe \<Rightarrow> u64 list" where
  "tp_reads s = concat (map (requests_of \<circ> snd) (take (tp_read s) (tp_out (p_merge s))))"

definition wires_ok :: "(u64 \<Rightarrow> tx_data_result) \<Rightarrow> tdp_pipe \<Rightarrow> bool" where
  "wires_ok answer s \<longleftrightarrow>
     eng_sent (p_merge s) = map RequestTransactionData (tx_request_sent (sys_h (p_tdp s))) \<and>
     tp_read s \<le> length (tp_out (p_merge s)) \<and> set (tp_todo s) \<subseteq> set (tp_reads s) \<and>
     (\<forall>m \<in> set (tp_sent s). \<forall>(t, r) \<in> set (answers_of m). r = answer t \<and> t \<in> set (tp_reads s))"

definition tee_ok :: "tdp_pipe \<Rightarrow> bool" where
  "tee_ok s \<longleftrightarrow>
     tp_sent s = tee_seen s @ tee_in s \<and> sys_log (p_tdp s) = concat (map answers_of (tee_seen s)) \<and>
     last_template (sys_h (p_tdp s)) = last_template_in (tee_seen s) None \<and>
     last_prev_hash (sys_h (p_tdp s)) = last_prev_hash_in (tee_seen s) None \<and>
     (if tee_alive s then cm_in s = tee_seen s else \<exists>m. tee_seen s = cm_in s @ [m])"

lemma merge_task_frame:
  assumes "merge_task m m'"
  shows "eng_sent m' = eng_sent m" "cm_sent m' = cm_sent m" "cm_closed m' = cm_closed m"
    "tp_closed m' = tp_closed m" "\<exists>x. tp_out m' = tp_out m @ x"
    "eng_closed m \<Longrightarrow> eng_closed m'" "\<not> tp_closed m \<Longrightarrow> eng_closed m' = eng_closed m"
  using assms by (auto elim!: merge_taskE simp: merge_ops split: if_splits)

lemma tp_reads_merge:
  assumes "merge_task m m'" and "k \<le> length (tp_out m)"
  shows "take k (tp_out m') = take k (tp_out m)" "k \<le> length (tp_out m')"
  using merge_task_frame(5) [OF assms(1)] assms(2) by auto

lemma tp_reads_Suc:
  "k < length xs \<Longrightarrow> concat (map f (take (Suc k) xs)) = concat (map f (take k xs)) @ f (xs ! k)"
  by (simp add: take_Suc_conv_app_nth)

lemma observe_snapshot:
  "last_template_in (seen @ [m]) None = last_template (tee_observe m h)"
  if "last_template h = last_template_in seen None" for h
  using that by (cases m) (auto simp: last_template_in_def record_new_template_def record_set_new_prev_hash_def)

lemma observe_prev_hash:
  "last_prev_hash_in (seen @ [m]) None = last_prev_hash (tee_observe m h)"
  if "last_prev_hash h = last_prev_hash_in seen None" for h
  using that by (cases m) (auto simp: last_prev_hash_in_def record_new_template_def record_set_new_prev_hash_def)

lemma wires_work: "pipe_work answer s s' \<Longrightarrow> wires_ok answer s \<Longrightarrow> wires_ok answer s'"
proof (erule pipe_workE, goal_cases)
  case (1 m)
  then show ?case
    using tp_reads_merge [of "p_merge s" m "tp_read s"] merge_task_frame(1) [of "p_merge s" m]
    by (simp add: wires_ok_def tp_reads_def close_requests_def)
next
  case 2
  then show ?case by (fastforce simp: wires_ok_def tp_reads_def tp_reads_Suc)
next
  case (3 t)
  then show ?case using set_remove1_subset [of t "tp_todo s"]
    by (auto simp: wires_ok_def tp_reads_def send_from_tp_def)
qed (auto simp: wires_ok_def tp_reads_def tee_sys_def)

lemma wires_step: "pipe_step X answer s s' \<Longrightarrow> wires_ok answer s \<Longrightarrow> wires_ok answer s'"
proof (erule pipe_stepE, goal_cases)
  case 1
  then show ?case using wires_work by blast
qed (auto simp: wires_ok_def tp_reads_def pipe_frames cm_push_def eng_push_def)

lemma tee_work: "pipe_work answer s s' \<Longrightarrow> tee_ok s \<Longrightarrow> tee_ok s'"
  by (erule pipe_workE)
    (auto simp: tee_ok_def close_requests_def send_from_tp_def tee_sys_def observe_snapshot observe_prev_hash)

lemma tee_step: "pipe_step X answer s s' \<Longrightarrow> tee_ok s \<Longrightarrow> tee_ok s'"
proof (erule pipe_stepE, goal_cases)
  case 1
  then show ?case using tee_work by blast
qed (simp_all add: tee_ok_def pipe_frames split: if_splits)

section \<open>No request is forgotten\<close>

text \<open>
  The template ids somewhere on their way round: queued at the merge, on the provider's wire (or lost
  when that closed), being worked on, or answered and not yet seen by the tee.
\<close>

definition in_flight :: "tdp_pipe \<Rightarrow> u64 set" where
  "in_flight s =
     (\<Union>m \<in> set (eng_queue (p_merge s)). set (requests_of m)) \<union>
     (\<Union>m \<in> set (drop (tp_read s) (tp_out (p_merge s))) \<union> set (tp_lost (p_merge s)). set (requests_of (snd m))) \<union>
     set (tp_todo s) \<union> (\<Union>m \<in> set (tee_in s). fst ` set (answers_of m))"

definition demand_ok :: "tdp_pipe \<Rightarrow> bool" where
  "demand_ok s \<longleftrightarrow>
     (\<forall>t i. dm_get (pending_requests (sys_h (p_tdp s))) t = Some i \<longrightarrow>
        snd (sys_calls (p_tdp s) ! i) = Waiting \<longrightarrow> t \<in> in_flight s)"

lemma in_flight_merge:
  assumes "merge_task m m'" and "k \<le> length (tp_out m)" and "p_merge s = m" and "tp_read s = k"
  shows "in_flight s \<subseteq> in_flight (s\<lparr>p_merge := m', p_tdp := y\<rparr>)"
  using assms by (auto elim!: merge_taskE simp: in_flight_def merge_ops split: if_splits)

lemma in_flight_take:
  "tp_read s < length (tp_out (p_merge s)) \<Longrightarrow>
   in_flight (s\<lparr>tp_read := Suc (tp_read s),
     tp_todo := tp_todo s @ requests_of (snd (tp_out (p_merge s) ! tp_read s))\<rparr>) = in_flight s"
  by (simp add: in_flight_def Cons_nth_drop_Suc [symmetric]) auto

lemma in_flight_answer:
  "t \<in> set (tp_todo s) \<Longrightarrow>
   in_flight s \<subseteq> in_flight (send_from_tp (answer_message t (answer t)) (s\<lparr>tp_todo := remove1 t (tp_todo s)\<rparr>))"
  by (auto simp: in_flight_def send_from_tp_def)

lemma pending_tee:
  "dm_get (pending_requests (tee_observe m h)) t =
     (if t \<in> fst ` set (answers_of m) then None else dm_get (pending_requests h) t)"
  by (cases m) (auto simp: pending_deliver record_set_new_prev_hash_def record_new_template_def)

lemma demand_mono:
  assumes "demand_ok s" and "in_flight s \<subseteq> in_flight s'"
    and "\<And>t i. dm_get (pending_requests (sys_h (p_tdp s'))) t = Some i \<Longrightarrow>
           snd (sys_calls (p_tdp s') ! i) = Waiting \<Longrightarrow>
           dm_get (pending_requests (sys_h (p_tdp s))) t = Some i \<and> snd (sys_calls (p_tdp s) ! i) = Waiting"
  shows "demand_ok s'"
  using assms unfolding demand_ok_def by blast

lemma demand_work:
  assumes "pipe_work answer s s'" and "wires_ok answer s" and "demand_ok s"
  shows "demand_ok s'"
  using assms(1)
proof (cases rule: pipe_work.cases)
  case (merge m)
  with assms(2) show ?thesis
    by (intro demand_mono [OF assms(3)])
      (auto simp: wires_ok_def close_requests_def intro!: in_flight_merge [THEN subsetD])
next
  case tp_take
  then show ?thesis by (intro demand_mono [OF assms(3)]) (auto simp: in_flight_take)
next
  case (tp_answer t)
  then show ?thesis
    by (intro demand_mono [OF assms(3)]) (simp_all add: in_flight_answer, simp_all add: send_from_tp_def)
next
  case (tee_forward m q)
  with assms(3) show ?thesis
    by (auto simp: demand_ok_def tee_sys_def pending_tee in_flight_def split: if_splits)
next
  case (tee_exit m q)
  with assms(3) show ?thesis
    by (auto simp: demand_ok_def tee_sys_def pending_tee in_flight_def split: if_splits)
qed

lemma parts_lt:
  assumes "pipe_parts X s" and "dm_get (pending_requests (sys_h (p_tdp s))) t = Some i"
  shows "i < length (sys_calls (p_tdp s))" "fst (sys_calls (p_tdp s) ! i) = t"
  using assms tdp_okD(1) by (auto simp: pipe_parts_def tdp_inv_def oneshots_owned_def)

lemma demand_step:
  assumes "pipe_step X answer s s'" and "pipe_parts X s" and "wires_ok answer s" and "demand_ok s"
  shows "demand_ok s'"
  using assms(1)
proof (cases rule: pipe_step.cases)
  case work
  then show ?thesis using demand_work assms(3,4) by blast
next
  case (call y t i h)
  then have h: "dm_get (pending_requests h) = (dm_get (pending_requests (sys_h y)))(t \<mapsto> length (sys_calls y))"
    using assms(2) by (auto simp: tdp_register_def Let_def pipe_parts_def tdp_inv_def oneshots_owned_def
        split: option.splits)
  show ?thesis
    using call assms(4) parts_lt(1) [OF assms(2)]
    by (auto simp: demand_ok_def h nth_append in_flight_def split: if_splits)
next
  case (send y i t r h)
  have shrink: "dm_get (pending_requests h) t' = Some j \<Longrightarrow> dm_get (pending_requests (sys_h y)) t' = Some j" for t' j
    using send_facts(3) [OF send(5)] .
  have own: "fst (sys_calls y ! j) = t'" if "dm_get (pending_requests (sys_h y)) t' = Some j" for t' j
    using parts_lt(2) [OF assms(2)] that send(2) by simp
  have mono: "in_flight s \<subseteq> in_flight s'"
    using send by (auto simp: in_flight_def eng_request_def eng_push_def)
  have new: "t \<in> in_flight s'" if "after_send r = Waiting"
    using send that by (auto simp: tdp_send_def in_flight_def eng_request_def eng_push_def split: if_splits)
  have old: "t' \<in> in_flight s'"
    if "dm_get (pending_requests h) t' = Some j" "snd (sys_calls y ! j) = Waiting" for t' j
    using shrink [OF that(1)] that(2) assms(4) mono send(2) by (auto simp: demand_ok_def)
  have self: "t' = t" if "dm_get (pending_requests h) t' = Some i" for t'
    using own [OF shrink [OF that]] send(4) by simp
  show ?thesis
    unfolding demand_ok_def
  proof (intro allI impI)
    fix t' j
    assume "dm_get (pending_requests (sys_h (p_tdp s'))) t' = Some j" "snd (sys_calls (p_tdp s') ! j) = Waiting"
    with send(1,3) have p: "dm_get (pending_requests h) t' = Some j"
      and c: "if j = i then after_send r = Waiting else snd (sys_calls y ! j) = Waiting"
      by (auto simp: nth_list_update split: if_splits)
    from p c old new self show "t' \<in> in_flight s'" by (cases "j = i") auto
  qed
next
  case (poll y i t)
  then show ?thesis
    by (intro demand_mono [OF assms(4)]) (auto simp: in_flight_def nth_list_update split: if_splits)
next
  case (finish y i t oc r h)
  then show ?thesis
    using finish_facts(3) [OF finish(5)]
    by (intro demand_mono [OF assms(4)]) (auto simp: in_flight_def nth_list_update split: if_splits)
next
  case (tp_push m)
  then show ?thesis
    by (intro demand_mono [OF assms(4)]) (auto simp: in_flight_def send_from_tp_def)
next
  case (eng_stops_sending)
  then show ?thesis
    by (intro demand_mono [OF assms(4)]) (auto simp: in_flight_def close_requests_def)
qed (intro demand_mono [OF assms(4)]; auto simp: in_flight_def cm_push_def)+

section \<open>The composed invariant\<close>

definition pipe_inv :: "externals \<Rightarrow> (u64 \<Rightarrow> tx_data_result) \<Rightarrow> tdp_pipe \<Rightarrow> bool" where
  "pipe_inv X answer s \<longleftrightarrow> pipe_parts X s \<and> wires_ok answer s \<and> tee_ok s \<and> demand_ok s"

lemma pipe_inv_start: "pipe_start s \<Longrightarrow> pipe_inv X answer s"
  using tdp_inv_start [of "p_tdp s" X]
  by (simp add: pipe_inv_def pipe_start_def pipe_new_def pipe_parts_def merge_inv_def merge_new_def wires_ok_def
      tp_reads_def tee_ok_def demand_ok_def tdp_start_def)
    (simp add: tdp_new_def last_template_in_def last_prev_hash_in_def)

lemma pipe_inv_step: "pipe_inv X answer s \<Longrightarrow> pipe_step X answer s s' \<Longrightarrow> pipe_inv X answer s'"
  using pipe_parts_step wires_step tee_step demand_step unfolding pipe_inv_def by blast

interpretation pipe: invariant_system pipe_start "pipe_step X answer" "pipe_inv X answer" for X answer
  by unfold_locales (simp_all add: pipe_inv_start pipe_inv_step)

text \<open>
  The bridge inside the pipeline only makes steps of the bridge: what holds of the bridge under any
  demux task holds of it here.
\<close>

lemma close_requests_step:
  "b \<or> \<not> tx_request_closed (sys_h y) \<Longrightarrow> close_requests b y = y \<or> tdp_step X y (close_requests b y)"
  using tdp_step.close [of X y] by (cases b) (auto simp: close_requests_def)

lemma pipe_work_tdp:
  assumes "pipe_work answer s s'" and "pipe_parts X s"
  shows "p_tdp s' = p_tdp s \<or> tdp_step X (p_tdp s) (p_tdp s')"
  using assms
  by (cases rule: pipe_work.cases)
    (auto simp: send_from_tp_def pipe_parts_def tee_sys_step
      intro!: close_requests_step dest: merge_task_frame(6))

lemma pipe_step_tdp:
  assumes "pipe_step X answer s s'" and "pipe_parts X s"
  shows "p_tdp s' = p_tdp s \<or> tdp_step X (p_tdp s) (p_tdp s')"
  using assms
proof (cases rule: pipe_step.cases)
  case work
  then show ?thesis using assms(2) pipe_work_tdp by blast
qed (auto simp: send_from_tp_def close_requests_step intro: tdp_step.intros)

lemma pipe_projects:
  assumes "reach pipe_start (pipe_step X answer) s"
  shows "reach tdp_start (tdp_step X) (p_tdp s)"
  using assms
proof (induction rule: reach.induct)
  case (reach_start s)
  then show ?case by (intro reach.reach_start) (simp add: pipe_start_def pipe_new_def tdp_start_def)
next
  case (reach_step s s')
  have "pipe_parts X s" using pipe.inv_reach [OF reach_step(1)] by (simp add: pipe_inv_def)
  from pipe_step_tdp [OF reach_step(2) this] reach_step(3) show ?case by (auto intro: reach.reach_step)
qed

section \<open>The pipeline's tasks terminate\<close>

fun phase_work :: "merge_phase \<Rightarrow> nat" where
  "phase_work Selecting = 2"
| "phase_work DrainEngine = 1"
| "phase_work DrainCm = 1"
| "phase_work Exited = 0"

definition pipe_load :: "tdp_pipe \<Rightarrow> nat" where
  "pipe_load s = 4 * (length (cm_queue (p_merge s)) + length (eng_queue (p_merge s))) +
     3 * (length (tp_out (p_merge s)) - tp_read s) + 2 * length (tp_todo s) + length (tee_in s) +
     phase_work (mphase (p_merge s))"

lemma requests_of_short: "length (requests_of m) \<le> 1"
  by (cases m) auto

lemma pipe_work_decreases:
  assumes "pipe_work answer s s'"
  shows "pipe_load s' < pipe_load s"
  using assms
proof (cases rule: pipe_work.cases)
  case (merge m)
  from merge(2) show ?thesis
    by (cases rule: merge_task.cases) (auto simp: merge(1) pipe_load_def merge_ops)
next
  case tp_take
  then show ?thesis
    using requests_of_short [of "snd (tp_out (p_merge s) ! tp_read s)"] by (simp add: pipe_load_def)
next
  case (tp_answer t)
  moreover from tp_answer(2) obtain n where "length (tp_todo s) = Suc n" by (cases "tp_todo s") auto
  ultimately show ?thesis by (simp add: pipe_load_def send_from_tp_def length_remove1)
qed (simp_all add: pipe_load_def)

lemma pipe_work_wf: "wfP (\<lambda>s' s. pipe_work answer s s')"
  by (rule wfp_subset [OF wfp_if_convertible_to_nat [of _ pipe_load]]) (auto simp: pipe_work_decreases)

section \<open>Properties\<close>

lemma work_frame:
  assumes "pipe_work answer s s'"
  shows "cm_open s' = cm_open s" "tp_closed (p_merge s') = tp_closed (p_merge s)"
    "cm_open s \<Longrightarrow> tee_alive s' = tee_alive s"
    "\<not> tp_closed (p_merge s) \<Longrightarrow> eng_closed (p_merge s') = eng_closed (p_merge s)"
  using assms by (cases rule: pipe_work.cases; auto simp: send_from_tp_def merge_task_frame)+

definition pipe_up :: "tdp_pipe \<Rightarrow> bool" where
  "pipe_up s \<longleftrightarrow> cm_open s \<and> tee_alive s \<and> \<not> tp_closed (p_merge s) \<and> \<not> eng_closed (p_merge s)"

lemma work_up: "(pipe_work answer)\<^sup>*\<^sup>* s s' \<Longrightarrow> pipe_up s \<Longrightarrow> pipe_up s'"
  by (induction rule: rtranclp_induct) (auto simp: pipe_up_def work_frame)

lemma work_reach:
  "(pipe_work answer)\<^sup>*\<^sup>* s s' \<Longrightarrow> reach pipe_start (pipe_step X answer) s \<Longrightarrow>
   reach pipe_start (pipe_step X answer) s'"
  by (induction rule: rtranclp_induct) (auto intro: reach.reach_step pipe_step.work)

lemma idle_empty:
  assumes "pipe_inv X answer s" and "pipe_up s" and "\<And>s'. \<not> pipe_work answer s s'"
  shows "in_flight s = {}"
proof -
  have "tee_in s = []"
    using assms(2,3) pipe_work.tee_forward [of s] by (cases "tee_in s") (auto simp: pipe_up_def)
  moreover have "tp_todo s = []"
    using assms(3) pipe_work.tp_answer [of _ s] by (cases "tp_todo s") auto
  moreover have "length (tp_out (p_merge s)) \<le> tp_read s"
    using assms(3) pipe_work.tp_take [of s] by (meson not_le)
  moreover from assms(1,2) have live: "mphase (p_merge s) \<noteq> Exited" "tp_lost (p_merge s) = []"
    and dcm: "mphase (p_merge s) \<noteq> DrainCm"
    by (auto simp: pipe_inv_def pipe_parts_def merge_inv_def pipe_up_def)
  moreover have "eng_queue (p_merge s) = []"
  proof (rule ccontr)
    assume "eng_queue (p_merge s) \<noteq> []"
    then obtain m q where "eng_queue (p_merge s) = m # q" by (cases "eng_queue (p_merge s)") auto
    with live dcm have "\<exists>x. merge_task (p_merge s) x"
      using merge_task.eng_recv merge_task.drain_eng by (cases "mphase (p_merge s)") blast+
    with assms(3) show False using pipe_work.merge by blast
  qed
  ultimately show ?thesis by (simp add: in_flight_def)
qed

lemma log_answers:
  assumes "pipe_inv X answer s" and "(t, r) \<in> set (sys_log (p_tdp s))"
  shows "r = answer t \<and> t \<in> set (tp_reads s)"
  using assms by (auto simp: pipe_inv_def tee_ok_def wires_ok_def)

lemma idle_served:
  assumes "reach pipe_start (pipe_step X answer) s" and "pipe_up s" and "\<nexists>s'. pipe_work answer s s'"
    and i: "i < length (sys_calls (p_tdp s))" "sys_calls (p_tdp s) ! i = (t, Waiting)"
  shows "poll_oneshot i (sys_h (p_tdp s)) = Received (answer t) \<or>
    poll_oneshot i (sys_h (p_tdp s)) = RecvClosed \<and> failed_call t (p_tdp s)"
proof -
  note inv = pipe.inv_reach [OF assms(1)]
  have none: "in_flight s = {}" using idle_empty [OF inv assms(2)] assms(3) by blast
  have ok: "shots_ok X (p_tdp s)" by (rule shots.inv_reach [OF pipe_projects [OF assms(1)]])
  have lt: "i < length (oneshots (sys_h (p_tdp s)))" using i(1) shots_okD(3) [OF ok] by simp
  have shot: "shot_ok (p_tdp s) i" by (rule shots_okD(4) [OF ok lt])
  have deliv: "(t, x) \<in> set (sys_log (p_tdp s))" if "oneshots (sys_h (p_tdp s)) ! i = ODelivered x" for x
    using that i lt shots_okD(1) [OF ok] by (auto simp: tdp_inv_def oneshots_owned_def)
  show ?thesis
  proof (cases "oneshots (sys_h (p_tdp s)) ! i")
    case OWaiting
    with shot i have "dm_get (pending_requests (sys_h (p_tdp s))) t = Some i" by (simp add: shot_ok_def)
    with i inv none show ?thesis unfolding pipe_inv_def demand_ok_def by fastforce
  next
    case (ODelivered x)
    with log_answers [OF inv deliv] lt show ?thesis by (simp add: poll_oneshot_def)
  qed (use shot i lt in \<open>simp_all add: shot_ok_def poll_oneshot_def\<close>)
qed

text \<open>
  C9: end to end, a call that returns transactions returns the decoding of the provider's answer for
  that very template, and a rejection it reports is the provider's rejection of that template; in
  both cases the provider had read a request for it. The engine's requests reach the provider in the
  order they were made, and the channel manager sees the provider's messages unchanged and in order,
  none missing while the tee runs; the engine's snapshots are those of the last template and the last
  tip among the messages seen.
\<close>

theorem pipeline_end_to_end:
  assumes "reach pipe_start (pipe_step X answer) s" and "i < length (sys_calls (p_tdp s))"
    and "sys_calls (p_tdp s) ! i = (t, Done r)"
  shows "(\<forall>txs. r = Ok txs \<longrightarrow> t \<in> set (tp_reads s) \<and> (\<exists>l. answer t = TxSuccess l \<and> decode_bodies X l = Ok txs)) \<and>
    (\<forall>t' c. r = Err (TpRejected t' c) \<longrightarrow> t' = t \<and> t \<in> set (tp_reads s) \<and>
       (\<exists>b. answer t = TxError b \<and> c = from_utf8_lossy b)) \<and>
    (\<exists>rest. from_source FromEngine (tp_out (p_merge s)) @ rest =
       map RequestTransactionData (tx_request_sent (sys_h (p_tdp s)))) \<and>
    (if tee_alive s then cm_in s @ tee_in s = tp_sent s else (\<exists>m. cm_in s @ m # tee_in s = tp_sent s)) \<and>
    last_template (sys_h (p_tdp s)) = last_template_in (tee_seen s) None \<and>
    last_prev_hash (sys_h (p_tdp s)) = last_prev_hash_in (tee_seen s) None"
proof -
  note inv = pipe.inv_reach [OF assms(1)]
  then have just: "call_justified X (sys_log (p_tdp s)) (t, Done r)"
    using assms(2,3) nth_mem unfolding pipe_inv_def pipe_parts_def tdp_inv_def by metis
  have tee: "tee_ok s" and wires: "wires_ok answer s" and merge: "merge_inv (p_merge s)"
    using inv by (simp_all add: pipe_inv_def pipe_parts_def)
  have "\<forall>txs. r = Ok txs \<longrightarrow> t \<in> set (tp_reads s) \<and> (\<exists>l. answer t = TxSuccess l \<and> decode_bodies X l = Ok txs)"
    using just log_answers [OF inv] by fastforce
  moreover have "\<forall>t' c. r = Err (TpRejected t' c) \<longrightarrow> t' = t \<and> t \<in> set (tp_reads s) \<and>
       (\<exists>b. answer t = TxError b \<and> c = from_utf8_lossy b)"
    using just log_answers [OF inv] by fastforce
  moreover have "\<exists>rest. from_source FromEngine (tp_out (p_merge s)) @ rest =
      map RequestTransactionData (tx_request_sent (sys_h (p_tdp s)))"
    using wires merge by (auto simp: wires_ok_def merge_inv_def)
  ultimately show ?thesis using tee by (auto simp: tee_ok_def)
qed

text \<open>
  C32: no request for transaction bodies is forgotten between the engine and the template provider.
  The merge task, the provider and the tee task cannot keep each other busy for ever; and in any
  reachable state with the channels up, once they have nothing left to do every caller that waits
  finds the provider's answer for its own template, unless another call for the same template
  failed and took its registration away.
\<close>

theorem pipeline_serves_callers:
  assumes "reach pipe_start (pipe_step X answer) s" and "pipe_up s"
  shows "wfP (\<lambda>b a. pipe_work answer a b) \<and>
    (\<forall>s' i t. (pipe_work answer)\<^sup>*\<^sup>* s s' \<and> (\<nexists>s''. pipe_work answer s' s'') \<and>
       i < length (sys_calls (p_tdp s')) \<and> sys_calls (p_tdp s') ! i = (t, Waiting) \<longrightarrow>
       poll_oneshot i (sys_h (p_tdp s')) = Received (answer t) \<or>
       poll_oneshot i (sys_h (p_tdp s')) = RecvClosed \<and> failed_call t (p_tdp s'))"
proof (intro conjI allI impI, rule pipe_work_wf, elim conjE)
  fix s' i t
  assume run: "(pipe_work answer)\<^sup>*\<^sup>* s s'" and idle: "\<nexists>s''. pipe_work answer s' s''"
    and i: "i < length (sys_calls (p_tdp s'))" "sys_calls (p_tdp s') ! i = (t, Waiting)"
  show "poll_oneshot i (sys_h (p_tdp s')) = Received (answer t) \<or>
      poll_oneshot i (sys_h (p_tdp s')) = RecvClosed \<and> failed_call t (p_tdp s')"
    by (rule idle_served [OF work_reach [OF run assms(1)] work_up [OF run assms(2)] idle i])
qed

section \<open>A run\<close>

text \<open>
  One call, from its registration to the provider's answer.
\<close>

definition run_waiting :: "u64 \<Rightarrow> tdp_pipe" where
  "run_waiting t = pipe_new\<lparr>
     p_tdp := \<lparr>sys_h = tdp_new\<lparr>pending_requests := [(t, 0)], tx_request_sent := [t], oneshots := [OWaiting]\<rparr>,
       sys_calls = [(t, Waiting)], sys_log = []\<rparr>,
     p_merge := eng_push (RequestTransactionData t) merge_new\<rparr>"

definition run_answered :: "u64 \<Rightarrow> tx_data_result \<Rightarrow> tdp_pipe" where
  "run_answered t r = pipe_new\<lparr>
     p_tdp := \<lparr>sys_h = tdp_new\<lparr>tx_request_sent := [t], oneshots := [ODelivered r]\<rparr>,
       sys_calls = [(t, Waiting)], sys_log = [(t, r)]\<rparr>,
     p_merge := merge_new\<lparr>tp_out := [(FromEngine, RequestTransactionData t)], eng_sent := [RequestTransactionData t]\<rparr>,
     tp_read := 1, tp_sent := [answer_message t r], tee_seen := [answer_message t r], cm_in := [answer_message t r]\<rparr>"

lemmas run_simps = race_simps pipe_new_def merge_new_def eng_push_def eng_request_def merge_forward_def
  close_requests_def send_from_tp_def tee_sys_def run_waiting_def run_answered_def

lemma run_waiting_reach: "reach pipe_start (pipe_step X answer) (run_waiting t)"
proof -
  let ?s1 = "pipe_new\<lparr>p_tdp := \<lparr>sys_h = tdp_new\<lparr>pending_requests := [(t, 0)], oneshots := [OWaiting]\<rparr>,
     sys_calls = [(t, Registered)], sys_log = []\<rparr>\<rparr>"
  have "reach pipe_start (pipe_step X answer) pipe_new" by (rule reach_start) (simp add: pipe_start_def)
  moreover have "pipe_step X answer pipe_new ?s1"
    using pipe_step.call [of pipe_new "p_tdp pipe_new" t 0] by (simp add: run_simps)
  ultimately have "reach pipe_start (pipe_step X answer) ?s1" by (rule reach_step)
  moreover have "pipe_step X answer ?s1 (run_waiting t)"
    using pipe_step.send [of ?s1 "p_tdp ?s1" 0 t "Ok ()"] by (simp add: run_simps)
  ultimately show ?thesis by (rule reach_step)
qed

lemma tee_observe_answer: "tee_observe (answer_message t r) h = snd (deliver_response t r h)"
  by (cases r) auto

lemma run_answered_work: "(pipe_work answer)\<^sup>*\<^sup>* (run_waiting t) (run_answered t (answer t))"
proof -
  let ?m = "merge_new\<lparr>tp_out := [(FromEngine, RequestTransactionData t)], eng_sent := [RequestTransactionData t]\<rparr>"
  let ?s1 = "(run_waiting t)\<lparr>p_merge := ?m\<rparr>"
  let ?s2 = "?s1\<lparr>tp_read := 1, tp_todo := [t]\<rparr>"
  let ?s3 = "?s1\<lparr>tp_read := 1, tp_sent := [answer_message t (answer t)], tee_in := [answer_message t (answer t)]\<rparr>"
  have "merge_task (p_merge (run_waiting t)) ?m"
    using merge_task.eng_recv [of "p_merge (run_waiting t)" "RequestTransactionData t" "[]"] by (simp add: run_simps)
  then have "pipe_work answer (run_waiting t) ?s1"
    using pipe_work.merge [of "run_waiting t" ?m] by (simp add: run_simps)
  moreover have "pipe_work answer ?s1 ?s2"
    using pipe_work.tp_take [of ?s1] by (simp add: run_simps)
  moreover have "pipe_work answer ?s2 ?s3"
    using pipe_work.tp_answer [of t ?s2] by (simp add: run_simps)
  moreover have "pipe_work answer ?s3 (run_answered t (answer t))"
    using pipe_work.tee_forward [of ?s3 "answer_message t (answer t)" "[]"]
    by (simp add: run_simps tee_observe_answer)
  ultimately show ?thesis by (meson converse_rtranclp_into_rtranclp rtranclp.rtrancl_refl)
qed

lemma run_answered_idle: "\<not> pipe_work answer (run_answered t r) s"
  by (auto elim!: pipe_workE merge_taskE simp: run_simps)

theorem pipeline_serves_callers_witness:
  "poll_oneshot 0 (sys_h (p_tdp (run_answered 7 (TxSuccess [])))) = Received (TxSuccess [])"
proof -
  have "pipe_up (run_waiting 7)" by (simp add: pipe_up_def run_simps)
  from pipeline_serves_callers [OF run_waiting_reach [of sample_ext "\<lambda>_. TxSuccess []"] this]
  have "poll_oneshot 0 (sys_h (p_tdp (run_answered 7 (TxSuccess [])))) = Received (TxSuccess []) \<or>
      failed_call 7 (p_tdp (run_answered 7 (TxSuccess [])))"
    using run_answered_work [of "\<lambda>_. TxSuccess []" 7] run_answered_idle [of "\<lambda>_. TxSuccess []" 7 "TxSuccess []"]
    by (simp add: run_simps)
  then show ?thesis by (simp add: failed_call_def run_simps)
qed

theorem pipeline_end_to_end_witness:
  "\<exists>s. reach pipe_start (pipe_step sample_ext (\<lambda>_. TxSuccess [])) s \<and>
     sys_calls (p_tdp s) = [(7, Done (Ok []))] \<and> 7 \<in> set (tp_reads s) \<and> cm_in s @ tee_in s = tp_sent s"
proof -
  let ?A = "\<lambda>_::u64. TxSuccess []"
  let ?s0 = "run_answered 7 (TxSuccess [])"
  let ?s1 = "?s0\<lparr>p_tdp := (p_tdp ?s0)\<lparr>sys_calls := [(7, Decided (Received (TxSuccess [])))]\<rparr>\<rparr>"
  let ?s2 = "?s0\<lparr>p_tdp := (p_tdp ?s0)\<lparr>sys_calls := [(7, Done (Ok []))]\<rparr>\<rparr>"
  have "reach pipe_start (pipe_step sample_ext ?A) ?s0"
    using work_reach [OF run_answered_work run_waiting_reach] by auto
  moreover have "pipe_step sample_ext ?A ?s0 ?s1"
    using pipe_step.poll [of ?s0 "p_tdp ?s0" 0 7] by (simp add: run_simps)
  ultimately have "reach pipe_start (pipe_step sample_ext ?A) ?s1" by (rule reach_step)
  moreover have "pipe_step sample_ext ?A ?s1 ?s2"
    using pipe_step.finish [of ?s1 "p_tdp ?s1" 0 7 "Received (TxSuccess [])" sample_ext "Ok []"]
    by (simp add: run_simps decode_response_def)
  ultimately have r: "reach pipe_start (pipe_step sample_ext ?A) ?s2" by (rule reach_step)
  have c: "0 < length (sys_calls (p_tdp ?s2))" "sys_calls (p_tdp ?s2) ! 0 = (7, Done (Ok []))" "tee_alive ?s2"
    by (simp_all add: run_simps)
  from pipeline_end_to_end [OF r c(1,2)] r c(3) show ?thesis by (intro exI [of _ ?s2]) simp
qed

end
