(* ===== verification/Reorg_Pipeline.thy ===== *)
theory Reorg_Pipeline
  imports Engine_Reorg Chain_Backends
begin

text \<open>
  The path of a share-chain tip change through the pool. With the IPC backend the daemon's push
  callback stores the tip in the snapshot and the detector polls that; with the in-process backend the
  detector polls the store, which the chain service changes. The detector broadcasts a change, the
  invalidator receives the broadcast and flushes the declared-jobs cache, while declarations go on
  caching jobs. The operations are those of \<open>Chain_Backends\<close>, \<open>Reorg_Detector\<close> and \<open>Engine_Reorg\<close>; here
  they share their state.
\<close>

section \<open>The broadcast channel\<close>

text \<open>
  tokio's bounded broadcast: the channel keeps the last \<open>broadcast_capacity\<close> values, a receiver that
  fell further behind is told how many it missed and continues with the oldest one kept. A receiver
  starts at the position where it subscribed.
\<close>

record tip_receiver =
  rx_pos :: nat

record reorg_detector =
  det_period :: nat
  det_sent :: "block_hash list"

definition detector_new :: "nat \<Rightarrow> reorg_detector" where
  "detector_new period = \<lparr>det_period = period, det_sent = []\<rparr>"

definition detector_subscribe :: "reorg_detector \<Rightarrow> tip_receiver" where
  "detector_subscribe d = \<lparr>rx_pos = length (det_sent d)\<rparr>"

definition detector_poll ::
  "block_hash option \<Rightarrow> block_hash option \<Rightarrow> reorg_detector \<Rightarrow> block_hash option \<times> reorg_detector" where
  "detector_poll tip last_tip d =
     (let (last', sent) = poll_once tip last_tip in (last', d\<lparr>det_sent := det_sent d @ sent\<rparr>))"

definition rx_recv :: "reorg_detector \<Rightarrow> tip_receiver \<Rightarrow> (recv_result \<times> tip_receiver) option" where
  "rx_recv d rx =
     (let tail = length (det_sent d); pos = rx_pos rx
      in if tail \<le> pos then None
         else if broadcast_capacity < tail - pos
         then Some (Lagged (word_of_nat (tail - pos - broadcast_capacity)), rx\<lparr>rx_pos := tail - broadcast_capacity\<rparr>)
         else Some (RecvOk (det_sent d ! pos), rx\<lparr>rx_pos := Suc pos\<rparr>))"

section \<open>Where the tip is read\<close>

datatype tip_source = IpcSnapshot actor | InProcessStore chain_store

fun watched_tip :: "tip_source \<Rightarrow> block_hash option" where
  "watched_tip (IpcSnapshot a) = load_tip (snapshot a)"
| "watched_tip (InProcessStore cs) = (case cs_get_chain_tip cs of Inr t \<Rightarrow> Some t | Inl _ \<Rightarrow> None)"

text \<open>
  The daemon pushes bytes, the in-process chain service writes the store; neither can do the other's.
\<close>

inductive source_step :: "tip_source \<Rightarrow> tip_source \<Rightarrow> bool" where
  pushed: "source_step (IpcSnapshot a) (IpcSnapshot (on_tip_push bs a))"
| written: "source_step (InProcessStore cs) (InProcessStore cs')"

inductive_simps source_step_simps [simp]: "source_step (IpcSnapshot a) src" "source_step (InProcessStore cs) src"

section \<open>The composed system\<close>

text \<open>
  \<open>born\<close> and \<open>view\<close> are history: for a cached request id, how many changes had been broadcast and
  which tip the detector had seen when the job was cached.
\<close>

record reorg_pipe =
  rp_source :: tip_source
  rp_last :: "block_hash option"
  rp_det :: reorg_detector
  rp_rx :: tip_receiver
  rp_engine :: engine
  born :: "u32 \<Rightarrow> nat"
  view :: "u32 \<Rightarrow> block_hash option"

definition rp_init :: "tip_source \<Rightarrow> engine \<Rightarrow> reorg_pipe" where
  "rp_init src e =
     (let d = detector_new default_poll_period_secs
      in \<lparr>rp_source = src, rp_last = None, rp_det = d, rp_rx = detector_subscribe d,
          rp_engine = start_reorg_watcher e, born = (\<lambda>_. 0), view = (\<lambda>_. None)\<rparr>)"

definition reorg_start :: "tip_source \<Rightarrow> engine \<Rightarrow> reorg_pipe \<Rightarrow> bool" where
  "reorg_start src e s \<longleftrightarrow> declared_jobs e = dm_empty \<and> s = rp_init src e"

definition rp_poll :: "reorg_pipe \<Rightarrow> reorg_pipe" where
  "rp_poll s =
     (let (last', d) = detector_poll (watched_tip (rp_source s)) (rp_last s) (rp_det s)
      in s\<lparr>rp_last := last', rp_det := d\<rparr>)"

definition rp_recv :: "reorg_pipe \<Rightarrow> reorg_pipe option" where
  "rp_recv s =
     (case rx_recv (rp_det s) (rp_rx s) of
        None \<Rightarrow> None
      | Some (_, rx) \<Rightarrow> Some (s\<lparr>rp_rx := rx, rp_engine := invalidator_event (rp_engine s)\<rparr>))"

text \<open>
  Any other task of the engine: it may cache jobs under request ids (history noted), drop others and
  change the rest of the engine.
\<close>

definition note_cached :: "reorg_pipe \<Rightarrow> engine \<Rightarrow> reorg_pipe" where
  "note_cached s e =
     (let fresh = (\<lambda>rid. dm_get (declared_jobs e) rid \<noteq> dm_get (declared_jobs (rp_engine s)) rid)
      in s\<lparr>rp_engine := e,
           born := (\<lambda>rid. if fresh rid then length (det_sent (rp_det s)) else born s rid),
           view := (\<lambda>rid. if fresh rid then rp_last s else view s rid)\<rparr>)"

inductive reorg_pipe_step :: "reorg_pipe \<Rightarrow> reorg_pipe \<Rightarrow> bool" where
  source: "source_step (rp_source s) src \<Longrightarrow> reorg_pipe_step s (s\<lparr>rp_source := src\<rparr>)"
| poll: "reorg_pipe_step s (rp_poll s)"
| recv: "rp_recv s = Some s' \<Longrightarrow> reorg_pipe_step s s'"
| other: "reorg_pipe_step s (note_cached s e)"

inductive_cases reorg_pipe_stepE: "reorg_pipe_step s t"

definition caught_up :: "reorg_pipe \<Rightarrow> bool" where
  "caught_up s \<longleftrightarrow> length (det_sent (rp_det s)) \<le> rx_pos (rp_rx s)"

section \<open>The invariant\<close>

text \<open>
  Every receive empties the cache, so a cached job is younger than the receiver's position; and
  while no change was broadcast since it was cached, the detector's tip has not moved, except for
  the first sighting.
\<close>

definition reorg_pipe_inv :: "reorg_pipe \<Rightarrow> bool" where
  "reorg_pipe_inv s \<longleftrightarrow> rx_pos (rp_rx s) \<le> length (det_sent (rp_det s)) \<and>
     (\<forall>rid. dm_get (declared_jobs (rp_engine s)) rid \<noteq> None \<longrightarrow>
        rx_pos (rp_rx s) \<le> born s rid \<and> born s rid \<le> length (det_sent (rp_det s)) \<and>
        (born s rid = length (det_sent (rp_det s)) \<longrightarrow> view s rid = None \<or> view s rid = rp_last s))"

lemma rx_recv_Some:
  assumes "rx_recv d rx = Some (r, rx')"
  shows "rx_pos rx < rx_pos rx'" "rx_pos rx' \<le> length (det_sent d)" "r \<noteq> ChannelClosed"
    "length (det_sent d) - rx_pos rx' \<le> min (length (det_sent d) - rx_pos rx - 1) broadcast_capacity"
  using assms by (auto simp: rx_recv_def Let_def broadcast_capacity_def split: if_splits)

lemma watcher_jobs [simp]: "declared_jobs (start_reorg_watcher e) = declared_jobs e"
  by (auto simp: start_reorg_watcher_def spawn_task_def abort_task_def Let_def split: option.splits)

lemma event_empties [simp]: "declared_jobs (invalidator_event e) = dm_empty"
  by (simp add: invalidator_event_def Let_def invalidate_all_def)

lemma inv_poll: "reorg_pipe_inv s \<Longrightarrow> reorg_pipe_inv (rp_poll s)"
  by (auto simp: reorg_pipe_inv_def rp_poll_def detector_poll_def poll_once_def Let_def
      split: prod.splits option.splits if_splits)

lemma inv_recv: "reorg_pipe_inv s \<Longrightarrow> rp_recv s = Some s' \<Longrightarrow> reorg_pipe_inv s'"
  by (auto simp: reorg_pipe_inv_def rp_recv_def dest: rx_recv_Some(2) split: option.splits)

lemma inv_other: "reorg_pipe_inv s \<Longrightarrow> reorg_pipe_inv (note_cached s e)"
  by (auto simp: reorg_pipe_inv_def note_cached_def Let_def)

lemma reorg_pipe_inv_step: "reorg_pipe_inv s \<Longrightarrow> reorg_pipe_step s t \<Longrightarrow> reorg_pipe_inv t"
  by (erule reorg_pipe_stepE)
    (auto simp: inv_poll inv_other intro: inv_recv, simp add: reorg_pipe_inv_def)

lemma reorg_pipe_inv_start: "reorg_start src e s \<Longrightarrow> reorg_pipe_inv s"
  by (auto simp: reorg_start_def rp_init_def Let_def reorg_pipe_inv_def detector_new_def detector_subscribe_def)

interpretation reorg_pipe: invariant_system "reorg_start src e" reorg_pipe_step reorg_pipe_inv for src e
  by unfold_locales (simp_all add: reorg_pipe_inv_start reorg_pipe_inv_step)

section \<open>Catching up\<close>

primrec rp_drain :: "nat \<Rightarrow> reorg_pipe \<Rightarrow> reorg_pipe" where
  "rp_drain 0 s = s"
| "rp_drain (Suc n) s = (case rp_recv s of None \<Rightarrow> s | Some s' \<Rightarrow> rp_drain n s')"

definition backlog :: "reorg_pipe \<Rightarrow> nat" where
  "backlog s = length (det_sent (rp_det s)) - rx_pos (rp_rx s)"

lemma recv_None: "rp_recv s = None \<longleftrightarrow> caught_up s"
  by (auto simp: rp_recv_def rx_recv_def caught_up_def Let_def split: option.splits if_splits)

lemma recv_Some:
  assumes "rp_recv s = Some s'"
  shows "backlog s' \<le> min (backlog s - 1) broadcast_capacity" "rp_det s' = rp_det s" "rp_last s' = rp_last s"
    "declared_jobs (rp_engine s') = dm_empty" "rp_source s' = rp_source s"
  using assms rx_recv_Some(4) [of "rp_det s" "rp_rx s"]
  by (auto simp: rp_recv_def backlog_def split: option.splits)

lemma caught_up_backlog: "caught_up s \<longleftrightarrow> backlog s = 0"
  by (auto simp: caught_up_def backlog_def)

lemma drain_facts:
  "rp_det (rp_drain n s) = rp_det s \<and> rp_last (rp_drain n s) = rp_last s \<and> rp_source (rp_drain n s) = rp_source s"
  by (induction n arbitrary: s) (auto simp: recv_Some split: option.splits)

lemma drain_catches_up: "backlog s \<le> n \<Longrightarrow> caught_up (rp_drain n s)"
proof (induction n arbitrary: s)
  case 0
  then show ?case by (simp add: caught_up_backlog)
next
  case (Suc n)
  show ?case
  proof (cases "rp_recv s")
    case None
    with recv_None [of s] show ?thesis by simp
  next
    case (Some s')
    have "backlog s' \<le> n" using recv_Some(1) [OF Some] Suc.prems by auto
    from Suc.IH [OF this] Some show ?thesis by simp
  qed
qed

lemma drain_empties: "\<not> caught_up s \<Longrightarrow> declared_jobs (rp_engine (rp_drain (Suc n) s)) = dm_empty"
proof (induction n arbitrary: s)
  case 0
  then show ?case using recv_None [of s] recv_Some(4) [of s] by (auto split: option.splits)
next
  case (Suc n)
  then obtain s' where s': "rp_recv s = Some s'" using recv_None [of s] by (cases "rp_recv s") auto
  show ?case
  proof (cases "caught_up s'")
    case True
    then have "rp_recv s' = None" by (simp add: recv_None)
    with s' recv_Some(4) [OF s'] show ?thesis by simp
  next
    case False
    with Suc.IH [OF False] s' show ?thesis by simp
  qed
qed

section \<open>Properties\<close>

text \<open>
  C29: a tip change the detector sees leaves no job behind. Whenever the invalidator has received
  everything that was broadcast, every cached job was cached under the tip the detector sees now, or
  before it saw any. When a poll finds the tip of the snapshot or of the in-process store different from the last
  one, the invalidator is caught up after at most 257 receives, however far it had fallen behind, and the
  cache is empty then.
\<close>

theorem tip_change_flushes_jobs:
  assumes "reach (reorg_start src e) reorg_pipe_step s"
  shows "(caught_up s \<and> dm_get (declared_jobs (rp_engine s)) rid \<noteq> None \<longrightarrow>
      view s rid = None \<or> view s rid = rp_last s) \<and>
    (watched_tip (rp_source s) = Some t \<and> rp_last s = Some p \<and> t \<noteq> p \<longrightarrow>
      (let s' = rp_drain 257 (rp_poll s)
       in caught_up s' \<and> rp_last s' = Some t \<and> declared_jobs (rp_engine s') = dm_empty))"
proof (intro conjI impI)
  note inv = reorg_pipe.inv_reach [OF assms]
  assume "caught_up s \<and> dm_get (declared_jobs (rp_engine s)) rid \<noteq> None"
  with inv show "view s rid = None \<or> view s rid = rp_last s"
    unfolding reorg_pipe_inv_def caught_up_def by (metis le_antisym order_trans)
next
  note inv = reorg_pipe.inv_reach [OF assms]
  assume tips: "watched_tip (rp_source s) = Some t \<and> rp_last s = Some p \<and> t \<noteq> p"
  then have poll: "rp_poll s = s\<lparr>rp_last := Some t, rp_det := (rp_det s)\<lparr>det_sent := det_sent (rp_det s) @ [t]\<rparr>\<rparr>"
    by (simp add: rp_poll_def detector_poll_def poll_once_def)
  with inv have behind: "\<not> caught_up (rp_poll s)" by (simp add: caught_up_def reorg_pipe_inv_def)
  then obtain s1 where s1: "rp_recv (rp_poll s) = Some s1" using recv_None by (cases "rp_recv (rp_poll s)") auto
  have "rp_drain 257 (rp_poll s) = rp_drain 256 s1" using s1 by (simp add: numeral_eq_Suc)
  moreover have "caught_up (rp_drain 256 s1)"
    using recv_Some(1) [OF s1] by (intro drain_catches_up) (simp add: broadcast_capacity_def)
  moreover have "declared_jobs (rp_engine (rp_drain 257 (rp_poll s))) = dm_empty"
    using drain_empties [OF behind, of 256] by simp
  moreover have "rp_last (rp_drain 257 (rp_poll s)) = Some t" using drain_facts [of 257 "rp_poll s"] poll by simp
  ultimately show "let s' = rp_drain 257 (rp_poll s)
      in caught_up s' \<and> rp_last s' = Some t \<and> declared_jobs (rp_engine s') = dm_empty"
    by (simp add: Let_def)
qed

lemma start_reach: "reach (reorg_start src engine_default) reorg_pipe_step (rp_init src engine_default)"
  by (rule reach_start) (simp add: reorg_start_def engine_default_def engine_new_def)

lemma rp_init_simps [simp]: "rp_source (rp_init src e) = src" "rp_last (rp_init src e) = None"
  "rp_engine (rp_init src e) = start_reorg_watcher e" "rp_rx (rp_init src e) = \<lparr>rx_pos = 0\<rparr>"
  "det_sent (rp_det (rp_init src e)) = []"
  by (simp_all add: rp_init_def Let_def detector_new_def detector_subscribe_def)

lemma rp_poll_source [simp]: "rp_source (rp_poll s) = rp_source s"
  by (simp add: rp_poll_def split: prod.splits)

lemma rp_poll_last: "rp_last (rp_poll s) = (case watched_tip (rp_source s) of None \<Rightarrow> rp_last s | Some t \<Rightarrow> Some t)"
  by (auto simp: rp_poll_def detector_poll_def poll_once_def Let_def split: option.splits)

text \<open>
  Seeing two tips one after the other takes four steps from the start, on either backend.
\<close>

lemma two_tips_reach:
  assumes "source_step src0 src1" and "source_step src1 src2"
  shows "reach (reorg_start src0 engine_default) reorg_pipe_step
    ((rp_poll ((rp_init src0 engine_default)\<lparr>rp_source := src1\<rparr>))\<lparr>rp_source := src2\<rparr>)"
  using reach_step [OF reach_step [OF reach_step [OF start_reach reorg_pipe_step.source] reorg_pipe_step.poll]
      reorg_pipe_step.source] assms
  by simp

theorem tip_change_flushes_jobs_witness:
  "\<exists>s. reach (reorg_start (InProcessStore sample_store) engine_default) reorg_pipe_step s \<and>
     rp_last (rp_drain 257 (rp_poll s)) = Some chain_b \<and>
     declared_jobs (rp_engine (rp_drain 257 (rp_poll s))) = dm_empty"
proof -
  let ?at = "\<lambda>t. InProcessStore (sample_store\<lparr>cs_get_chain_tip := Inr t\<rparr>)"
  let ?s = "(rp_poll ((rp_init (InProcessStore sample_store) engine_default)\<lparr>rp_source := ?at chain_a\<rparr>))
    \<lparr>rp_source := ?at chain_b\<rparr>"
  have r: "reach (reorg_start (InProcessStore sample_store) engine_default) reorg_pipe_step ?s"
    by (rule two_tips_reach) simp_all
  have "watched_tip (rp_source ?s) = Some chain_b \<and> rp_last ?s = Some chain_a \<and> chain_b \<noteq> chain_a"
    by (simp add: rp_poll_last chain_a_def chain_b_def)
  with tip_change_flushes_jobs [OF r] r show ?thesis by (intro exI [of _ ?s]) (auto simp: Let_def)
qed

text \<open>
  A change that is undone between two polls is not a change to the detector: a job that was declared
  on tip \<open>B\<close> stays cached although the tip is \<open>A\<close> again.
\<close>

lemma change_between_polls_unseen:
  assumes "length A = 32" and "length B = 32" and "job_share_chain_tip job = Some B"
  shows "\<exists>s. reach (reorg_start (IpcSnapshot actor_new) engine_default) reorg_pipe_step s \<and> caught_up s \<and>
    watched_tip (rp_source s) = Some A \<and> rp_last s = Some A \<and>
    dm_get (declared_jobs (rp_engine s)) rid = Some job"
proof -
  let ?e = "start_reorg_watcher engine_default"
  let ?a1 = "on_tip_push A actor_new" and ?a2 = "on_tip_push B (on_tip_push A actor_new)"
  let ?s1 = "(rp_poll ((rp_init (IpcSnapshot actor_new) engine_default)\<lparr>rp_source := IpcSnapshot ?a1\<rparr>))
    \<lparr>rp_source := IpcSnapshot ?a2\<rparr>"
  let ?s2 = "note_cached ?s1 (?e\<lparr>declared_jobs := dm_insert rid job (declared_jobs ?e)\<rparr>)"
  let ?s3 = "rp_poll (?s2\<lparr>rp_source := IpcSnapshot (on_tip_push A ?a2)\<rparr>)"
  have s1: "reach (reorg_start (IpcSnapshot actor_new) engine_default) reorg_pipe_step ?s1"
    by (rule two_tips_reach) auto
  have "source_step (rp_source ?s2) (IpcSnapshot (on_tip_push A ?a2))" by (auto simp: note_cached_def Let_def)
  from reach_step [OF reach_step [OF s1 reorg_pipe_step.other] reorg_pipe_step.source [OF this]]
  have "reach (reorg_start (IpcSnapshot actor_new) engine_default) reorg_pipe_step ?s3"
    by (rule reach_step) (rule reorg_pipe_step.poll)
  then show ?thesis
    using assms(1,2)
    by (intro exI [of _ ?s3])
      (simp add: rp_poll_def detector_poll_def poll_once_def note_cached_def on_tip_push_facts caught_up_def)
qed

end
