(* ===== verification/Tip_Subscriptions.thy ===== *)
theory Tip_Subscriptions
  imports Reorg_Pipeline "HOL-Library.Sublist"
begin

text \<open>
  \<open>ShareChainReader::subscribe_tip\<close> of the three share-chain readers and \<open>ReorgDetector::subscribe\<close>: each
  hands out a receiver of a bounded tokio broadcast. The locale \<open>tip_feed\<close> says what a reader promises
  (it only ever appends to its channel) and shows once what a subscriber gets; it is interpreted for the
  IPC actor, the in-process wrapper, the test double and the detector.
\<close>

section \<open>A bounded broadcast\<close>

definition ch_subscribe :: "block_hash list \<Rightarrow> tip_receiver" where
  "ch_subscribe sent = \<lparr>rx_pos = length sent\<rparr>"

definition ch_recv :: "nat \<Rightarrow> block_hash list \<Rightarrow> tip_receiver \<Rightarrow> (recv_result \<times> tip_receiver) option" where
  "ch_recv c sent rx =
     (let tail = length sent; pos = rx_pos rx
      in if tail \<le> pos then None
         else if c < tail - pos then Some (Lagged (word_of_nat (tail - pos - c)), rx\<lparr>rx_pos := tail - c\<rparr>)
         else Some (RecvOk (sent ! pos), rx\<lparr>rx_pos := Suc pos\<rparr>))"

text \<open>
  Everything a receiver gets until the channel is empty. A channel holds at least one value.
\<close>

function ch_drain :: "nat \<Rightarrow> block_hash list \<Rightarrow> tip_receiver \<Rightarrow> recv_result list" where
  "ch_drain c sent rx =
     (case ch_recv (max (Suc 0) c) sent rx of None \<Rightarrow> [] | Some (r, rx') \<Rightarrow> r # ch_drain c sent rx')"
  by pat_completeness auto
termination
  by (relation "measure (\<lambda>(c, sent, rx). length sent - rx_pos rx)")
    (auto simp: ch_recv_def Let_def split: if_splits)

declare ch_drain.simps [simp del]

text \<open>
  The reference: all of the new values in order when they fit, and otherwise how many were missed
  and then the last ones.
\<close>

definition delivered :: "nat \<Rightarrow> block_hash list \<Rightarrow> recv_result list" where
  "delivered c new =
     (if length new \<le> c then map RecvOk new
      else Lagged (word_of_nat (length new - c)) # map RecvOk (drop (length new - c) new))"

lemma drain_fits:
  "0 < c \<Longrightarrow> length sent - rx_pos rx \<le> c \<Longrightarrow> ch_drain c sent rx = map RecvOk (drop (rx_pos rx) sent)"
proof (induction c sent rx rule: ch_drain.induct)
  case (1 c sent rx)
  show ?case
  proof (cases "rx_pos rx < length sent")
    case True
    with "1.prems" have r: "ch_recv (max (Suc 0) c) sent rx = Some (RecvOk (sent ! rx_pos rx), rx\<lparr>rx_pos := Suc (rx_pos rx)\<rparr>)"
      by (simp add: ch_recv_def Let_def)
    with "1.IH" [OF r refl] "1.prems" True have
      "ch_drain c sent (rx\<lparr>rx_pos := Suc (rx_pos rx)\<rparr>) = map RecvOk (drop (Suc (rx_pos rx)) sent)" by simp
    moreover have "drop (rx_pos rx) sent = sent ! rx_pos rx # drop (Suc (rx_pos rx)) sent"
      using True by (simp add: Cons_nth_drop_Suc)
    ultimately show ?thesis by (subst ch_drain.simps) (simp add: r)
  next
    case False
    then show ?thesis by (subst ch_drain.simps) (simp add: ch_recv_def)
  qed
qed

lemma drain_delivers: "0 < c \<Longrightarrow> ch_drain c sent rx = delivered c (drop (rx_pos rx) sent)"
proof (cases "length sent - rx_pos rx \<le> c")
  case False
  assume c: "0 < c"
  let ?rx = "rx\<lparr>rx_pos := length sent - c\<rparr>"
  have "ch_recv (max (Suc 0) c) sent rx = Some (Lagged (word_of_nat (length sent - rx_pos rx - c)), ?rx)"
    using False c by (simp add: ch_recv_def Let_def max_def)
  then have "ch_drain c sent rx = Lagged (word_of_nat (length sent - rx_pos rx - c)) # ch_drain c sent ?rx"
    by (subst ch_drain.simps) simp
  moreover have "ch_drain c sent ?rx = map RecvOk (drop (length sent - c) sent)"
    using drain_fits [OF c, of sent ?rx] by simp
  moreover have "length sent - rx_pos rx - c + rx_pos rx = length sent - c" using False by simp
  ultimately show ?thesis using False by (simp add: delivered_def)
qed (simp add: drain_fits delivered_def)

section \<open>What a reader promises\<close>

locale tip_feed =
  fixes capacity :: nat
    and sent :: "'s \<Rightarrow> block_hash list"
    and step :: "'s \<Rightarrow> 's \<Rightarrow> bool"
  assumes capacity_pos: "0 < capacity"
    and step_appends: "step s s' \<Longrightarrow> prefix (sent s) (sent s')"
begin

lemma run_appends: "step\<^sup>*\<^sup>* s s' \<Longrightarrow> prefix (sent s) (sent s')"
  by (induction rule: rtranclp_induct) (auto dest: step_appends intro: prefix_order.trans)

lemma subscriber_gets:
  assumes "step\<^sup>*\<^sup>* s s'" and "sent s' = sent s @ new"
  shows "ch_drain capacity (sent s') (ch_subscribe (sent s)) = delivered capacity new"
  using drain_delivers [OF capacity_pos] assms(2) by (simp add: ch_subscribe_def)

text \<open>A subscriber that comes later gets the end of what an earlier one gets, if both keep up.\<close>

lemma later_subscriber:
  assumes "step\<^sup>*\<^sup>* s0 s1" and "step\<^sup>*\<^sup>* s1 s2" and "length (sent s2) \<le> length (sent s0) + capacity"
  shows "suffix (ch_drain capacity (sent s2) (ch_subscribe (sent s1))) (ch_drain capacity (sent s2) (ch_subscribe (sent s0)))"
proof -
  obtain u v where u: "sent s1 = sent s0 @ u" and v: "sent s2 = sent s1 @ v"
    using run_appends [OF assms(1)] run_appends [OF assms(2)] by (metis prefixE)
  have "ch_drain capacity (sent s2) (ch_subscribe (sent s1)) = delivered capacity v"
    by (rule subscriber_gets [OF assms(2) v])
  moreover have "ch_drain capacity (sent s2) (ch_subscribe (sent s0)) = delivered capacity (u @ v)"
    using subscriber_gets [OF rtranclp_trans [OF assms(1,2)]] u v by simp
  ultimately show ?thesis using assms(3) u v by (simp add: delivered_def suffix_def)
qed

end

section \<open>The readers\<close>

definition ipc_tip_capacity :: nat where
  "ipc_tip_capacity = 64"

definition ipc_subscribe_tip :: "actor \<Rightarrow> tip_receiver" where
  "ipc_subscribe_tip a = ch_subscribe (tip_broadcast a)"

definition actor_moves :: "actor \<Rightarrow> actor \<Rightarrow> bool" where
  "actor_moves a a' \<longleftrightarrow> (\<exists>bs. a' = on_tip_push bs a) \<or> (\<exists>S. a' = fetch_height S a)"

lemma fetch_height_broadcast [simp]: "tip_broadcast (fetch_height S a) = tip_broadcast a"
  by (simp add: fetch_height_def Let_def split: result.splits tip_height_result.splits)

interpretation ipc_feed: tip_feed ipc_tip_capacity tip_broadcast actor_moves
  by unfold_locales (auto simp: ipc_tip_capacity_def actor_moves_def on_tip_push_facts)

record in_process =
  ip_chain :: chain_store
  ip_network :: network
  ip_tip_tx :: "block_hash list"

definition in_process_tip_capacity :: nat where
  "in_process_tip_capacity = 16"

definition in_process_new :: "chain_store \<Rightarrow> in_process" where
  "in_process_new cs = \<lparr>ip_chain = cs, ip_network = cs_network cs, ip_tip_tx = []\<rparr>"

definition in_process_reader :: "in_process \<Rightarrow> share_chain_reader" where
  "in_process_reader c =
     \<lparr>rd_get_chain_tip = inproc_get_chain_tip (ip_chain c), rd_get_share_header = inproc_get_share_header (ip_chain c),
      rd_get_tip_height = inproc_get_tip_height (ip_chain c), rd_network = ip_network c\<rparr>"

definition in_process_subscribe_tip :: "in_process \<Rightarrow> tip_receiver" where
  "in_process_subscribe_tip c = ch_subscribe (ip_tip_tx c)"

text \<open>
  The store changes under the wrapper; no operation of the wrapper sends.
\<close>

definition in_process_moves :: "in_process \<Rightarrow> in_process \<Rightarrow> bool" where
  "in_process_moves c c' \<longleftrightarrow> (\<exists>cs. c' = c\<lparr>ip_chain := cs\<rparr>)"

interpretation in_process_feed: tip_feed in_process_tip_capacity ip_tip_tx in_process_moves
  by unfold_locales (auto simp: in_process_tip_capacity_def in_process_moves_def)

definition mock_tip_capacity :: nat where
  "mock_tip_capacity = 16"

definition mock_subscribe_tip :: "mock_share_chain \<Rightarrow> tip_receiver" where
  "mock_subscribe_tip m = ch_subscribe (mock_pushed m)"

definition mock_moves :: "mock_share_chain \<Rightarrow> mock_share_chain \<Rightarrow> bool" where
  "mock_moves m m' \<longleftrightarrow> (\<exists>t. m' = mock_push_tip t m)"

interpretation mock_feed: tip_feed mock_tip_capacity mock_pushed mock_moves
  by unfold_locales (auto simp: mock_tip_capacity_def mock_moves_def mock_push_tip_def)

definition detector_moves :: "reorg_detector \<Rightarrow> reorg_detector \<Rightarrow> bool" where
  "detector_moves d d' \<longleftrightarrow> (\<exists>tip last_tip. d' = snd (detector_poll tip last_tip d))"

interpretation detector_feed: tip_feed broadcast_capacity det_sent detector_moves
  by unfold_locales (auto simp: broadcast_capacity_def detector_moves_def detector_poll_def split_beta)

text \<open>The detector's channel is this one.\<close>

lemma rx_recv_is_ch_recv: "rx_recv d rx = ch_recv broadcast_capacity (det_sent d) rx"
  by (simp add: rx_recv_def ch_recv_def Let_def)

lemma detector_subscribe_is: "detector_subscribe d = ch_subscribe (det_sent d)"
  by (simp add: detector_subscribe_def ch_subscribe_def)

section \<open>Properties\<close>

lemma pushes_broadcast:
  "tip_broadcast (foldl (\<lambda>a bs. on_tip_push bs a) a pushes) = tip_broadcast a @ filter (\<lambda>bs. length bs = 32) pushes"
  by (induction pushes arbitrary: a) (simp_all add: on_tip_push_facts)

lemma pushes_run: "actor_moves\<^sup>*\<^sup>* a (foldl (\<lambda>a bs. on_tip_push bs a) a pushes)"
proof (induction pushes arbitrary: a)
  case (Cons bs pushes)
  have "actor_moves a (on_tip_push bs a)" by (auto simp: actor_moves_def)
  with Cons show ?case by (simp add: converse_rtranclp_into_rtranclp)
qed simp

text \<open>
  A subscriber of the IPC backend gets the well-formed tips pushed since it subscribed, in order, each
  once, up to 64 of them; after a longer burst it is told how many it missed and gets the last 64,
  and the tip the watcher reads from the snapshot is the last value it gets.
\<close>

lemma ipc_subscriber_gets_pushes:
  fixes a and pushes
  defines "a' \<equiv> foldl (\<lambda>a bs. on_tip_push bs a) a pushes" and "good \<equiv> filter (\<lambda>bs. length bs = 32) pushes"
  shows "ch_drain ipc_tip_capacity (tip_broadcast a') (ipc_subscribe_tip a) = delivered ipc_tip_capacity good"
    and "good \<noteq> [] \<Longrightarrow> load_tip (snapshot a') = Some (last good) \<and>
      last (delivered ipc_tip_capacity good) = RecvOk (last good)"
proof -
  show "ch_drain ipc_tip_capacity (tip_broadcast a') (ipc_subscribe_tip a) = delivered ipc_tip_capacity good"
    unfolding a'_def good_def ipc_subscribe_tip_def
    by (rule ipc_feed.subscriber_gets [OF pushes_run pushes_broadcast])
  assume good: "good \<noteq> []"
  have "load_tip (snapshot (foldl (\<lambda>a bs. on_tip_push bs a) a ps)) =
      (let g = filter (\<lambda>bs. length bs = 32) ps in if g = [] then load_tip (snapshot a) else Some (last g))" for ps
    by (induction ps rule: rev_induct) (simp_all add: on_tip_push_facts Let_def)
  from this [of pushes] good have "load_tip (snapshot a') = Some (last good)" by (simp add: a'_def good_def Let_def)
  moreover have "last (delivered ipc_tip_capacity good) = RecvOk (last good)"
    using good by (cases "length good \<le> 64") (simp_all add: delivered_def last_map ipc_tip_capacity_def last_drop)
  ultimately show "load_tip (snapshot a') = Some (last good) \<and>
      last (delivered ipc_tip_capacity good) = RecvOk (last good)" by blast
qed

text \<open>
  A subscriber of the in-process backend never gets anything, whatever the store does; its reads are
  those of the backend.
\<close>

lemma in_process_feed_silent:
  assumes "in_process_moves\<^sup>*\<^sup>* (in_process_new cs) c" and "in_process_moves\<^sup>*\<^sup>* c c'"
  shows "ch_drain in_process_tip_capacity (ip_tip_tx c') (in_process_subscribe_tip c) = []"
    and "cs_network (ip_chain c) = cs_network cs \<Longrightarrow> in_process_reader c = in_process_chain (ip_chain c)"
proof -
  have silent: "ip_tip_tx d' = ip_tip_tx d \<and> ip_network d' = ip_network d" if "in_process_moves\<^sup>*\<^sup>* d d'" for d d'
    using that by (induction rule: rtranclp_induct) (auto simp: in_process_moves_def)
  show "ch_drain in_process_tip_capacity (ip_tip_tx c') (in_process_subscribe_tip c) = []"
    using in_process_feed.subscriber_gets [OF assms(2), of "[]"] silent [OF assms(2)]
    by (simp add: in_process_subscribe_tip_def delivered_def)
  show "in_process_reader c = in_process_chain (ip_chain c)" if "cs_network (ip_chain c) = cs_network cs"
    using that silent [OF assms(1)] by (simp add: in_process_reader_def in_process_chain_def in_process_new_def)
qed

text \<open>
  Over a tip change the difference shows: the watcher's poll sees the new tip of the store while a
  subscriber of the in-process backend waits.
\<close>

lemma in_process_poll_only:
  "watched_tip (InProcessStore (cs\<lparr>cs_get_chain_tip := Inr t\<rparr>)) = Some t \<and>
   ch_recv in_process_tip_capacity (ip_tip_tx ((in_process_new cs)\<lparr>ip_chain := cs\<lparr>cs_get_chain_tip := Inr t\<rparr>\<rparr>))
     (in_process_subscribe_tip (in_process_new cs)) = None"
  by (simp add: in_process_new_def in_process_subscribe_tip_def ch_subscribe_def ch_recv_def)

end
