(* ===== verification/Engine_Pipeline.thy ===== *)
theory Engine_Pipeline
  imports Engine_Push Tdp_Pipeline
begin

text \<open>
  The handlers that fetch transactions, over the running template path: the engine's handle is the one
  inside \<open>Tdp_Pipeline\<close>, and what happens at the two suspension points of \<open>request_tx_bodies\<close> is a run of
  that system. The handler's own call makes the steps \<open>pipe_call\<close> and \<open>pipe_send\<close>; meanwhile the merge,
  the provider, the tee, the channel manager and callers for other templates go on.
\<close>

section \<open>A call of the handler in the template path\<close>

definition pipe_call :: "u64 \<Rightarrow> tdp_pipe \<Rightarrow> tdp_pipe" where
  "pipe_call t s = s\<lparr>p_tdp := (p_tdp s)\<lparr>sys_h := snd (tdp_register t (sys_h (p_tdp s))),
     sys_calls := sys_calls (p_tdp s) @ [(t, Registered)]\<rparr>\<rparr>"

definition pipe_send :: "u64 \<Rightarrow> nat \<Rightarrow> tdp_pipe \<Rightarrow> tdp_pipe" where
  "pipe_send t i s = s\<lparr>p_tdp := (p_tdp s)\<lparr>sys_h := snd (tdp_send t (sys_h (p_tdp s))),
     sys_calls := (sys_calls (p_tdp s))[i := (t, Waiting)]\<rparr>,
     p_merge := eng_request t (sys_h (p_tdp s)) (p_merge s)\<rparr>"

text \<open>
  Anything else the system does while the channels stay up and no call for template \<open>t\<close> moves.
\<close>

definition calls_for :: "u64 \<Rightarrow> tdp_pipe \<Rightarrow> (u64 \<times> phase) list" where
  "calls_for t s = filter (\<lambda>c. fst c = t) (sys_calls (p_tdp s))"

definition meanwhile :: "externals \<Rightarrow> (u64 \<Rightarrow> tx_data_result) \<Rightarrow> u64 \<Rightarrow> tdp_pipe \<Rightarrow> tdp_pipe \<Rightarrow> bool" where
  "meanwhile X answer t s s' \<longleftrightarrow> pipe_step X answer s s' \<and> pipe_up s' \<and> calls_for t s' = calls_for t s"

text \<open>
  \<open>path_progress\<close> is any run up to the end of the wait, \<open>s2\<close> being the state the wait ends in, however
  little the path did until then (the timeout of \<open>request_tx_bodies\<close> has elapsed if no answer is there);
  in a \<open>path_run\<close> the path has come to rest by the end of the wait.
\<close>

definition path_progress ::
  "externals \<Rightarrow> (u64 \<Rightarrow> tx_data_result) \<Rightarrow> u64 \<Rightarrow> tdp_pipe \<Rightarrow> tdp_pipe \<Rightarrow> tdp_pipe \<Rightarrow> bool" where
  "path_progress X answer t s s1 s2 \<longleftrightarrow>
     (meanwhile X answer t)\<^sup>*\<^sup>* (pipe_call t s) s1 \<and>
     (meanwhile X answer t)\<^sup>*\<^sup>* (pipe_send t (length (sys_calls (p_tdp s))) s1) s2"

definition at_rest :: "(u64 \<Rightarrow> tx_data_result) \<Rightarrow> tdp_pipe \<Rightarrow> bool" where
  "at_rest answer s \<longleftrightarrow> (\<nexists>s'. pipe_work answer s s')"

definition path_run ::
  "externals \<Rightarrow> (u64 \<Rightarrow> tx_data_result) \<Rightarrow> u64 \<Rightarrow> tdp_pipe \<Rightarrow> tdp_pipe \<Rightarrow> tdp_pipe \<Rightarrow> bool" where
  "path_run X answer t s s1 s2 \<longleftrightarrow> path_progress X answer t s s1 s2 \<and> at_rest answer s2"

text \<open>
  What the handler's own call, made in \<open>s\<close>, finds in its one-shot when the wait ends.
\<close>

definition wait_outcome :: "tdp_pipe \<Rightarrow> tdp_pipe \<Rightarrow> await_outcome" where
  "wait_outcome s s2 = poll_oneshot (length (sys_calls (p_tdp s))) (sys_h (p_tdp s2))"

definition path_env :: "tdp_pipe \<Rightarrow> tdp_pipe \<Rightarrow> env" where
  "path_env s1 s2 n e =
     (if n = 2 then put_tdp (sys_h (p_tdp s1)) e else if n = 3 then put_tdp (sys_h (p_tdp s2)) e else e)"

lemma tdp_only_path_env [simp]: "tdp_only (path_env s1 s2)"
  by (auto simp: tdp_only_def path_env_def)

lemma path_env_0 [simp]: "path_env s1 s2 0 e = e" "path_env s1 s2 (Suc 0) e = e" "path_env s1 s2 4 e = e"
  by (simp_all add: path_env_def)

section \<open>The one-shot stays connected\<close>

definition connected :: "nat \<Rightarrow> u64 \<Rightarrow> phase \<Rightarrow> tdp_sys \<Rightarrow> bool" where
  "connected i t ph y \<longleftrightarrow> i < length (sys_calls y) \<and> sys_calls y ! i = (t, ph) \<and>
     oneshots (sys_h y) ! i \<noteq> OSenderDropped \<and> oneshots (sys_h y) ! i \<noteq> OReceiverDropped"

lemma filter_moves:
  assumes "j < length xs" and "xs ! j = (t, a)" and "a \<noteq> b"
  shows "filter (\<lambda>c. fst c = t) (xs[j := (t, b)]) \<noteq> filter (\<lambda>c. fst c = t) xs"
proof -
  have "xs = take j xs @ (t, a) # drop (Suc j) xs" using assms(1,2) by (metis id_take_nth_drop)
  then have "filter (\<lambda>c. fst c = t) xs =
      filter (\<lambda>c. fst c = t) (take j xs) @ (t, a) # filter (\<lambda>c. fst c = t) (drop (Suc j) xs)"
    by (metis (mono_tags) filter.simps(2) filter_append fst_conv)
  moreover have "filter (\<lambda>c. fst c = t) (xs[j := (t, b)]) =
      filter (\<lambda>c. fst c = t) (take j xs) @ (t, b) # filter (\<lambda>c. fst c = t) (drop (Suc j) xs)"
    using assms(1) by (simp add: upd_conv_take_nth_drop)
  ultimately show ?thesis using assms(3) by simp
qed

lemma other_template:
  assumes "filter (\<lambda>c. fst c = t) ((sys_calls y)[j := (t', b)]) = filter (\<lambda>c. fst c = t) (sys_calls y)"
    and "j < length (sys_calls y)" and "sys_calls y ! j = (t', a)" and "a \<noteq> b"
  shows "t' \<noteq> t"
  using filter_moves [OF assms(2)] assms by metis

lemma connected_remove:
  assumes "shots_ok X y" and "connected i t ph y" and "t' \<noteq> t" and "h = sys_h y \<or> h = drop_receiver j (sys_h y)"
  shows "oneshots (remove_pending t' h) ! i = oneshots h ! i"
proof -
  have same: "length (oneshots h) = length (oneshots (sys_h y))" "pending_requests h = pending_requests (sys_h y)"
    using assms(4) drop_receiver_facts(1,3) by metis+
  have i: "i < length (sys_calls y)" "fst (sys_calls y ! i) = t" using assms(2) by (simp_all add: connected_def)
  have "i < length (oneshots h)" using i(1) same(1) shots_okD(3) [OF assms(1)] by simp
  moreover have "dm_get (pending_requests h) t' \<noteq> Some i"
    unfolding same(2) using shots_okD(5) [OF assms(1), of t' i] i(2) assms(3) by blast
  moreover have "tdp_ok h" using assms(4) shots_okD(2) [OF assms(1)] by (auto simp: tdp_ok_drop_receiver)
  ultimately show ?thesis using remove_pending_shot [of h i] by blast
qed

lemma connected_step:
  assumes "tdp_step X y y'" and "shots_ok X y" and "connected i t ph y"
    and "filter (\<lambda>c. fst c = t) (sys_calls y') = filter (\<lambda>c. fst c = t) (sys_calls y)"
  shows "connected i t ph y'"
  using assms(1)
proof (cases rule: tdp_step.cases)
  case (call t' j h)
  then show ?thesis
    using assms(3) shots_okD(3) [OF assms(2)]
    by (auto simp: connected_def tdp_register_def Let_def nth_append split: option.splits)
next
  case (send j t' r h)
  have "after_send r \<noteq> Registered" by (cases r) auto
  then have other: "t' \<noteq> t" using other_template [of t y j t' "after_send r"] assms(4) send by auto
  then have "j \<noteq> i" using assms(3) send(3) by (auto simp: connected_def)
  moreover have "oneshots h ! i = oneshots (sys_h y) ! i"
    using send(4) connected_remove [OF assms(2,3) other] by (auto simp: tdp_send_def split: if_splits)
  ultimately show ?thesis using assms(3) send(1) by (simp add: connected_def)
next
  case (poll j t')
  have "t' \<noteq> t" using other_template [of t y j t' "Decided (poll_oneshot j (sys_h y))"] assms(4) poll by auto
  then have "j \<noteq> i" using assms(3) poll(3) by (auto simp: connected_def)
  then show ?thesis using assms(3) poll(1) by (simp add: connected_def)
next
  case (finish j t' oc r h)
  have other: "t' \<noteq> t" using other_template [of t y j t' "Done r"] assms(4) finish by auto
  then have "j \<noteq> i" using assms(3) finish(3) by (auto simp: connected_def)
  moreover from this have "oneshots h ! i = oneshots (sys_h y) ! i"
    using finish(4) connected_remove [OF assms(2,3) other, of _ j]
    by (cases oc) (auto simp: finish_wait_def, simp add: drop_receiver_def)
  ultimately show ?thesis using assms(3) finish(1) by (simp add: connected_def)
next
  case (deliver t' r b h)
  then show ?thesis
    using assms(3)
    by (auto simp: connected_def deliver_response_def Let_def nth_list_update split: option.splits if_splits)
qed (use assms(3) in \<open>auto simp: connected_def record_set_new_prev_hash_def record_new_template_def\<close>)

section \<open>Runs\<close>

lemma meanwhile_step:
  assumes "meanwhile X answer t s s'" and "reach pipe_start (pipe_step X answer) s" and "connected i t ph (p_tdp s)"
  shows "reach pipe_start (pipe_step X answer) s' \<and> pipe_up s' \<and> connected i t ph (p_tdp s')"
proof -
  from assms(1) have step: "pipe_step X answer s s'" and up: "pipe_up s'"
    and calls: "filter (\<lambda>c. fst c = t) (sys_calls (p_tdp s')) = filter (\<lambda>c. fst c = t) (sys_calls (p_tdp s))"
    by (simp_all add: meanwhile_def calls_for_def)
  have "pipe_parts X s" using pipe.inv_reach [OF assms(2)] by (simp add: pipe_inv_def)
  from pipe_step_tdp [OF step this] have "connected i t ph (p_tdp s')"
    using connected_step [OF _ shots.inv_reach [OF pipe_projects [OF assms(2)]] assms(3) calls] assms(3) by auto
  with up reach_step [OF assms(2) step] show ?thesis by blast
qed

lemma meanwhile_run:
  assumes "(meanwhile X answer t)\<^sup>*\<^sup>* s s'" and "reach pipe_start (pipe_step X answer) s" and "pipe_up s"
    and "connected i t ph (p_tdp s)"
  shows "reach pipe_start (pipe_step X answer) s' \<and> pipe_up s' \<and> connected i t ph (p_tdp s')"
  using assms
proof (induction rule: rtranclp_induct)
  case base
  then show ?case by blast
next
  case (step s1 s2)
  then show ?case using meanwhile_step by blast
qed

lemma pipe_call_step:
  assumes "reach pipe_start (pipe_step X answer) s" and "dm_get (pending_requests (sys_h (p_tdp s))) t = None"
  shows "reach pipe_start (pipe_step X answer) (pipe_call t s)"
    and "connected (length (sys_calls (p_tdp s))) t Registered (p_tdp (pipe_call t s))"
    and "pipe_up (pipe_call t s) = pipe_up s"
    and "tdp_register t (sys_h (p_tdp s)) = (Ok (length (sys_calls (p_tdp s))), sys_h (p_tdp (pipe_call t s)))"
proof -
  note len = shots_okD(3) [OF shots.inv_reach [OF pipe_projects [OF assms(1)]]]
  show reg: "tdp_register t (sys_h (p_tdp s)) = (Ok (length (sys_calls (p_tdp s))), sys_h (p_tdp (pipe_call t s)))"
    using assms(2) len by (simp add: tdp_register_def pipe_call_def Let_def)
  show "reach pipe_start (pipe_step X answer) (pipe_call t s)"
    using reach_step [OF assms(1) pipe_step.call [OF refl reg]] by (simp add: pipe_call_def)
  show "connected (length (sys_calls (p_tdp s))) t Registered (p_tdp (pipe_call t s))"
    using assms(2) len by (simp add: connected_def pipe_call_def tdp_register_def Let_def nth_append)
  show "pipe_up (pipe_call t s) = pipe_up s" by (simp add: pipe_up_def pipe_call_def)
qed

lemma pipe_send_step:
  assumes "reach pipe_start (pipe_step X answer) s" and "connected i t Registered (p_tdp s)" and "pipe_up s"
  shows "reach pipe_start (pipe_step X answer) (pipe_send t i s)" and "connected i t Waiting (p_tdp (pipe_send t i s))"
    and "pipe_up (pipe_send t i s)" and "tdp_send t (sys_h (p_tdp s)) = (Ok (), sys_h (p_tdp (pipe_send t i s)))"
proof -
  have parts: "pipe_parts X s" using pipe.inv_reach [OF assms(1)] by (simp add: pipe_inv_def)
  then have opened: "\<not> tx_request_closed (sys_h (p_tdp s))" using assms(3) by (simp add: pipe_parts_def pipe_up_def)
  from assms(2) have i: "i < length (sys_calls (p_tdp s))" "sys_calls (p_tdp s) ! i = (t, Registered)"
    by (simp_all add: connected_def)
  show send: "tdp_send t (sys_h (p_tdp s)) = (Ok (), sys_h (p_tdp (pipe_send t i s)))"
    using opened by (simp add: tdp_send_def pipe_send_def)
  show "reach pipe_start (pipe_step X answer) (pipe_send t i s)"
    using reach_step [OF assms(1) pipe_step.send [OF refl i send]] by (simp add: pipe_send_def)
  show "connected i t Waiting (p_tdp (pipe_send t i s))"
    using assms(2) opened by (simp add: connected_def pipe_send_def tdp_send_def)
  show "pipe_up (pipe_send t i s)"
    using assms(3) opened by (simp add: pipe_up_def pipe_send_def eng_request_def eng_push_def)
qed

lemma path_progress_waits:
  assumes "reach pipe_start (pipe_step X answer) s" and "pipe_up s"
    and "dm_get (pending_requests (sys_h (p_tdp s))) t = None" and "path_progress X answer t s s1 s2"
  shows "reach pipe_start (pipe_step X answer) s1 \<and> pipe_up s1 \<and>
      connected (length (sys_calls (p_tdp s))) t Registered (p_tdp s1)"
    and "reach pipe_start (pipe_step X answer) s2 \<and> pipe_up s2 \<and>
      connected (length (sys_calls (p_tdp s))) t Waiting (p_tdp s2)"
proof -
  let ?i = "length (sys_calls (p_tdp s))"
  from assms(4) have runs: "(meanwhile X answer t)\<^sup>*\<^sup>* (pipe_call t s) s1"
    "(meanwhile X answer t)\<^sup>*\<^sup>* (pipe_send t ?i s1) s2"
    by (simp_all add: path_progress_def)
  note call = pipe_call_step [OF assms(1,3)]
  from meanwhile_run [OF runs(1) call(1) _ call(2)] call(3) assms(2)
  show s1: "reach pipe_start (pipe_step X answer) s1 \<and> pipe_up s1 \<and> connected ?i t Registered (p_tdp s1)" by auto
  then have send: "reach pipe_start (pipe_step X answer) (pipe_send t ?i s1)"
    "connected ?i t Waiting (p_tdp (pipe_send t ?i s1))" "pipe_up (pipe_send t ?i s1)"
    using pipe_send_step(1-3) by blast+
  from meanwhile_run [OF runs(2) send(1,3,2)]
  show "reach pipe_start (pipe_step X answer) s2 \<and> pipe_up s2 \<and> connected ?i t Waiting (p_tdp s2)" .
qed

text \<open>
  The wait ends with the provider's answer for the template or with the timeout, and with the answer
  when the path has come to rest.
\<close>

lemma path_progress_outcome:
  assumes "reach pipe_start (pipe_step X answer) s" and "pipe_up s"
    and "dm_get (pending_requests (sys_h (p_tdp s))) t = None" and "path_progress X answer t s s1 s2"
  shows "wait_outcome s s2 = Received (answer t) \<or> wait_outcome s s2 = Elapsed"
    and "at_rest answer s2 \<Longrightarrow> wait_outcome s s2 = Received (answer t)"
proof -
  let ?i = "length (sys_calls (p_tdp s))"
  from path_progress_waits(2) [OF assms] have s2: "reach pipe_start (pipe_step X answer) s2" "pipe_up s2"
    and con: "connected ?i t Waiting (p_tdp s2)" by blast+
  then have i: "?i < length (sys_calls (p_tdp s2))" "sys_calls (p_tdp s2) ! ?i = (t, Waiting)"
    by (simp_all add: connected_def)
  have open_shot: "wait_outcome s s2 \<noteq> RecvClosed"
    using con by (auto simp: wait_outcome_def connected_def poll_oneshot_def split: oneshot.splits)
  have own: "oneshots_owned (p_tdp s2)"
    using shots_okD(1) [OF shots.inv_reach [OF pipe_projects [OF s2(1)]]] by (simp add: tdp_inv_def)
  have "r = answer t" if "wait_outcome s s2 = Received r" for r
    using poll_Received [OF own i(1)] that i(2) log_answers [OF pipe.inv_reach [OF s2(1)]]
    by (simp add: wait_outcome_def)
  with open_shot show "wait_outcome s s2 = Received (answer t) \<or> wait_outcome s s2 = Elapsed"
    by (cases "wait_outcome s s2") auto
  show "wait_outcome s s2 = Received (answer t)" if "at_rest answer s2"
    using idle_served [OF s2 _ i] that open_shot by (auto simp: at_rest_def wait_outcome_def)
qed

text \<open>
  There always is such a run: the tasks of the path come to rest.
\<close>

lemma work_rests: "\<exists>s'. (pipe_work answer)\<^sup>*\<^sup>* s s' \<and> (\<nexists>s''. pipe_work answer s' s'')"
proof (induction s rule: wfp_induct_rule [OF pipe_work_wf [of answer]])
  case (1 s)
  show ?case
  proof (cases "\<exists>s'. pipe_work answer s s'")
    case True
    with 1 show ?thesis by (meson converse_rtranclp_into_rtranclp)
  qed blast
qed

lemma work_calls:
  assumes "pipe_work answer s s'"
  shows "sys_calls (p_tdp s') = sys_calls (p_tdp s)"
  using assms by (cases rule: pipe_work.cases) (simp_all add: close_requests_def send_from_tp_def tee_sys_def)

lemma work_meanwhile: "(pipe_work answer)\<^sup>*\<^sup>* s s' \<Longrightarrow> pipe_up s \<Longrightarrow> (meanwhile X answer t)\<^sup>*\<^sup>* s s'"
proof (induction rule: rtranclp_induct)
  case (step s1 s2)
  have "pipe_up s2" using work_up [of answer s s2] step(1,2,4) by (meson rtranclp.rtrancl_into_rtrancl)
  then have "meanwhile X answer t s1 s2"
    using step(2) by (simp add: meanwhile_def calls_for_def work_calls pipe_step.work)
  with step show ?case by (meson rtranclp.rtrancl_into_rtrancl)
qed simp

lemma path_run_exists:
  assumes "reach pipe_start (pipe_step X answer) s" and "pipe_up s"
    and "dm_get (pending_requests (sys_h (p_tdp s))) t = None"
  shows "\<exists>s1 s2. path_run X answer t s s1 s2"
proof -
  let ?i = "length (sys_calls (p_tdp s))"
  note call = pipe_call_step [OF assms(1,3)]
  have up: "pipe_up (pipe_send t ?i (pipe_call t s))"
    by (rule pipe_send_step(3) [OF call(1,2)]) (simp add: call(3) assms(2))
  obtain s2 where "(pipe_work answer)\<^sup>*\<^sup>* (pipe_send t ?i (pipe_call t s)) s2" "\<nexists>s'. pipe_work answer s2 s'"
    using work_rests by blast
  then have "path_run X answer t s (pipe_call t s) s2"
    using work_meanwhile [OF _ up] by (simp add: path_run_def path_progress_def at_rest_def)
  then show ?thesis by blast
qed

section \<open>Fetching over the path\<close>

lemma fetch_progress:
  assumes "reach pipe_start (pipe_step X answer) s" and "pipe_up s"
    and "dm_get (pending_requests (sys_h (p_tdp s))) t = None" and "path_progress X answer t s s1 s2"
    and "tdp e = Some (sys_h (p_tdp s))"
  shows "engine_request_tx_bodies X (env_from 2 (path_env s1 s2)) t e =
    (case finish_wait X t (length (sys_calls (p_tdp s))) (wait_outcome s s2) (sys_h (p_tdp s2)) of
       (r, h) \<Rightarrow> (r, put_tdp h e))"
proof -
  note waits = path_progress_waits(1) [OF assms(1-4)]
  note reg = pipe_call_step(4) [OF assms(1,3)]
  have send: "tdp_send t (sys_h (p_tdp s1)) =
      (Ok (), sys_h (p_tdp (pipe_send t (length (sys_calls (p_tdp s))) s1)))"
    using waits pipe_send_step(4) by blast
  have st: "tdp_state e = sys_h (p_tdp s)" using assms(5) by (simp add: tdp_state_def)
  show ?thesis
    by (simp add: engine_request_tx_bodies_def request_tx_bodies_def st reg send env_from_def path_env_def
        wait_outcome_def put_tdp_twice Let_def split: prod.splits)
qed

lemma fetch_over_path:
  assumes "reach pipe_start (pipe_step X answer) s" and "pipe_up s"
    and "dm_get (pending_requests (sys_h (p_tdp s))) t = None" and "path_run X answer t s s1 s2"
    and "tdp e = Some (sys_h (p_tdp s))"
  shows "engine_request_tx_bodies X (env_from 2 (path_env s1 s2)) t e =
    (decode_response X t (answer t), put_tdp (sys_h (p_tdp s2)) e)"
proof -
  from assms(4) have run: "path_progress X answer t s s1 s2" "at_rest answer s2" by (simp_all add: path_run_def)
  show ?thesis
    unfolding fetch_progress [OF assms(1-3) run(1) assms(5)] path_progress_outcome(2) [OF assms(1-3) run]
    by (simp add: finish_wait_def)
qed

section \<open>Properties\<close>

text \<open>
  C13: a found block reaches bitcoind through the whole template path. With the channels up, no request for
  the job's template pending and a provider whose answer decodes to transactions that reassemble to a
  block, the tasks of the path come to rest; and when they do so before the timeout of the wait elapses,
  whatever else the path did until then for the channel manager, the provider and callers of other
  templates, the handler submits exactly that block and buffers its finder's credit, which a share that
  arrives within the TTL takes.
\<close>

theorem push_over_template_path:
  assumes "reach pipe_start (pipe_step X answer) s" and "pipe_up s" and "tdp e = Some (sys_h (p_tdp s))"
    and "handles e \<noteq> None" and "length (ps_prev_hash ps) = 32"
    and "find_by_solution X (declared_jobs e) (ps_prev_hash ps) (ps_nbits ps) (ps_version ps) = Some rid"
    and "jobs_get (declared_jobs e) rid = Some job" and "job_template_id job = Some tid"
    and "dm_get (pending_requests (sys_h (p_tdp s))) tid = None"
    and "answer tid = TxSuccess l" and "decode_bodies X l = Ok bodies" and "reconstruct_block X job ps bodies = Ok blk"
    and "now' \<le> now + rs_ttl (recent_sols e)"
  shows "(\<exists>s1 s2. path_run X answer tid s s1 s2) \<and>
    (\<forall>s1 s2. path_run X answer tid s s1 s2 \<longrightarrow>
       (let e' = snd (handle_push_solution X (path_env s1 s2) now ps e)
        in submit_queue e' = submit_queue e @ [blk] \<and>
           fst (rs_take now' (synthetic_share_hash X ps) (recent_sols e')) = Some (header_hash X (blk_header blk))))"
proof (intro conjI allI impI)
  show "\<exists>s1 s2. path_run X answer tid s s1 s2" by (rule path_run_exists [OF assms(1,2,9)])
  fix s1 s2
  assume run: "path_run X answer tid s s1 s2"
  let ?e = "bump push_received e" and ?e' = "snd (handle_push_solution X (path_env s1 s2) now ps e)"
  have dec: "decode_response X tid (answer tid) = Ok bodies" using assms(10,11) by (simp add: decode_response_def)
  have fetch: "engine_request_tx_bodies X (env_from 2 (path_env s1 s2)) tid ?e = (Ok bodies, put_tdp (sys_h (p_tdp s2)) ?e)"
    using fetch_over_path [OF assms(1,2,9) run, of ?e] assms(3) dec by simp
  have "push_reconstructs X (path_env s1 s2) ps e blk"
    using assms(3,5-8,12) fetch by (auto simp: push_reconstructs_def)
  then have "submit_queue ?e' = submit_queue e @ [blk]"
    unfolding push_queue_grows [OF tdp_only_path_env] using assms(4) by auto
  moreover have "recent_sols ?e' = rs_record now (synthetic_share_hash X ps) (header_hash X (blk_header blk)) (recent_sols e)"
    using push_block_credit [OF fetch assms(12), of now "synthetic_share_hash X ps"] assms(3,5-8)
    by (simp add: handle_push_solution_def Let_def to_array32_def
        push_lookup_tdp_only [OF tdp_only_path_env] jobs_get_def)
  ultimately show "let e' = ?e' in submit_queue e' = submit_queue e @ [blk] \<and>
      fst (rs_take now' (synthetic_share_hash X ps) (recent_sols e')) = Some (header_hash X (blk_header blk))"
    using assms(13) by (simp add: Let_def fst_rs_take rs_record_def)
qed

text \<open>
  C27: bitcoind's verdict on a custom job counts whenever the provider's transactions arrived. With the
  channels up, no request for the job's template pending and no other call for it made meanwhile, the wait
  for the transactions ends with the provider's answer for that template or with the timeout, and with the
  answer if the path had come to rest; and a \<open>SetCustomMiningJob\<close> for a cached job succeeds exactly when the
  job is validated, the message matches it, and, if the answer arrived and decodes to transactions,
  bitcoind accepts (or already has) the candidate block built from them. So the check is waived when the
  timeout elapsed first, when the provider rejected the request and when its bytes do not decode, and in
  no other case.
\<close>

theorem scmj_over_template_path:
  assumes "reach pipe_start (pipe_step X answer) s" and "pipe_up s" and "tdp e = Some (sys_h (p_tdp s))"
    and "handles e = Some h" and "dm_get (allocated_tokens e) token = Some rid"
    and "dm_get (declared_jobs e) rid = Some job" and "job_template_id job = Some tid"
    and "dm_get (pending_requests (sys_h (p_tdp s))) tid = None" and "path_progress X answer tid s s1 s2"
  shows "wait_outcome s s2 \<in> {Received (answer tid), Elapsed} \<and>
    (at_rest answer s2 \<longrightarrow> wait_outcome s s2 = Received (answer tid)) \<and>
    (fst (handle_set_custom_mining_job X (path_env s1 s2) scmj token e) = Reply ScmjSuccess \<longleftrightarrow>
     job_validated job \<and> scmj_matches X job scmj \<and>
     (\<forall>l bodies. wait_outcome s s2 = Received (TxSuccess l) \<and> decode_bodies X l = Ok bodies \<longrightarrow>
        (\<exists>cand. build_candidate_block X job scmj bodies = Ok cand \<and>
           hnd_validate_block_proposal h cand \<in> {Inr Accepted, Inr Duplicate})))"
proof -
  let ?e = "remove_job rid (remove_token token e)"
  let ?passes = "\<lambda>bodies. \<exists>cand. build_candidate_block X job scmj bodies = Ok cand \<and>
    hnd_validate_block_proposal h cand \<in> {Inr Accepted, Inr Duplicate}"
  note outcome = path_progress_outcome [OF assms(1,2,8,9)]
  note fetch = fetch_progress [OF assms(1,2,8,9), of ?e]
  have "proposal_passes X (path_env s1 s2) job scmj ?e \<longleftrightarrow>
      (\<forall>l bodies. wait_outcome s s2 = Received (TxSuccess l) \<and> decode_bodies X l = Ok bodies \<longrightarrow> ?passes bodies)"
    using outcome(1) fetch assms(3,4,7)
    by (auto simp: proposal_passes_def finish_wait_def decode_response_def split: tx_data_result.splits result.splits)
  then have "fst (handle_set_custom_mining_job X (path_env s1 s2) scmj token e) = Reply ScmjSuccess \<longleftrightarrow>
     job_validated job \<and> scmj_matches X job scmj \<and>
     (\<forall>l bodies. wait_outcome s s2 = Received (TxSuccess l) \<and> decode_bodies X l = Ok bodies \<longrightarrow> ?passes bodies)"
    unfolding scmj_success_iff_aux using assms(5,6) by simp
  with outcome show ?thesis by blast
qed

section \<open>A run\<close>

lemma run_send: "pipe_send t (length (sys_calls (p_tdp pipe_new))) (pipe_call t pipe_new) = run_waiting t"
  by (simp add: pipe_send_def pipe_call_def run_simps)

lemma run_path: "path_run X (\<lambda>_. r) t pipe_new (pipe_call t pipe_new) (run_answered t r)"
proof -
  have "pipe_up (run_waiting t)" by (simp add: pipe_up_def run_simps)
  from work_meanwhile [OF run_answered_work [of "\<lambda>_. r" t] this] run_answered_idle [of "\<lambda>_. r" t r]
  show ?thesis by (simp add: path_run_def path_progress_def at_rest_def run_send)
qed

lemma run_timed_out: "path_progress X answer t pipe_new (pipe_call t pipe_new) (run_waiting t)"
  by (simp add: path_progress_def run_send)

lemma new_path: "reach pipe_start (pipe_step X answer) pipe_new" "pipe_up pipe_new" "sys_h (p_tdp pipe_new) = tdp_new"
  "dm_get (pending_requests (sys_h (p_tdp pipe_new))) t = None"
  by (rule reach_start, simp_all add: pipe_start_def pipe_up_def run_simps)

theorem push_over_template_path_witness:
  "\<exists>blk. submit_queue (snd (handle_push_solution sample_ext
       (path_env (pipe_call 4 pipe_new) (run_answered 4 (TxSuccess []))) 100 sample_solution live_engine)) = [blk] \<and>
     txdata blk = [sample_coinbase [7, 8, 9]]"
proof -
  obtain blk where blk: "reconstruct_block sample_ext sample_job sample_solution [] = Ok blk"
    "txdata blk = [sample_coinbase [7, 8, 9]]"
    using sample_block by auto
  have tdp: "tdp live_engine = Some (sys_h (p_tdp pipe_new))" by (simp add: live_simps new_path)
  have hnd: "handles live_engine \<noteq> None" by (simp add: live_simps)
  have "submit_queue (snd (handle_push_solution sample_ext
      (path_env (pipe_call 4 pipe_new) (run_answered 4 (TxSuccess []))) 100 sample_solution live_engine)) = [blk]"
    using push_over_template_path [OF new_path(1,2) tdp hnd live_simps(5) live_find live_simps(3,4) new_path(4)
        _ _ blk(1), of "\<lambda>_. TxSuccess []" "[]" 100 100] run_path [of sample_ext "TxSuccess []" 4]
    by (simp add: live_simps Let_def)
  with blk(2) show ?thesis by blast
qed

definition strict_engine :: engine where
  "strict_engine = live_engine\<lparr>handles :=
     Some (sample_handles\<lparr>hnd_validate_block_proposal := (\<lambda>_. Inr (Rejected ''bad-txnmrklroot''))\<rparr>)\<rparr>"

text \<open>
  The same job, rejected by bitcoind: refused when the provider answered, accepted when it did not in time.
\<close>

theorem scmj_over_template_path_witness:
  "scmj_matches sample_ext sample_job sample_scmj \<and>
   fst (handle_set_custom_mining_job sample_ext (path_env (pipe_call 4 pipe_new) (run_answered 4 (TxSuccess [])))
     sample_scmj 42 strict_engine) \<noteq> Reply ScmjSuccess \<and>
   fst (handle_set_custom_mining_job sample_ext (path_env (pipe_call 4 pipe_new) (run_waiting 4))
     sample_scmj 42 strict_engine) = Reply ScmjSuccess"
proof -
  have e: "tdp strict_engine = Some (sys_h (p_tdp pipe_new))" "handles strict_engine =
      Some (sample_handles\<lparr>hnd_validate_block_proposal := (\<lambda>_. Inr (Rejected ''bad-txnmrklroot''))\<rparr>)"
    "dm_get (allocated_tokens strict_engine) 42 = Some 1" "dm_get (declared_jobs strict_engine) 1 = Some sample_job"
    using sample_scmj_facts(1,2) by (simp_all add: strict_engine_def live_simps new_path)
  have answered: "path_progress sample_ext (\<lambda>_. TxSuccess []) 4 pipe_new (pipe_call 4 pipe_new) (run_answered 4 (TxSuccess []))"
    using run_path by (simp add: path_run_def)
  have polls: "wait_outcome pipe_new (run_answered 4 (TxSuccess [])) = Received (TxSuccess [])"
    "wait_outcome pipe_new (run_waiting 4) = Elapsed"
    by (simp_all add: wait_outcome_def run_simps)
  note scmj = scmj_over_template_path [OF new_path(1,2) e live_simps(4) new_path(4)]
  show ?thesis
    using scmj [OF answered, of sample_scmj] scmj [OF run_timed_out, of "\<lambda>_. TxSuccess []" sample_ext sample_scmj]
      sample_scmj_facts polls
    by simp
qed

end
