(* ===== verification/Component_Tests.thy ===== *)
theory Component_Tests
  imports Block_Recon Metrics Share_Chain_Reader Tdp_System
begin

text \<open>
  The test modules of the engine crate's smaller files: \<open>block.rs\<close>, \<open>coinbase.rs\<close>, \<open>metrics.rs\<close>,
  \<open>share_chain_reader.rs\<close> and \<open>tdp.rs\<close>. The double SHA-256 and the transaction codec are the
  parameters of the model, so the Merkle and coinbase tests hold for every instance of them.
\<close>

section \<open>\<open>block.rs\<close> and \<open>coinbase.rs\<close>\<close>

definition merkle_root_single_coinbase :: "externals \<Rightarrow> bool" where
  "merkle_root_single_coinbase X \<longleftrightarrow>
     (let coinbase = replicate 32 7 in compute_merkle_root_from_txids X coinbase [] = coinbase)"

definition merkle_root_two_txs :: "externals \<Rightarrow> bool" where
  "merkle_root_two_txs X \<longleftrightarrow>
     (let coinbase = replicate 32 1; other = replicate 32 2
      in compute_merkle_root_from_txids X coinbase [other] = sha256d X (coinbase @ other))"

definition merkle_root_three_txs_duplicates_odd :: "externals \<Rightarrow> bool" where
  "merkle_root_three_txs_duplicates_odd X \<longleftrightarrow>
     (let cb = replicate 32 1; t1 = replicate 32 2; t2 = replicate 32 3;
          h = (\<lambda>a b. sha256d X (a @ b))
      in compute_merkle_root_from_txids X cb [t1, t2] = h (h cb t1) (h t2 t2))"

definition reconstruct_rejects_short_prefix :: "externals \<Rightarrow> bool" where
  "reconstruct_rejects_short_prefix X \<longleftrightarrow> reconstruct_coinbase X (replicate 10 0) [] = Err PrefixTooShort"

definition merkle_path_single_tx_returns_empty_branch :: "externals \<Rightarrow> bool" where
  "merkle_path_single_tx_returns_empty_branch X \<longleftrightarrow> merkle_path X (replicate 32 1) [] = []"

definition merkle_path_two_txs_returns_one_sibling :: "externals \<Rightarrow> bool" where
  "merkle_path_two_txs_returns_one_sibling X \<longleftrightarrow>
     (let other = replicate 32 2; branch = merkle_path X (replicate 32 1) [other]
      in length branch = 1 \<and> branch ! 0 = other)"

lemma block_and_coinbase_tests:
  "merkle_root_single_coinbase X" "merkle_root_two_txs X" "merkle_root_three_txs_duplicates_odd X"
  "reconstruct_rejects_short_prefix X" "merkle_path_single_tx_returns_empty_branch X"
  "merkle_path_two_txs_returns_one_sibling X"
  by (simp_all add: merkle_root_single_coinbase_def merkle_root_two_txs_def merkle_root_three_txs_duplicates_odd_def
      reconstruct_rejects_short_prefix_def merkle_path_single_tx_returns_empty_branch_def
      merkle_path_two_txs_returns_one_sibling_def compute_merkle_root_from_txids_def merkle_path_def Let_def
      merkle_root_loop.simps merkle_branch_loop.simps next_level_def merkle_hash_def div_ceil2_def
      reconstruct_coinbase_def script_sig_hole_def coinbase_prefix_len_def upt_conv_Cons)

section \<open>\<open>metrics.rs\<close>\<close>

text \<open>
  The registry is a parameter of \<open>register\<close>; the tests rely on it refusing a name it has.
\<close>

definition strict_registry :: "string \<Rightarrow> string list \<Rightarrow> string + string list" where
  "strict_registry n r = (if n \<in> set r then Inl n else Inr (r @ [n]))"

definition counter_values :: "engine_metrics \<Rightarrow> u64 list" where
  "counter_values m =
     [declare_mining_job_accepted m, declare_mining_job_rejected m, declare_mining_job_missing_txns m,
      set_custom_mining_job_accepted m, set_custom_mining_job_rejected m, push_solution_received m,
      blocks_submitted m, blocks_submit_failed m, reorg_notifications m, jobs_invalidated_total m,
      set_custom_mining_job_validation_skipped m]"

definition register_creates_all_collectors_with_zero_values :: bool where
  "register_creates_all_collectors_with_zero_values \<longleftrightarrow>
     (case register strict_registry [] of
        (Inl _, _) \<Rightarrow> False
      | (Inr m, names) \<Rightarrow>
          list_all (\<lambda>c. c = 0) (counter_values m) \<and> declared_jobs_cache_size m = 0 \<and>
          recent_solutions_buffer_size m = 0 \<and> sweeper_last_run_timestamp_seconds m = 0 \<and>
          share_chain_tip_height m = - 1 \<and>
          {''sv2_p2pool_engine_declared_jobs_cache_size'', ''sv2_p2pool_engine_recent_solutions_buffer_size'',
           ''sv2_p2pool_engine_blocks_submit_failed_total'', ''sv2_p2pool_engine_share_chain_tip_height'',
           ''sv2_p2pool_engine_sweeper_last_run_timestamp_seconds''} \<subseteq> set names)"

definition register_twice_on_same_registry_errors :: bool where
  "register_twice_on_same_registry_errors \<longleftrightarrow>
     (let (first, r) = register strict_registry []
      in (\<exists>m. first = Inr m) \<and> (\<exists>e. fst (register strict_registry r) = Inl e))"

definition counters_are_independently_incrementable :: bool where
  "counters_are_independently_incrementable \<longleftrightarrow>
     (let inc = (\<lambda>m. m\<lparr>declare_mining_job_accepted := declare_mining_job_accepted m + 1\<rparr>);
          m = (inc (inc initial_metrics))\<lparr>blocks_submitted := blocks_submitted initial_metrics + 1\<rparr>
      in declare_mining_job_accepted m = 2 \<and> blocks_submitted m = 1 \<and> declare_mining_job_rejected m = 0)"

lemma register_fresh: "register strict_registry [] = (Inr initial_metrics, all_counters @ all_gauges @ vec_names)"
  using register_outcome [of strict_registry] by (simp add: strict_registry_def)

lemma metrics_tests:
  "register_creates_all_collectors_with_zero_values"
  "register_twice_on_same_registry_errors"
  "counters_are_independently_incrementable"
proof -
  show "register_creates_all_collectors_with_zero_values"
    by (simp add: register_creates_all_collectors_with_zero_values_def register_fresh counter_values_def
        initial_metrics_def zero_metrics_def Let_def) (simp add: all_counters_def all_gauges_def vec_names_def)
  have "\<exists>e. fst (register strict_registry (all_counters @ all_gauges @ vec_names)) = Inl e"
    by (simp add: register_def) (simp add: all_counters_def strict_registry_def)
  then show "register_twice_on_same_registry_errors"
    by (simp add: register_twice_on_same_registry_errors_def register_fresh)
  show "counters_are_independently_incrementable"
    by (simp add: counters_are_independently_incrementable_def Let_def) (simp add: initial_metrics_def zero_metrics_def)
qed

section \<open>\<open>share_chain_reader.rs\<close>\<close>

definition seed_hash :: "byte \<Rightarrow> block_hash" where
  "seed_hash seed = replicate 32 seed"

definition mock_default_returns_none_tip :: bool where
  "mock_default_returns_none_tip \<longleftrightarrow>
     rd_get_chain_tip (mock_reader mock_new) = Ok None \<and> rd_get_tip_height (mock_reader mock_new) = Ok None"

definition mock_with_tip_returns_some :: bool where
  "mock_with_tip_returns_some \<longleftrightarrow>
     (let chain = mock_reader (mock_with_tip (seed_hash 1) 42 mock_new)
      in rd_get_chain_tip chain = Ok (Some (seed_hash 1)) \<and> rd_get_tip_height chain = Ok (Some 42))"

definition mock_get_share_header_unknown_is_not_found :: bool where
  "mock_get_share_header_unknown_is_not_found \<longleftrightarrow>
     rd_get_share_header (mock_reader mock_new) (seed_hash 7) = Ok NotFound"

definition mock_get_share_header_all_zeros_is_genesis :: bool where
  "mock_get_share_header_all_zeros_is_genesis \<longleftrightarrow>
     rd_get_share_header (mock_reader mock_new) all_zeros = Ok Genesis"

definition mock_with_header_returns_found_with_prev :: bool where
  "mock_with_header_returns_found_with_prev \<longleftrightarrow>
     rd_get_share_header (mock_reader (mock_with_header (seed_hash 1) (Some (seed_hash 2)) mock_new)) (seed_hash 1) =
       Ok (Found \<lparr>prev_share_blockhash = Some (seed_hash 2)\<rparr>)"

definition mock_with_no_genesis :: mock_share_chain where
  "mock_with_no_genesis = mock_new"

definition mock_with_no_genesis_constructor :: bool where
  "mock_with_no_genesis_constructor \<longleftrightarrow>
     rd_get_chain_tip (mock_reader mock_with_no_genesis) = Ok None \<and>
     rd_get_tip_height (mock_reader mock_with_no_genesis) = Ok None"

definition mock_subscribe_tip_observes_pushed_tip :: bool where
  "mock_subscribe_tip_observes_pushed_tip \<longleftrightarrow>
     (let chain = mock_new; pos = length (mock_pushed chain); chain' = mock_push_tip (seed_hash 9) chain
      in drop pos (mock_pushed chain') = [seed_hash 9])"

definition mock_network_is_synchronous_capture :: bool where
  "mock_network_is_synchronous_capture \<longleftrightarrow> rd_network (mock_reader (mock_with_network Signet)) = Signet"

definition mock_is_dyn_compatible :: bool where
  "mock_is_dyn_compatible \<longleftrightarrow>
     rd_network (mock_reader mock_new) = Regtest \<and> rd_get_chain_tip (mock_reader mock_new) = Ok None"

lemma mock_chain_tests:
  "mock_default_returns_none_tip" "mock_with_tip_returns_some" "mock_get_share_header_unknown_is_not_found"
  "mock_get_share_header_all_zeros_is_genesis" "mock_with_header_returns_found_with_prev"
  "mock_with_no_genesis_constructor" "mock_subscribe_tip_observes_pushed_tip" "mock_network_is_synchronous_capture" "mock_is_dyn_compatible"
  by (simp_all add: mock_default_returns_none_tip_def mock_with_tip_returns_some_def
      mock_get_share_header_unknown_is_not_found_def mock_get_share_header_all_zeros_is_genesis_def
      mock_with_header_returns_found_with_prev_def mock_subscribe_tip_observes_pushed_tip_def
      mock_network_is_synchronous_capture_def mock_is_dyn_compatible_def mock_reader_def mock_new_def
      mock_with_network_def mock_with_tip_def mock_push_tip_def mock_with_header_def mock_get_share_header_def
      is_zero_hash_all_zeros seed_hash_def is_zero_hash_def
      Let_def all_zeros_def list_all_iff mock_with_no_genesis_constructor_def mock_with_no_genesis_def)

section \<open>\<open>tdp.rs\<close>\<close>

definition dummy_set_new_prev_hash :: "bytes \<Rightarrow> u32 \<Rightarrow> u32 \<Rightarrow> set_new_prev_hash" where
  "dummy_set_new_prev_hash prev_hash nbits min_ntime =
     \<lparr>snph_template_id = 1, snph_prev_hash = prev_hash, snph_header_timestamp = min_ntime, snph_n_bits = nbits\<rparr>"

definition current_tip_returns_none_until_set_new_prev_hash :: bool where
  "current_tip_returns_none_until_set_new_prev_hash \<longleftrightarrow> current_tip tdp_new = None"

definition current_tip_reflects_recorded_set_new_prev_hash :: bool where
  "current_tip_reflects_recorded_set_new_prev_hash \<longleftrightarrow>
     current_tip (record_set_new_prev_hash (dummy_set_new_prev_hash (replicate 32 7) 0x207fffff 1234567890) tdp_new) =
       Some \<lparr>tip_prev_hash = replicate 32 7, tip_nbits = 0x207fffff, tip_min_ntime = 1234567890\<rparr>"

text \<open>
  The stub of the round trip answers what was sent during the wait; the paused clock of the timeout
  test delivers nothing.
\<close>

definition stub_demux :: "nat \<Rightarrow> tdp_handle \<Rightarrow> tdp_handle" where
  "stub_demux n h =
     (if n = 1 then deliver_all (map (\<lambda>t. (t, TxSuccess [])) (tx_request_sent h)) h else h)"

definition request_tx_bodies_round_trips_via_demux :: "externals \<Rightarrow> bool" where
  "request_tx_bodies_round_trips_via_demux X \<longleftrightarrow>
     fst (request_tx_bodies X (\<lambda>h. h) (\<lambda>h _. h) stub_demux 42 tdp_new) = Ok []"

definition request_tx_bodies_times_out_when_no_response :: "externals \<Rightarrow> bool" where
  "request_tx_bodies_times_out_when_no_response X \<longleftrightarrow>
     (let handle = with_timeout (50 * 1000000) tdp_new
      in fst (request_tx_bodies X (\<lambda>h. h) (\<lambda>h _. h) (\<lambda>_ h. h) 99 handle) = Err (TdpTimeout 99 (50 * 1000000)))"

lemma tdp_tests:
  "current_tip_returns_none_until_set_new_prev_hash" "current_tip_reflects_recorded_set_new_prev_hash"
  "request_tx_bodies_round_trips_via_demux X" "request_tx_bodies_times_out_when_no_response X"
  by (simp_all add: current_tip_returns_none_until_set_new_prev_hash_def
      current_tip_reflects_recorded_set_new_prev_hash_def request_tx_bodies_round_trips_via_demux_def
      request_tx_bodies_times_out_when_no_response_def current_tip_def record_set_new_prev_hash_def
      dummy_set_new_prev_hash_def to_array32_def request_tx_bodies_def stub_demux_def decode_response_def
      with_timeout_def race_simps)

end
