(* ===== verification/Pool_Tests.thy ===== *)
theory Pool_Tests
  imports Pool_Start Tdp_Pipeline Testenv_Scrape
begin

text \<open>
  The test modules of the pool crate's \<open>tdp_demux.rs\<close>, \<open>builder.rs\<close>, \<open>pool.rs\<close> and
  \<open>metrics_endpoint.rs\<close>. The configuration files of the fixtures are read by third-party code; what
  it yields, the template-provider section, is where the scenarios start.
\<close>

section \<open>\<open>tdp_demux.rs\<close>\<close>

definition build_set_new_prev_hash :: "u64 \<Rightarrow> set_new_prev_hash" where
  "build_set_new_prev_hash template_id =
     \<lparr>snph_template_id = template_id, snph_prev_hash = replicate 32 9, snph_header_timestamp = 1700000000,
      snph_n_bits = 0x207fffff\<rparr>"

definition build_new_template :: "u64 \<Rightarrow> new_template" where
  "build_new_template template_id = \<lparr>nt_template_id = template_id\<rparr>"

definition tee_updates_tdp_and_forwards_to_cm :: bool where
  "tee_updates_tdp_and_forwards_to_cm \<longleftrightarrow>
     (let sent = [SetNewPrevHash (build_set_new_prev_hash 42), NewTemplate (build_new_template 42)];
          (cm, tdp) = spawn_tp_to_cm_tee (\<lambda>_. True) sent tdp_new
      in cm = sent \<and> current_tip tdp \<noteq> None \<and> current_template_id tdp = Some 42)"

text \<open>
  The caller registers and sends; the tee runs while it waits.
\<close>

definition tee_delivers_request_tx_data_response_to_pending_oneshot :: "externals \<Rightarrow> bool" where
  "tee_delivers_request_tx_data_response_to_pending_oneshot X \<longleftrightarrow>
     (let tdp = with_timeout (2 * 1000000000) tdp_new;
          tee = (\<lambda>n h. if n = 1 then snd (spawn_tp_to_cm_tee (\<lambda>_. True) [RequestTransactionDataSuccess 7 []] h) else h)
      in fst (request_tx_bodies X (\<lambda>h. h) (\<lambda>h _. h) tee 7 tdp) = Ok [])"

text \<open>
  Whatever order the merge picks, once both queues are empty the provider has both messages, each
  once.
\<close>

definition merge_forwards_both_streams_to_tp :: "merge_state \<Rightarrow> bool" where
  "merge_forwards_both_streams_to_tp s \<longleftrightarrow>
     (let cm = SetNewPrevHash (build_set_new_prev_hash 1); eng = RequestTransactionData 99
      in cm_sent s = [cm] \<and> eng_sent s = [eng] \<and> cm_queue s = [] \<and> eng_queue s = [] \<and> \<not> tp_closed s \<longrightarrow>
         map snd (tp_out s) = [cm, eng] \<or> map snd (tp_out s) = [eng, cm])"

lemma tee_tests:
  "tee_updates_tdp_and_forwards_to_cm"
  "tee_delivers_request_tx_data_response_to_pending_oneshot X"
  by (simp_all add: tee_updates_tdp_and_forwards_to_cm_def spawn_tp_to_cm_tee_def build_set_new_prev_hash_def
      build_new_template_def current_tip_def current_template_id_def to_array32_def record_set_new_prev_hash_def
      record_new_template_def tee_delivers_request_tx_data_response_to_pending_oneshot_def request_tx_bodies_def
      with_timeout_def decode_response_def race_simps)

lemma two_sources:
  assumes "from_source FromCm out = [a]" and "from_source FromEngine out = [b]"
  shows "map snd out = [a, b] \<or> map snd out = [b, a]"
proof -
  have "length (filter (\<lambda>sm. fst sm = FromCm) out) = 1" "length (filter (\<lambda>sm. fst sm = FromEngine) out) = 1"
    using assms by (metis (no_types) from_source_def length_map One_nat_def length_Cons list.size(3))+
  moreover have "filter (\<lambda>sm. fst sm \<noteq> FromCm) out = filter (\<lambda>sm. fst sm = FromEngine) out"
    by (intro filter_cong) (auto intro: source.exhaust)
  ultimately have "length out = 2"
    using sum_length_filter_compl [of "\<lambda>sm. fst sm = FromCm" out] by simp
  then obtain x y where out: "out = [x, y]"
    by (auto simp: length_Suc_conv numeral_2_eq_2)
  with assms show ?thesis
    by (cases "fst x"; cases "fst y") (auto simp: from_source_def)
qed

lemma merge_test:
  assumes "reach merge_start merge_step s"
  shows "merge_forwards_both_streams_to_tp s"
proof -
  let ?cm = "SetNewPrevHash (build_set_new_prev_hash 1)" and ?eng = "RequestTransactionData 99"
  note inv = merge.inv_reach [OF assms, unfolded merge_inv_def]
  {
    assume "cm_sent s = [?cm]" "eng_sent s = [?eng]" "cm_queue s = []" "eng_queue s = []" "\<not> tp_closed s"
    with inv have "from_source FromCm (tp_out s) = [?cm]" "from_source FromEngine (tp_out s) = [?eng]" by auto
    from two_sources [OF this] have "map snd (tp_out s) = [?cm, ?eng] \<or> map snd (tp_out s) = [?eng, ?cm]" .
  }
  then show ?thesis unfolding merge_forwards_both_streams_to_tp_def Let_def by blast
qed

section \<open>\<open>builder.rs\<close> and \<open>pool.rs\<close>\<close>

definition build_engine_arc :: "network \<Rightarrow> engine" where
  "build_engine_arc net = build_engine net"

definition pool_config_with_network :: "bitcoin_network \<Rightarrow> pool" where
  "pool_config_with_network net = build_pool (BitcoinCoreIpc net)"

definition config_network_testnet4_does_not_collapse_to_legacy_testnet :: bool where
  "config_network_testnet4_does_not_collapse_to_legacy_testnet \<longleftrightarrow>
     config_network (pool_config_with_network CfgTestnet4) = Testnet4"

definition config_network_signet_round_trips :: bool where
  "config_network_signet_round_trips \<longleftrightarrow> config_network (pool_config_with_network CfgSignet) = Signet"

definition config_network_regtest_round_trips :: bool where
  "config_network_regtest_round_trips \<longleftrightarrow> config_network (pool_config_with_network CfgRegtest) = Regtest"

lemma config_network_tests:
  "config_network_testnet4_does_not_collapse_to_legacy_testnet"
  "config_network_signet_round_trips"
  "config_network_regtest_round_trips"
  by (simp_all add: config_network_testnet4_does_not_collapse_to_legacy_testnet_def config_network_signet_round_trips_def
      config_network_regtest_round_trips_def pool_config_with_network_def build_pool_def pool_new_def config_network_def)

section \<open>\<open>metrics_endpoint.rs\<close>\<close>

definition get_request :: "string \<Rightarrow> string" where
  "get_request path = ''GET '' @ path @ '' HTTP/1.1'' @ crlf @ ''Host: localhost'' @ crlf @ crlf"

text \<open>
  The client of the tests: one request, then the status of the response and what follows the first
  blank line. \<open>encoded\<close> is the encoder's output for the registry.
\<close>

definition fetch :: "string + string \<Rightarrow> string \<Rightarrow> string \<Rightarrow> (nat \<times> string) option" where
  "fetch encoded fmt path =
     (case handle_one (\<lambda>_. True) encoded fmt [Inr (get_request path)] of
        Inl _ \<Rightarrow> None
      | Inr response \<Rightarrow>
          (case split_once crlf response of
             None \<Rightarrow> None
           | Some (status_line, _) \<Rightarrow>
               (case Option.bind (second_word status_line) parse_u64 of
                  None \<Rightarrow> None
                | Some status \<Rightarrow>
                    Some (status, case split_once (crlf @ crlf) response of Some (_, b) \<Rightarrow> b | None \<Rightarrow> []))))"

definition metrics_endpoint_serves_registered_counters :: "string \<Rightarrow> string \<Rightarrow> bool" where
  "metrics_endpoint_serves_registered_counters body fmt \<longleftrightarrow>
     fetch (Inr body) fmt ''/metrics'' = Some (200, body) \<and>
     map_option fst (fetch (Inr body) fmt ''/nope'') = Some 404"

definition healthz_endpoint_returns_ok :: "string + string \<Rightarrow> string \<Rightarrow> bool" where
  "healthz_endpoint_returns_ok encoded fmt \<longleftrightarrow>
     fetch encoded fmt ''/healthz'' = Some (200, ''ok'' @ [CHR 0x0A])"

lemma status_line_parse:
  assumes "cr \<notin> set (reason_phrase status)" and "status < 2 ^ 64"
  shows "\<exists>l rest. split_once crlf (write_status status ct body) = Some (l, rest) \<and>
    Option.bind (second_word l) parse_u64 = Some status"
proof -
  let ?l = "''HTTP/1.1 '' @ digits status @ '' '' @ reason_phrase status"
  have "write_status status ct body = ?l @ crlf @ (''Content-Type: '' @ ct @ crlf @ ''Content-Length: '' @
      digits (length body) @ crlf @ ''Connection: close'' @ crlf @ crlf @ body)"
    by (simp add: write_status_def)
  moreover have "hd crlf \<notin> set ?l" using assms(1) digits_no_cr [of status] by (simp add: crlf_def)
  moreover have "crlf \<noteq> []" by (simp add: crlf_def)
  ultimately have "\<exists>rest. split_once crlf (write_status status ct body) = Some (?l, rest)"
    using split_once_hd [of crlf ?l] by metis
  moreover have "second_word ?l = Some (digits status)"
  proof -
    have no_ws: "\<not> is_ws c" if "c \<in> set (digits status)" for c
      using digits_are_digits [of status] that by (auto simp: is_ws_def is_digit_def list_all_iff)
    obtain d ds where d: "digits status = d # ds" by (cases "digits status") auto
    have "takeWhile (\<lambda>c. \<not> is_ws c) (digits status @ '' '' @ reason_phrase status) = digits status"
      using no_ws by (subst takeWhile_append2) (auto simp: is_ws_def)
    moreover have "dropWhile is_ws (digits status @ '' '' @ reason_phrase status) = digits status @ '' '' @ reason_phrase status"
      using no_ws [of d] by (simp add: d)
    ultimately show ?thesis by (simp add: second_word_def word_at_front_def Let_def is_ws_def)
  qed
  ultimately show ?thesis using assms(2) by (auto simp: parse_u64_digits)
qed

lemma read_get: "has_blank_line (get_request path) \<Longrightarrow> length (get_request path) \<le> buf_len \<Longrightarrow>
   read_request [] [Inr (get_request path)] = Inr (get_request path)"
  by (subst read_request.simps) (auto simp: get_request_def buf_len_def Let_def)

lemma fetch_response:
  assumes "has_blank_line (get_request path)" and "length (get_request path) \<le> buf_len"
    and "request_path (\<lambda>_. True) (get_request path) = path"
    and "respond encoded fmt path = (status, ct, body)" and "status < 2 ^ 64" and "cr \<notin> set ct"
  shows "fetch encoded fmt path = Some (status, body)"
proof -
  have h: "handle_one (\<lambda>_. True) encoded fmt [Inr (get_request path)] = Inr (write_status status ct body)"
    using read_get [OF assms(1,2)] assms(3,4) by (simp add: handle_one_def)
  obtain l rest where l: "split_once crlf (write_status status ct body) = Some (l, rest)"
    "Option.bind (second_word l) parse_u64 = Some status"
    using status_line_parse [OF reason_no_cr assms(5)] by blast
  from response_split [OF assms(6), of status body] l show ?thesis by (auto simp: fetch_def h)
qed

lemma endpoint_tests:
  "metrics_endpoint_serves_registered_counters body fmt" "healthz_endpoint_returns_ok encoded fmt"
  if "cr \<notin> set fmt"
proof -
  note paths = get_request_def crlf_def request_path_def first_line_def second_word_def word_at_front_def is_ws_def
    Let_def buf_len_def
  have "fetch (Inr body) fmt ''/metrics'' = Some (200, body)"
    by (rule fetch_response [where ct = fmt]) (simp_all add: that respond_def paths)
  moreover have "fetch (Inr body) fmt ''/nope'' = Some (404, ''not found'' @ [CHR 0x0A])"
    by (rule fetch_response [where ct = "''text/plain''"]) (simp_all add: respond_def paths)
  ultimately show "metrics_endpoint_serves_registered_counters body fmt"
    by (simp add: metrics_endpoint_serves_registered_counters_def)
  have "fetch encoded fmt ''/healthz'' = Some (200, ''ok'' @ [CHR 0x0A])"
    by (rule fetch_response [where ct = "''text/plain''"]) (simp_all add: respond_def paths)
  then show "healthz_endpoint_returns_ok encoded fmt" by (simp add: healthz_endpoint_returns_ok_def)
qed

end
