(* ===== verification/Detector_Tests.thy ===== *)
theory Detector_Tests
  imports Reorg_Pipeline
begin

text \<open>
  The test module of \<open>crates/sv2-p2pool-engine/src/reorg_detector.rs\<close>. Its unit tests are scenarios
  that the model is evaluated on; its property-based tests, which the source runs on random scripts
  of bounded length over eight hashes, are theorems here, for every script.
\<close>

section \<open>Fixtures\<close>

definition le_bytes8 :: "u64 \<Rightarrow> bytes" where
  "le_bytes8 w = [ucast w, ucast (drop_bit 8 w), ucast (drop_bit 16 w), ucast (drop_bit 24 w),
     ucast (drop_bit 32 w), ucast (drop_bit 40 w), ucast (drop_bit 48 w), ucast (drop_bit 56 w)]"

definition hash_from_u64 :: "u64 \<Rightarrow> block_hash" where
  "hash_from_u64 seed = le_bytes8 seed @ replicate 24 0"

text \<open>
  Call number \<open>idx\<close> of the scripted source.
\<close>

definition scripted_tip_source :: "block_hash option list \<Rightarrow> nat \<Rightarrow> block_hash option" where
  "scripted_tip_source script idx = (if script = [] then None else script ! min idx (length script - 1))"

text \<open>
  \<open>n\<close> calls of \<open>tick\<close> from call \<open>k\<close> of the source on.
\<close>

primrec ticks ::
  "(nat \<Rightarrow> block_hash option) \<Rightarrow> nat \<Rightarrow> nat \<Rightarrow> block_hash option \<times> reorg_detector \<Rightarrow>
     block_hash option \<times> reorg_detector" where
  "ticks source k 0 ld = ld"
| "ticks source k (Suc n) ld = ticks source (Suc k) n (detector_poll (source k) (fst ld) (snd ld))"

definition run_script :: "block_hash option list \<Rightarrow> nat \<Rightarrow> block_hash option \<times> reorg_detector" where
  "run_script script n = ticks (scripted_tip_source script) 0 n (None, detector_new default_poll_period_secs)"

text \<open>
  \<open>try_recv\<close> until the channel is empty, skipping lag reports.
\<close>

function drain_values :: "reorg_detector \<Rightarrow> tip_receiver \<Rightarrow> block_hash list" where
  "drain_values d rx =
     (case rx_recv d rx of
        None \<Rightarrow> []
      | Some (RecvOk t, rx') \<Rightarrow> t # drain_values d rx'
      | Some (_, rx') \<Rightarrow> drain_values d rx')"
  by pat_completeness auto
termination
  by (relation "measure (\<lambda>(d, rx). length (det_sent d) - rx_pos rx)")
    (use rx_recv_Some(1,2) in \<open>fastforce+\<close>)

declare drain_values.simps [simp del]

definition observed :: "block_hash option list \<Rightarrow> nat \<Rightarrow> block_hash list" where
  "observed script n =
     drain_values (snd (run_script script n)) (detector_subscribe (detector_new default_poll_period_secs))"

section \<open>The unit tests\<close>

definition detector_does_not_fire_on_first_sighting :: bool where
  "detector_does_not_fire_on_first_sighting \<longleftrightarrow>
     (let script = [Some (hash_from_u64 1)]
      in fst (run_script script 1) = Some (hash_from_u64 1) \<and> observed script 1 = [])"

definition detector_does_not_fire_when_tip_is_unchanged :: bool where
  "detector_does_not_fire_when_tip_is_unchanged \<longleftrightarrow>
     (let tip = hash_from_u64 1; script = [Some tip, Some tip, Some tip]
      in fst (run_script script 3) = Some tip \<and> observed script 3 = [])"

definition detector_fires_when_tip_changes :: bool where
  "detector_fires_when_tip_changes \<longleftrightarrow>
     (let tip_a = hash_from_u64 1; tip_b = hash_from_u64 2; script = [Some tip_a, Some tip_b]
      in fst (run_script script 2) = Some tip_b \<and> observed script 2 = [tip_b])"

definition detector_handles_no_tip_then_tip_appears :: bool where
  "detector_handles_no_tip_then_tip_appears \<longleftrightarrow>
     (let tip = hash_from_u64 1; script = [None, Some tip]
      in fst (run_script script 1) = None \<and> fst (run_script script 2) = Some tip \<and> observed script 2 = [])"

definition detector_fires_back_to_back_changes :: bool where
  "detector_fires_back_to_back_changes \<longleftrightarrow>
     (let tip_a = hash_from_u64 1; tip_b = hash_from_u64 2; tip_c = hash_from_u64 3;
          script = [Some tip_a, Some tip_b, Some tip_c]
      in fst (run_script script 3) = Some tip_c \<and> observed script 3 = [tip_b, tip_c])"

definition multiple_subscribers_each_see_all_changes :: bool where
  "multiple_subscribers_each_see_all_changes \<longleftrightarrow>
     (let tip_a = hash_from_u64 1; tip_b = hash_from_u64 2;
          d0 = detector_new default_poll_period_secs;
          rx1 = detector_subscribe d0; rx2 = detector_subscribe d0;
          (last, d) = run_script [Some tip_a, Some tip_b] 2
      in last = Some tip_b \<and> map_option fst (rx_recv d rx1) = Some (RecvOk tip_b) \<and>
         map_option fst (rx_recv d rx2) = Some (RecvOk tip_b))"

text \<open>
  The loop test: with a period of 100 ms the first tick fires at once, so 300 ms of the paused clock
  are four ticks.
\<close>

definition run_loop_emits_on_tip_change :: bool where
  "run_loop_emits_on_tip_change \<longleftrightarrow>
     (let tip_a = hash_from_u64 1; tip_b = hash_from_u64 2;
          (_, d) = run_script [Some tip_a, Some tip_b] (Suc (300 div 100))
      in map_option fst (rx_recv d (detector_subscribe (detector_new default_poll_period_secs))) =
           Some (RecvOk tip_b))"

section \<open>The property-based tests\<close>

text \<open>
  The reference model of the first one, a fold over the script.
\<close>

fun model_events :: "block_hash option list \<Rightarrow> block_hash option \<Rightarrow> block_hash list \<times> block_hash option" where
  "model_events [] model_last = ([], model_last)"
| "model_events (None # polls) model_last = model_events polls model_last"
| "model_events (Some t # polls) None = model_events polls (Some t)"
| "model_events (Some t # polls) (Some prev) =
     (if t = prev then model_events polls (Some prev)
      else let (expected, l) = model_events polls (Some t) in (t # expected, l))"

text \<open>
  The cache of the last one: a list, cleared by every event.
\<close>

primrec invalidations :: "nat \<Rightarrow> u32 list \<Rightarrow> u32 list" where
  "invalidations 0 cache = cache"
| "invalidations (Suc n) cache = invalidations n []"

section \<open>Lemmas\<close>

lemma bit_le_byte: "n < 8 \<Longrightarrow> bit (ucast (w :: u64) :: byte) n \<longleftrightarrow> bit w n"
  by (simp add: bit_simps)

lemma hash_from_u64_inj [simp]: "hash_from_u64 a = hash_from_u64 b \<longleftrightarrow> a = b"
proof
  assume "hash_from_u64 a = hash_from_u64 b"
  then have bytes: "\<forall>k \<in> {0, 8, 16, 24, 32, 40, 48, 56}. (ucast (drop_bit k a) :: byte) = ucast (drop_bit k b)"
    by (simp add: hash_from_u64_def le_bytes8_def)
  have slice: "bit a (k + n) = bit b (k + n)"
    if "(ucast (drop_bit k a) :: byte) = ucast (drop_bit k b)" "n < 8" for k n
  proof -
    from that(1) have "bit (ucast (drop_bit k a) :: byte) n = bit (ucast (drop_bit k b) :: byte) n" by simp
    with that(2) show ?thesis by (simp add: bit_le_byte bit_drop_bit_eq)
  qed
  show "a = b"
  proof (rule bit_word_eqI)
    fix n assume "n < LENGTH(64)"
    then have "n div 8 = 0 \<or> n div 8 = 1 \<or> n div 8 = 2 \<or> n div 8 = 3 \<or> n div 8 = 4 \<or> n div 8 = 5 \<or>
        n div 8 = 6 \<or> n div 8 = 7"
      by simp presburger
    then have "8 * (n div 8) \<in> {0, 8, 16, 24, 32, 40, 48, 56}" by (elim disjE) simp_all
    from slice [OF bspec [OF bytes this], of "n mod 8"] show "bit a n = bit b n" by simp
  qed
qed simp

lemma ticks_loop:
  "ticks source k n (l, d) =
     (case detector_loop l (map source [k..<k + n]) of (l', sent) \<Rightarrow> (l', d\<lparr>det_sent := det_sent d @ sent\<rparr>))"
proof (induction n arbitrary: k l d)
  case 0
  then show ?case by simp
next
  case (Suc n)
  have "[k..<k + Suc n] = k # [Suc k..<Suc k + n]" by (simp add: upt_rec)
  then show ?case by (simp add: Suc detector_poll_def split: prod.splits)
qed

lemma script_calls: "map (scripted_tip_source script) [0..<length script] = script"
  by (rule nth_equalityI) (auto simp: scripted_tip_source_def min_def)

lemma run_script_loop:
  "run_script polls (length polls) =
     (fst (detector_loop None polls),
      \<lparr>det_period = default_poll_period_secs, det_sent = snd (detector_loop None polls)\<rparr>)"
  using script_calls [of polls]
  by (simp add: run_script_def ticks_loop detector_new_def split: prod.split)

lemma model_is_loop: "model_events polls l = (snd (detector_loop l polls), fst (detector_loop l polls))"
  by (induction polls l rule: model_events.induct) (simp_all add: poll_once_def split: prod.split)

lemma drain_near:
  "length (det_sent d) - rx_pos rx \<le> broadcast_capacity \<Longrightarrow> drain_values d rx = drop (rx_pos rx) (det_sent d)"
proof (induction d rx rule: drain_values.induct)
  case (1 d rx)
  show ?case
  proof (cases "rx_pos rx < length (det_sent d)")
    case True
    with "1.prems" have r: "rx_recv d rx = Some (RecvOk (det_sent d ! rx_pos rx), rx\<lparr>rx_pos := Suc (rx_pos rx)\<rparr>)"
      by (simp add: rx_recv_def Let_def)
    with "1.IH"(1) [OF r refl refl] "1.prems" True show ?thesis
      by (subst drain_values.simps) (simp add: Cons_nth_drop_Suc)
  next
    case False
    then show ?thesis by (subst drain_values.simps) (simp add: rx_recv_def)
  qed
qed

lemma drain_all: "drain_values d \<lparr>rx_pos = 0\<rparr> = drop (length (det_sent d) - broadcast_capacity) (det_sent d)"
proof (cases "length (det_sent d) \<le> broadcast_capacity")
  case True
  then show ?thesis by (simp add: drain_near)
next
  case False
  then show ?thesis
    by (subst drain_values.simps) (simp add: rx_recv_def Let_def drain_near)
qed

lemma observed_all:
  "observed polls (length polls) =
     (let sent = snd (detector_loop None polls) in drop (length sent - broadcast_capacity) sent)"
  by (simp add: observed_def run_script_loop drain_all detector_subscribe_def detector_new_def Let_def)

lemma ticks_observed:
  assumes "n = length polls"
  shows "run_script polls n = (fst (detector_loop None polls),
      \<lparr>det_period = default_poll_period_secs, det_sent = snd (detector_loop None polls)\<rparr>)"
    and "observed polls n = (let sent = snd (detector_loop None polls) in drop (length sent - broadcast_capacity) sent)"
  using run_script_loop observed_all assms by simp_all

section \<open>The tests hold\<close>

lemmas detector_test_simps = ticks_observed poll_once_def Let_def broadcast_capacity_def

lemma detector_unit_tests:
  "detector_does_not_fire_on_first_sighting"
  "detector_does_not_fire_when_tip_is_unchanged"
  "detector_fires_when_tip_changes"
  "detector_fires_back_to_back_changes"
  "multiple_subscribers_each_see_all_changes"
  by (simp_all add: detector_does_not_fire_on_first_sighting_def detector_does_not_fire_when_tip_is_unchanged_def
      detector_fires_when_tip_changes_def detector_fires_back_to_back_changes_def
      multiple_subscribers_each_see_all_changes_def rx_recv_def detector_subscribe_def detector_new_def detector_test_simps)

lemma detector_handles_no_tip: "detector_handles_no_tip_then_tip_appears"
proof -
  have "fst (run_script [None, Some (hash_from_u64 1)] 1) = None"
    by (simp add: run_script_def scripted_tip_source_def detector_poll_def poll_once_def)
  then show ?thesis
    by (simp add: detector_handles_no_tip_then_tip_appears_def detector_test_simps)
qed

lemma run_loop_test: "run_loop_emits_on_tip_change"
  by (simp add: run_loop_emits_on_tip_change_def run_script_def scripted_tip_source_def ticks_loop
      upt_conv_Cons poll_once_def detector_new_def detector_subscribe_def rx_recv_def Let_def
      broadcast_capacity_def)

text \<open>
  C31: the property-based tests of the detector, for every script: what a subscriber receives is the
  event sequence of the tests' reference model, less its oldest events when there are more than the
  channel holds, and the detector's last tip is the model's; and flushing again changes nothing,
  with an empty cache after any event.
\<close>

theorem detector_fires_exactly_on_transitions:
  "(case model_events polls None of (expected, model_last) \<Rightarrow>
      (let got = observed polls (length polls)
       in got = drop (length expected - length got) expected \<and>
          length got = min (length expected) broadcast_capacity) \<and>
      fst (run_script polls (length polls)) = model_last) \<and>
   invalidations n (invalidations n cache) = invalidations n cache \<and>
   invalidations n cache = (if n = 0 then cache else [])"
proof -
  have "invalidations n cache = (if n = 0 then cache else [])" for n cache
    by (induction n arbitrary: cache) auto
  moreover have "case model_events polls None of (expected, model_last) \<Rightarrow>
      (let got = observed polls (length polls)
       in got = drop (length expected - length got) expected \<and>
          length got = min (length expected) broadcast_capacity) \<and>
      fst (run_script polls (length polls)) = model_last"
    by (simp add: model_is_loop observed_all run_script_loop Let_def min_def)
  ultimately show ?thesis by simp
qed

end
