(* ===== verification/Solutions_Tests.thy ===== *)
theory Solutions_Tests
  imports Recent_Solutions Detector_Tests
begin

text \<open>
  The test module of \<open>crates/sv2-p2pool-engine/src/recent_solutions.rs\<close>: the unit tests as
  scenarios, and the property-based test on random interleavings as a theorem over every sequence
  of operations that runs within the time to live. Times are nanoseconds.
\<close>

definition secs :: "nat \<Rightarrow> duration" where
  "secs n = n * 1000000000"

definition millis :: "nat \<Rightarrow> duration" where
  "millis n = n * 1000000"

section \<open>The unit tests\<close>

definition record_then_take_returns_block_hash_once :: bool where
  "record_then_take_returns_block_hash_once \<longleftrightarrow>
     (let share = hash_from_u64 1; blk = hash_from_u64 101;
          buf = rs_record 0 share blk (rs_new (secs 30));
          (first, buf1) = rs_take 0 share buf
      in first = Some blk \<and> fst (rs_take 0 share buf1) = None)"

definition take_without_record_is_none :: bool where
  "take_without_record_is_none \<longleftrightarrow> fst (rs_take 0 (hash_from_u64 42) (rs_new (secs 30))) = None"

definition sweep_drops_expired_entries :: bool where
  "sweep_drops_expired_entries \<longleftrightarrow>
     (let buf = rs_record 0 (hash_from_u64 2) (hash_from_u64 102)
                  (rs_record 0 (hash_from_u64 1) (hash_from_u64 101) (rs_new (millis 20)))
      in rs_len buf = 2 \<and> rs_is_empty (rs_sweep (millis 40) buf))"

definition take_after_ttl_is_none :: bool where
  "take_after_ttl_is_none \<longleftrightarrow>
     (let share = hash_from_u64 1; buf = rs_record 0 share (hash_from_u64 101) (rs_new (millis 20))
      in fst (rs_take (millis 40) share buf) = None)"

definition duplicate_record_keeps_latest_block_hash :: bool where
  "duplicate_record_keeps_latest_block_hash \<longleftrightarrow>
     (let share = hash_from_u64 1;
          buf = rs_record 0 share (hash_from_u64 202) (rs_record 0 share (hash_from_u64 101) (rs_new (secs 30)))
      in fst (rs_take 0 share buf) = Some (hash_from_u64 202))"

lemmas solutions_test_simps = Let_def rs_take_def rs_record_def rs_new_def rs_sweep_def rs_len_def rs_is_empty_def
  elapsed_def secs_def millis_def hash_from_u64_def le_bytes8_def dm_len_def dm_retain_def dm_insert_def
  dm_empty_def dm_remove_def

lemma solutions_unit_tests:
  "record_then_take_returns_block_hash_once"
  "take_without_record_is_none"
  "sweep_drops_expired_entries"
  "take_after_ttl_is_none"
  "duplicate_record_keeps_latest_block_hash"
  by (simp_all add: record_then_take_returns_block_hash_once_def take_without_record_is_none_def
      sweep_drops_expired_entries_def take_after_ttl_is_none_def duplicate_record_keeps_latest_block_hash_def
      solutions_test_simps)

section \<open>The property-based test\<close>

datatype test_op = OpRecord u32 u32 | OpTake u32

definition id_hash :: "u32 \<Rightarrow> block_hash" where
  "id_hash i = hash_from_u64 (ucast i)"

record replay =
  r_buf :: recent_solutions
  r_model :: "(u32, u32) dmap"
  r_credited :: "(u32 \<times> u32) list"
  r_recorded :: "(u32 \<times> u32) list"

text \<open>
  One operation of the trace at a time; \<open>None\<close> is an assertion of the test that failed.
\<close>

fun replay_op :: "instant \<times> test_op \<Rightarrow> replay \<Rightarrow> replay option" where
  "replay_op (now, OpRecord share_id block_id) r =
     Some (r\<lparr>r_recorded := r_recorded r @ [(share_id, block_id)],
             r_buf := rs_record now (id_hash share_id) (id_hash block_id) (r_buf r),
             r_model := dm_insert share_id block_id (r_model r)\<rparr>)"
| "replay_op (now, OpTake share_id) r =
     (let (got, buf) = rs_take now (id_hash share_id) (r_buf r);
          r' = r\<lparr>r_buf := buf, r_model := dm_remove share_id (r_model r)\<rparr>
      in case (got, dm_get (r_model r) share_id) of
           (Some got_block, Some expected_block) \<Rightarrow>
             if got_block = id_hash expected_block
             then Some (r'\<lparr>r_credited := r_credited r @ [(share_id, expected_block)]\<rparr>) else None
         | (None, None) \<Rightarrow> Some r'
         | _ \<Rightarrow> None)"

primrec replay_ops :: "(instant \<times> test_op) list \<Rightarrow> replay \<Rightarrow> replay option" where
  "replay_ops [] r = Some r"
| "replay_ops (op # ops) r = (case replay_op op r of None \<Rightarrow> None | Some r' \<Rightarrow> replay_ops ops r')"

definition replay_new :: replay where
  "replay_new = \<lparr>r_buf = rs_new (secs 3600), r_model = dm_empty, r_credited = [], r_recorded = []\<rparr>"

definition no_lost_credit :: "instant \<Rightarrow> replay \<Rightarrow> bool" where
  "no_lost_credit now r \<longleftrightarrow>
     set (r_credited r) \<subseteq> set (r_recorded r) \<and>
     (\<forall>p. count_list (r_credited r) p \<le> count_list (r_recorded r) p) \<and>
     (\<forall>(share_id, expected_block) \<in> set (r_model r).
        fst (rs_take now (id_hash share_id) (r_buf r)) = Some (id_hash expected_block))"

section \<open>The property-based test holds\<close>

lemma id_hash_inj [simp]: "id_hash i = id_hash j \<longleftrightarrow> i = j"
proof
  assume "id_hash i = id_hash j"
  then have eq: "(ucast i :: u64) = ucast j" by (simp add: id_hash_def)
  show "i = j"
  proof (rule bit_word_eqI)
    fix n assume n: "n < LENGTH(32)"
    from eq have "bit (ucast i :: u64) n = bit (ucast j :: u64) n" by simp
    with n show "bit i n = bit j n" by (simp add: bit_ucast_iff)
  qed
qed simp

text \<open>
  The buffer and the test's model agree, share by share, and a pair that is still buffered has been
  recorded once more than it was credited.
\<close>

definition counts_ok :: "replay \<Rightarrow> bool" where
  "counts_ok r \<longleftrightarrow> (\<forall>i b. count_list (r_credited r) (i, b) + (if dm_get (r_model r) i = Some b then 1 else 0)
     \<le> count_list (r_recorded r) (i, b))"

definition replay_inv :: "replay \<Rightarrow> bool" where
  "replay_inv r \<longleftrightarrow> rs_wf (r_buf r) \<and> rs_ttl (r_buf r) = secs 3600 \<and> dm_wf (r_model r) \<and>
     (\<forall>i. map_option snd (dm_get (rs_inner (r_buf r)) (id_hash i)) = map_option id_hash (dm_get (r_model r) i)) \<and>
     counts_ok r"

lemma replay_inv_new: "replay_inv replay_new"
  by (simp add: replay_inv_def replay_new_def counts_ok_def) (simp add: rs_new_def)

lemma take_within_ttl:
  assumes "replay_inv r" and "now \<le> secs 3600"
  shows "fst (rs_take now (id_hash i) (r_buf r)) = map_option id_hash (dm_get (r_model r) i)"
proof -
  from assms(1) have "map_option snd (dm_get (rs_inner (r_buf r)) (id_hash i)) = map_option id_hash (dm_get (r_model r) i)"
    and "rs_ttl (r_buf r) = secs 3600" by (auto simp: replay_inv_def)
  with assms(2) show ?thesis by (auto simp: fst_rs_take split: option.splits)
qed

lemma counts_record:
  assumes "counts_ok r" and "dm_wf (r_model r)"
  shows "counts_ok (r\<lparr>r_recorded := r_recorded r @ [(i, b)], r_buf := buf, r_model := dm_insert i b (r_model r)\<rparr>)"
  unfolding counts_ok_def
proof (intro allI)
  fix j c
  have "count_list (r_credited r) (j, c) \<le> count_list (r_recorded r) (j, c)"
    "j \<noteq> i \<Longrightarrow> count_list (r_credited r) (j, c) + (if dm_get (r_model r) j = Some c then 1 else 0)
       \<le> count_list (r_recorded r) (j, c)"
    using assms(1) unfolding counts_ok_def by (meson add_leE)+
  then show "count_list (r_credited (r\<lparr>r_recorded := r_recorded r @ [(i, b)], r_buf := buf, r_model := dm_insert i b (r_model r)\<rparr>)) (j, c) +
      (if dm_get (r_model (r\<lparr>r_recorded := r_recorded r @ [(i, b)], r_buf := buf, r_model := dm_insert i b (r_model r)\<rparr>)) j = Some c then 1 else 0)
      \<le> count_list (r_recorded (r\<lparr>r_recorded := r_recorded r @ [(i, b)], r_buf := buf, r_model := dm_insert i b (r_model r)\<rparr>)) (j, c)"
    using assms(2) by (cases "j = i") (auto simp: count_list_append split: if_splits)
qed

lemma counts_take:
  assumes "counts_ok r" and "dm_wf (r_model r)" and "dm_get (r_model r) i = Some b"
  shows "counts_ok (r\<lparr>r_buf := buf, r_model := dm_remove i (r_model r), r_credited := r_credited r @ [(i, b)]\<rparr>)"
  unfolding counts_ok_def
proof (intro allI)
  fix j c
  from assms(1) have "count_list (r_credited r) (j, c) + (if dm_get (r_model r) j = Some c then 1 else 0)
      \<le> count_list (r_recorded r) (j, c)" by (simp add: counts_ok_def)
  then show "count_list (r_credited (r\<lparr>r_buf := buf, r_model := dm_remove i (r_model r), r_credited := r_credited r @ [(i, b)]\<rparr>)) (j, c) +
      (if dm_get (r_model (r\<lparr>r_buf := buf, r_model := dm_remove i (r_model r), r_credited := r_credited r @ [(i, b)]\<rparr>)) j = Some c then 1 else 0)
      \<le> count_list (r_recorded (r\<lparr>r_buf := buf, r_model := dm_remove i (r_model r), r_credited := r_credited r @ [(i, b)]\<rparr>)) (j, c)"
    using assms(2,3) by (cases "j = i") (auto simp: count_list_append split: if_splits)
qed

lemma replay_op_ok:
  assumes "replay_inv r" and "now \<le> secs 3600"
  shows "\<exists>r'. replay_op (now, op) r = Some r' \<and> replay_inv r'"
proof (cases op)
  case (OpRecord i b)
  have "dm_wf (r_model r)" "counts_ok r" using assms(1) by (simp_all add: replay_inv_def)
  with assms(1) counts_record [of r i b] show ?thesis
    by (simp add: OpRecord replay_inv_def) (auto simp: rs_record_def rs_wf_def)
next
  case (OpTake i)
  obtain got buf where take: "rs_take now (id_hash i) (r_buf r) = (got, buf)" by (cases "rs_take now (id_hash i) (r_buf r)")
  with take_within_ttl [OF assms, of i] have got: "got = map_option id_hash (dm_get (r_model r) i)" by simp
  have buf: "rs_wf buf" "rs_ttl buf = secs 3600"
    "dm_get (rs_inner buf) (id_hash j) = (if j = i then None else dm_get (rs_inner (r_buf r)) (id_hash j))" for j
    using assms(1) rs_wf_take [of "r_buf r" now "id_hash i"] ttl_rs_ops(2) [of now "id_hash i" "r_buf r"]
      inner_rs_take [of now "id_hash i" "r_buf r" "id_hash j"] take
    by (auto simp: replay_inv_def)
  have wf: "dm_wf (r_model r)" "counts_ok r" using assms(1) by (simp_all add: replay_inv_def)
  show ?thesis
  proof (cases "dm_get (r_model r) i")
    case None
    then have "counts_ok (r\<lparr>r_buf := buf, r_model := dm_remove i (r_model r)\<rparr>)"
      using wf by (auto simp: counts_ok_def) (meson add_leE)
    with None assms(1) buf show ?thesis by (auto simp: OpTake take got replay_inv_def Let_def)
  next
    case (Some b)
    with assms(1) buf counts_take [OF wf(2,1) Some] show ?thesis
      by (auto simp: OpTake take got replay_inv_def Let_def)
  qed
qed

text \<open>
  the property-based test of the buffer, for every sequence of operations within the time to live:
  no assertion fails during the replay, every credit was recorded, none is given more often than it
  was recorded, and every share the model still holds gets its credit.
\<close>

lemma random_interleaving_preserves_block_finder_credit:
  assumes "\<forall>(t, op) \<in> set ops. t \<le> secs 3600" and "now \<le> secs 3600"
  shows "\<exists>r. replay_ops ops replay_new = Some r \<and> no_lost_credit now r"
proof -
  have "\<exists>r'. replay_ops ops r = Some r' \<and> replay_inv r'" if "replay_inv r" for r
    using that assms(1)
  proof (induction ops arbitrary: r)
    case Nil
    then show ?case by simp
  next
    case (Cons op ops)
    then obtain r1 where "replay_op op r = Some r1" "replay_inv r1"
      using replay_op_ok [OF Cons.prems(1), of "fst op" "snd op"] by (cases op) auto
    with Cons show ?case by auto
  qed
  from this [OF replay_inv_new] obtain r where r: "replay_ops ops replay_new = Some r" "replay_inv r" by blast
  have le: "count_list (r_credited r) p \<le> count_list (r_recorded r) p" for p
    using r(2) unfolding replay_inv_def counts_ok_def by (metis add_leE surj_pair)
  have "set (r_credited r) \<subseteq> set (r_recorded r)"
    using le by (metis count_list_0_iff le_zero_eq subsetI)
  moreover have "fst (rs_take now (id_hash i) (r_buf r)) = Some (id_hash b)" if "(i, b) \<in> set (r_model r)" for i b
    using take_within_ttl [OF r(2) assms(2), of i] that r(2) by (auto simp: replay_inv_def dm_wf_def dm_get_def)
  ultimately show ?thesis using r le by (auto simp: no_lost_credit_def)
qed

end
