(* ===== verification/Cache_Tests.thy ===== *)
theory Cache_Tests
  imports Solutions_Tests
begin

text \<open>
  The test module of \<open>crates/sv2-p2pool-engine/src/lib.rs\<close>: the declared-jobs cache, the engine's
  constructors, the sweeper and the reorg watcher, as scenarios the model is evaluated on. Tests of
  tasks fix the schedule the paused clock of the source produces: which ticks run and that the
  receiver is drained.
\<close>

section \<open>Fixtures\<close>

definition dummy_job :: "u32 \<Rightarrow> declared_job" where
  "dummy_job version =
     \<lparr>job_version = version, job_coinbase_tx_prefix = [], job_coinbase_tx_suffix = [], job_wtxid_list = [],
      job_txid_list = None, job_tip = default_tip, job_template_id = None, job_share_chain_tip = None,
      job_validated = False, job_allocated_token = None\<rparr>"

definition job_with_tip :: "u32 \<Rightarrow> block_hash \<Rightarrow> u32 \<Rightarrow> declared_job" where
  "job_with_tip version prev_hash nbits =
     \<lparr>job_version = version, job_coinbase_tx_prefix = [], job_coinbase_tx_suffix = [], job_wtxid_list = [],
      job_txid_list = None, job_tip = \<lparr>tip_prev_hash = prev_hash, tip_nbits = nbits, tip_min_ntime = 0\<rparr>,
      job_template_id = None, job_share_chain_tip = None, job_validated = False, job_allocated_token = None\<rparr>"

primrec insert_dummies :: "u32 list \<Rightarrow> declared_job_cache \<Rightarrow> declared_job_cache" where
  "insert_dummies [] c = c"
| "insert_dummies (i # is) c = insert_dummies is (snd (jobs_insert i (dummy_job i) c))"

section \<open>The cache\<close>

definition find_by_solution_empty_cache_returns_none :: "externals \<Rightarrow> bool" where
  "find_by_solution_empty_cache_returns_none X \<longleftrightarrow> find_by_solution X dm_empty all_zeros 0 0 = None"

definition find_by_solution_returns_request_id_on_match :: "externals \<Rightarrow> bool" where
  "find_by_solution_returns_request_id_on_match X \<longleftrightarrow>
     (let prev_a = hash_from_u64 1; prev_b = hash_from_u64 2;
          c = snd (jobs_insert 20 (job_with_tip 2 prev_b 0x200)
                (snd (jobs_insert 10 (job_with_tip 1 prev_a 0x100) dm_empty)))
      in find_by_solution X c prev_a 0x100 1 = Some 10 \<and> find_by_solution X c prev_b 0x200 2 = Some 20)"

definition find_by_solution_returns_none_when_no_field_matches :: "externals \<Rightarrow> bool" where
  "find_by_solution_returns_none_when_no_field_matches X \<longleftrightarrow>
     (let prev_a = hash_from_u64 1; c = snd (jobs_insert 10 (job_with_tip 1 prev_a 0x100) dm_empty)
      in find_by_solution X c prev_a 0x100 999 = None \<and> find_by_solution X c prev_a 0x999 1 = None \<and>
         find_by_solution X c (hash_from_u64 99) 0x100 1 = None)"

definition retain_keeps_matching_drops_others :: bool where
  "retain_keeps_matching_drops_others \<longleftrightarrow>
     (let (dropped, c) = jobs_retain (\<lambda>job. job_version job mod 2 = 1) (insert_dummies [1, 2, 3] dm_empty)
      in dropped = 1 \<and> jobs_len c = 2 \<and> jobs_get c 1 \<noteq> None \<and> jobs_get c 2 = None \<and> jobs_get c 3 \<noteq> None)"

definition retain_drop_all_returns_full_count :: bool where
  "retain_drop_all_returns_full_count \<longleftrightarrow>
     (let (dropped, c) = jobs_retain (\<lambda>_. False) (insert_dummies [1, 2] dm_empty)
      in dropped = 2 \<and> jobs_is_empty c)"

definition retain_keep_all_returns_zero :: bool where
  "retain_keep_all_returns_zero \<longleftrightarrow>
     (let (dropped, c) = jobs_retain (\<lambda>_. True) (insert_dummies [1, 2] dm_empty)
      in dropped = 0 \<and> jobs_len c = 2)"

definition declared_job_cache_invalidate_all_drops_everything :: bool where
  "declared_job_cache_invalidate_all_drops_everything \<longleftrightarrow>
     (let c0 = insert_dummies [1, 2, 3] dm_empty; (dropped, c1) = invalidate_all c0; (again, c2) = invalidate_all c1
      in jobs_len c0 = 3 \<and> dropped = 3 \<and> jobs_is_empty c1 \<and> again = 0 \<and> jobs_is_empty c2)"

section \<open>The engine\<close>

definition engine_default_constructs_with_empty_state :: bool where
  "engine_default_constructs_with_empty_state \<longleftrightarrow>
     eng_network engine_default = Regtest \<and> jobs_is_empty (declared_jobs engine_default) \<and>
     dm_len (token_payout engine_default) = 0 \<and> \<not> has_handles engine_default"

text \<open>
  The bitcoind client is a parameter: \<open>h\<close> is any handles whose reader is the mock chain.
\<close>

definition engine_with_handles_reports_handles_present :: "engine_handles \<Rightarrow> bool" where
  "engine_with_handles_reports_handles_present h \<longleftrightarrow>
     (let e = with_tdp tdp_new (engine_with_handles Regtest (h\<lparr>hnd_chain := mock_reader mock_new\<rparr>))
      in has_handles e \<and> has_tdp e \<and> eng_network e = Regtest \<and> jobs_is_empty (declared_jobs e) \<and> handles e \<noteq> None)"

definition engine_token_payout_is_shared_arc :: bool where
  "engine_token_payout_is_shared_arc \<longleftrightarrow>
     (let e = engine_new Regtest; e' = e\<lparr>token_payout := dm_insert 42 [] (token_payout e)\<rparr>
      in dm_len (token_payout e') = 1 \<and> lookup_payout_script e' 42 = Some [])"

definition engine_recent_solutions_sweeper_evicts_expired_entries :: bool where
  "engine_recent_solutions_sweeper_evicts_expired_entries \<longleftrightarrow>
     (let buf = rs_record 0 (replicate 32 1) (replicate 32 2) (rs_new (millis 50));
          e = start_recent_solutions_sweeper ((engine_new Regtest)\<lparr>recent_sols := buf\<rparr>);
          e' = foldl (\<lambda>e t. sweeper_tick (millis t) None e) e [0, 20, 40, 60, 80, 100, 120, 140]
      in rs_len buf = 1 \<and> rs_len (recent_sols e') = 0 \<and> sweeper (stop_recent_solutions_sweeper e') = None)"

definition engine_sweeper_updates_cache_size_gauges :: "nat \<Rightarrow> bool" where
  "engine_sweeper_updates_cache_size_gauges unix \<longleftrightarrow>
     (let buf = rs_record 0 (replicate 32 1) (replicate 32 2) (rs_new (secs 10));
          e0 = (with_metrics initial_metrics (engine_new Regtest))
                 \<lparr>recent_sols := buf, declared_jobs := insert_dummies [1, 2] dm_empty\<rparr>;
          e1 = foldl (\<lambda>e t. sweeper_tick (millis t) (Some unix) e) (start_recent_solutions_sweeper e0) [0, 20];
          e2 = sweeper_tick (millis 40) (Some unix)
                 (e1\<lparr>declared_jobs := snd (jobs_remove 1 (declared_jobs e1))\<rparr>)
      in map_option declared_jobs_cache_size (metrics e0) = Some 0 \<and>
         map_option recent_solutions_buffer_size (metrics e0) = Some 0 \<and>
         map_option sweeper_last_run_timestamp_seconds (metrics e0) = Some 0 \<and>
         map_option declared_jobs_cache_size (metrics e1) = Some 2 \<and>
         map_option recent_solutions_buffer_size (metrics e1) = Some 1 \<and>
         map_option sweeper_last_run_timestamp_seconds (metrics e1) = Some (word_of_nat unix) \<and>
         map_option declared_jobs_cache_size (metrics e2) = Some 1)"

text \<open>
  The watcher over a scripted source: the detector ticks, then the invalidator drains what it sent;
  300 ms of a 50 ms period, in steps of 60 ms, are at least six ticks.
\<close>

definition watcher_run :: "block_hash option list \<Rightarrow> engine \<Rightarrow> engine \<times> block_hash list" where
  "watcher_run script e =
     (let e1 = start_reorg_watcher e; (_, d) = run_script script 6;
          sent = drain_values d (detector_subscribe (detector_new default_poll_period_secs))
      in (reorg_invalidator_loop quiet 0 (map RecvOk sent) e1, sent))"

definition engine_invalidates_cache_on_tip_change :: bool where
  "engine_invalidates_cache_on_tip_change \<longleftrightarrow>
     (let e0 = (engine_new Regtest)\<lparr>declared_jobs := insert_dummies [1, 2] dm_empty\<rparr>;
          (e, sent) = watcher_run [Some (hash_from_u64 1), Some (hash_from_u64 1), Some (hash_from_u64 2)] e0
      in jobs_len (declared_jobs e0) = 2 \<and> sent = [hash_from_u64 2] \<and> jobs_is_empty (declared_jobs e))"

definition engine_reorg_watcher_bumps_metrics_on_tip_change :: bool where
  "engine_reorg_watcher_bumps_metrics_on_tip_change \<longleftrightarrow>
     (let e0 = (with_metrics initial_metrics (engine_new Regtest))\<lparr>declared_jobs := insert_dummies [1, 2, 3] dm_empty\<rparr>;
          (e, _) = watcher_run [Some (hash_from_u64 1), Some (hash_from_u64 2)] e0
      in map_option reorg_notifications (metrics e0) = Some 0 \<and>
         map_option jobs_invalidated_total (metrics e0) = Some 0 \<and> jobs_is_empty (declared_jobs e) \<and>
         map_option reorg_notifications (metrics e) = Some 1 \<and>
         map_option jobs_invalidated_total (metrics e) = Some 3)"

section \<open>The tests hold\<close>

lemmas cache_test_simps = Let_def jobs_insert_def jobs_remove_def jobs_len_def jobs_get_def jobs_is_empty_def
  jobs_retain_def invalidate_all_def dummy_job_def dm_insert_def dm_remove_def dm_retain_def dm_len_def dm_empty_def
  dm_get_def

lemma find_none_test: "find_by_solution_empty_cache_returns_none X" if "iter_laws X"
  using that
  by (auto simp: find_by_solution_empty_cache_returns_none_def find_by_solution_def iter_laws_def
      find_None_iff dm_empty_def)

lemma find_unique:
  assumes "iter_laws X" and "k \<in> fst ` set c"
    and "\<And>j. (case dm_get c j of Some job \<Rightarrow> job_matches p nb v job | None \<Rightarrow> False) \<longleftrightarrow> j = k"
  shows "find_by_solution X c p nb v = Some k"
proof -
  have "\<exists>j. find_by_solution X c p nb v = Some j"
    using assms by (auto simp: find_by_solution_def iter_laws_def find_None_iff simp flip: not_None_eq)
  with assms(3) show ?thesis by (auto simp: find_by_solution_def find_Some_iff)
qed

lemma cache_unit_tests:
  "retain_keeps_matching_drops_others"
  "retain_drop_all_returns_full_count"
  "retain_keep_all_returns_zero"
  "declared_job_cache_invalidate_all_drops_everything"
  by (simp_all add: retain_keeps_matching_drops_others_def retain_drop_all_returns_full_count_def
      retain_keep_all_returns_zero_def declared_job_cache_invalidate_all_drops_everything_def cache_test_simps)

lemma find_match_test: "find_by_solution_returns_request_id_on_match X" if "iter_laws X"
proof -
  let ?c = "dm_insert 20 (job_with_tip 2 (hash_from_u64 2) 0x200) (dm_insert 10 (job_with_tip 1 (hash_from_u64 1) 0x100) dm_empty)"
  have "find_by_solution X ?c (hash_from_u64 1) 0x100 1 = Some 10" "find_by_solution X ?c (hash_from_u64 2) 0x200 2 = Some 20"
    by (rule find_unique [OF that]; auto simp: job_with_tip_def job_matches_def dm_insert_def dm_empty_def)+
  then show ?thesis by (simp add: find_by_solution_returns_request_id_on_match_def jobs_insert_def)
qed

lemma find_no_match_test: "find_by_solution_returns_none_when_no_field_matches X"
  by (auto simp: find_by_solution_returns_none_when_no_field_matches_def find_by_solution_def find_None_iff
      job_with_tip_def job_matches_def jobs_insert_def split: option.splits)

lemma engine_constructor_tests:
  "engine_default_constructs_with_empty_state"
  "engine_with_handles_reports_handles_present h"
  "engine_token_payout_is_shared_arc"
  by (simp_all add: engine_default_constructs_with_empty_state_def engine_with_handles_reports_handles_present_def
      engine_token_payout_is_shared_arc_def engine_default_def engine_new_def engine_with_handles_def with_tdp_def
      has_handles_def has_tdp_def lookup_payout_script_def cache_test_simps)

lemma sweeper_tests:
  "engine_recent_solutions_sweeper_evicts_expired_entries"
  "engine_sweeper_updates_cache_size_gauges unix"
  by (simp_all add: engine_recent_solutions_sweeper_evicts_expired_entries_def
      engine_sweeper_updates_cache_size_gauges_def start_recent_solutions_sweeper_def stop_recent_solutions_sweeper_def
      spawn_task_def abort_task_def engine_new_def sweeper_tick_def with_metrics_def initial_metrics_def
      zero_metrics_def bump_def cache_test_simps solutions_test_simps)

lemma scripted_six:
  "run_script [Some a, Some a, Some b] 6 = (Some b, \<lparr>det_period = default_poll_period_secs, det_sent = [b]\<rparr>)"
  "run_script [Some a, Some b] 6 = (Some b, \<lparr>det_period = default_poll_period_secs, det_sent = [b]\<rparr>)"
  if "a \<noteq> b"
  using that
  by (simp_all add: run_script_def scripted_tip_source_def ticks_loop upt_conv_Cons poll_once_def detector_new_def)

lemma drain_one: "drain_values \<lparr>det_period = p, det_sent = [b]\<rparr> \<lparr>rx_pos = 0\<rparr> = [b]"
  by (simp add: drain_near broadcast_capacity_def)

lemma watcher_tests:
  "engine_invalidates_cache_on_tip_change"
  "engine_reorg_watcher_bumps_metrics_on_tip_change"
  by (simp_all add: engine_invalidates_cache_on_tip_change_def engine_reorg_watcher_bumps_metrics_on_tip_change_def
      watcher_run_def scripted_six drain_one detector_subscribe_def detector_new_def start_reorg_watcher_def
      spawn_task_def invalidator_event_def inc_jobs_invalidated_def count_reorg_def engine_new_def
      with_metrics_def initial_metrics_def zero_metrics_def bump_def cache_test_simps)

end
