(* ===== verification/Engine_Fixtures.thy ===== *)
theory Engine_Fixtures
  imports Engine_Push Engine_Token Engine_Reorg Cache_Tests
begin

text \<open>
  The fixtures of the test module of \<open>crates/sv2-p2pool-engine/src/engine_impl.rs\<close>. The consensus
  encoding and the wtxid are third-party code, the parameters \<open>ser\<close> and \<open>wtxid\<close>: what the tests rely
  on is that a coinbase is laid out as 43 bytes, the length of its script, the script, and a rest
  that does not depend on it, and that decoding undoes encoding.
\<close>

section \<open>Transactions\<close>

definition build_coinbase :: "bytes \<Rightarrow> transaction" where
  "build_coinbase script_sig_payload =
     \<lparr>tx_version = 2, lock_time = 0,
      tx_input = [\<lparr>previous_output = \<lparr>op_txid = all_zeros, op_vout = 4294967295\<rparr>,
                  script_sig = script_sig_payload, sequence = 4294967295, witness = [replicate 32 0]\<rparr>],
      tx_output = [\<lparr>txo_value = 0, script_pubkey = []\<rparr>]\<rparr>"

definition split_coinbase ::
  "externals \<Rightarrow> (transaction \<Rightarrow> bytes) \<Rightarrow> transaction \<Rightarrow> nat \<Rightarrow> bytes \<times> bytes" where
  "split_coinbase X ser tx extranonce_bytes =
     (let serialized = ser tx;
          script_sig_len = length (script_sig (hd (tx_input tx)));
          pos = 43 + varint_size X (word_of_nat script_sig_len);
          split_at = pos + (script_sig_len - extranonce_bytes)
      in (take split_at serialized, drop (split_at + extranonce_bytes) serialized))"

definition token_b0255 :: "u64 \<Rightarrow> bytes" where
  "token_b0255 token = le_bytes8 token"

definition build_declare_mining_job ::
  "u32 \<Rightarrow> u64 \<Rightarrow> u32 \<Rightarrow> bytes \<Rightarrow> bytes \<Rightarrow> bytes list \<Rightarrow> declare_mining_job" where
  "build_declare_mining_job request_id token version coinbase_prefix coinbase_suffix wtxids =
     \<lparr>dmj_request_id = request_id, dmj_mining_job_token = token_b0255 token, dmj_version = version,
      dmj_coinbase_tx_prefix = coinbase_prefix, dmj_coinbase_tx_suffix = coinbase_suffix, dmj_wtxid_list = wtxids\<rparr>"

definition build_set_custom_mining_job ::
  "u32 \<Rightarrow> bytes \<Rightarrow> u32 \<Rightarrow> bytes \<Rightarrow> bytes list \<Rightarrow> set_custom_mining_job" where
  "build_set_custom_mining_job version prev_hash_bytes nbits outputs path =
     \<lparr>scmj_version = version, scmj_prev_hash = prev_hash_bytes, scmj_min_ntime = 0, scmj_nbits = nbits,
      scmj_coinbase_tx_version = 2, scmj_coinbase_prefix = [], scmj_coinbase_tx_input_n_sequence = 4294967295,
      scmj_coinbase_tx_outputs = outputs, scmj_coinbase_tx_locktime = 0, scmj_merkle_path = path\<rparr>"

definition fake_tx :: transaction where
  "fake_tx =
     \<lparr>tx_version = 2, lock_time = 0,
      tx_input = [\<lparr>previous_output = \<lparr>op_txid = all_zeros, op_vout = 4294967295\<rparr>,
                  script_sig = [1, 2, 3, 4], sequence = 4294967295, witness = []\<rparr>],
      tx_output = [\<lparr>txo_value = 0, script_pubkey = []\<rparr>]\<rparr>"

definition payout_script :: "byte \<Rightarrow> script" where
  "payout_script tag = [0x00, 0x14] @ replicate 20 tag"

text \<open>
  What the tests rely on of the codec.
\<close>

definition codec_ok :: "externals \<Rightarrow> (transaction \<Rightarrow> bytes) \<Rightarrow> (transaction \<Rightarrow> wtxid) \<Rightarrow> bool" where
  "codec_ok X ser wtxid \<longleftrightarrow>
     (\<exists>head rest. length head = 43 \<and> length rest < 2 ^ 32 \<and>
        (\<forall>p. length p = 16 \<longrightarrow> ser (build_coinbase p) = head @ 16 # p @ rest)) \<and>
     (\<forall>p. length p = 16 \<longrightarrow> decode_tx X (ser (build_coinbase p)) = Some (build_coinbase p)) \<and>
     decode_tx X (ser fake_tx) = Some fake_tx \<and> length (wtxid fake_tx) = 32 \<and>
     (\<forall>bs. decode_varint X (16 # bs) = Some 16) \<and> varint_size X 16 = 1 \<and> iter_laws X"

section \<open>Messages\<close>

abbreviation coinbase_parts :: "externals \<Rightarrow> (transaction \<Rightarrow> bytes) \<Rightarrow> bytes \<times> bytes" where
  "coinbase_parts X ser \<equiv> split_coinbase X ser (build_coinbase (replicate 16 0)) 16"

definition test_declare ::
  "externals \<Rightarrow> (transaction \<Rightarrow> bytes) \<Rightarrow> u32 \<Rightarrow> u64 \<Rightarrow> u32 \<Rightarrow> bytes list \<Rightarrow> declare_mining_job" where
  "test_declare X ser request_id token version wtxids =
     build_declare_mining_job request_id token version (fst (coinbase_parts X ser)) (snd (coinbase_parts X ser)) wtxids"

definition bad_token_declare :: "externals \<Rightarrow> (transaction \<Rightarrow> bytes) \<Rightarrow> declare_mining_job" where
  "bad_token_declare X ser = (test_declare X ser 1 0 1 [])\<lparr>dmj_mining_job_token := [1, 2, 3]\<rparr>"

definition fake_pmts :: "(transaction \<Rightarrow> bytes) \<Rightarrow> provide_missing_transactions_success" where
  "fake_pmts ser = \<lparr>pmts_request_id = 7, pmts_transaction_list = [ser fake_tx]\<rparr>"

definition solution :: "bytes \<Rightarrow> bytes \<Rightarrow> u32 \<Rightarrow> u32 \<Rightarrow> push_solution" where
  "solution extranonce prev nonce ntime =
     \<lparr>ps_extranonce = extranonce, ps_prev_hash = prev, ps_nonce = nonce, ps_ntime = ntime,
      ps_nbits = 0x207fffff, ps_version = 0x20000000\<rparr>"

section \<open>Reassembling the fixture\<close>

lemma length_le_bytes8 [simp]: "length (le_bytes8 w) = 8"
  by (simp add: le_bytes8_def)

lemma parts_layout:
  assumes "codec_ok X ser wtxid"
  shows "\<exists>head rest. coinbase_parts X ser = (head @ [16], rest) \<and> length head = 43 \<and> length rest < 2 ^ 32 \<and>
    (\<forall>p. length p = 16 \<longrightarrow> decode_tx X (head @ 16 # p @ rest) = Some (build_coinbase p))"
proof -
  from assms obtain head rest where len: "length head = 43" "length rest < 2 ^ 32"
    and ser: "\<And>p. length p = 16 \<Longrightarrow> ser (build_coinbase p) = head @ 16 # p @ rest"
    and dec: "\<And>p. length p = 16 \<Longrightarrow> decode_tx X (ser (build_coinbase p)) = Some (build_coinbase p)"
    and vs: "varint_size X 16 = 1"
    unfolding codec_ok_def by blast
  have "ser (build_coinbase (replicate 16 0)) = head @ 16 # replicate 16 0 @ rest" by (rule ser) simp
  then have "coinbase_parts X ser = (head @ [16], rest)"
    using len by (simp add: split_coinbase_def build_coinbase_def Let_def vs)
  moreover have "decode_tx X (head @ 16 # p @ rest) = Some (build_coinbase p)" if "length p = 16" for p
    using dec [OF that] ser [OF that] by simp
  ultimately show ?thesis using len by blast
qed

lemma parts_reconstruct:
  assumes "codec_ok X ser wtxid"
  shows "reconstruct_coinbase X (fst (coinbase_parts X ser)) (snd (coinbase_parts X ser)) =
      Ok (build_coinbase (replicate 16 0))"
    and "length ext = 16 \<Longrightarrow>
      reconstruct_coinbase_with_extranonce X (fst (coinbase_parts X ser)) ext (snd (coinbase_parts X ser)) =
      Ok (build_coinbase ext)"
proof -
  obtain head rest where parts: "coinbase_parts X ser = (head @ [16], rest)" "length head = 43" "length rest < 2 ^ 32"
    and dec: "\<And>p. length p = 16 \<Longrightarrow> decode_tx X (head @ 16 # p @ rest) = Some (build_coinbase p)"
    using parts_layout [OF assms] by blast
  have hole: "script_sig_hole X (head @ [16]) = Ok 16"
    using assms parts(2) by (simp add: script_sig_hole_def coinbase_prefix_len_def codec_ok_def)
  show "reconstruct_coinbase X (fst (coinbase_parts X ser)) (snd (coinbase_parts X ser)) =
      Ok (build_coinbase (replicate 16 0))"
    using parts dec [of "replicate 16 0"]
    by (simp add: reconstruct_coinbase_def hole decode_coinbase_def isize_max_def)
  show "length ext = 16 \<Longrightarrow>
      reconstruct_coinbase_with_extranonce X (fst (coinbase_parts X ser)) ext (snd (coinbase_parts X ser)) =
      Ok (build_coinbase ext)"
    using parts dec [of ext]
    by (simp add: reconstruct_coinbase_with_extranonce_def hole decode_coinbase_def isize_max_def)
qed

text \<open>
  A codec of that kind.
\<close>

definition test_ser :: "transaction \<Rightarrow> bytes" where
  "test_ser tx =
     (if witness (hd (tx_input tx)) = [] then script_sig (hd (tx_input tx))
      else replicate 43 0 @ word_of_nat (length (script_sig (hd (tx_input tx)))) # script_sig (hd (tx_input tx)) @ [])"

definition test_ext :: externals where
  "test_ext = sample_ext\<lparr>decode_tx := (\<lambda>bs. if length bs < 44 then Some fake_tx else Some (build_coinbase (drop 44 bs)))\<rparr>"

lemma test_codec: "codec_ok test_ext test_ser (\<lambda>_. replicate 32 0)"
proof -
  have "\<forall>p. length p = 16 \<longrightarrow> test_ser (build_coinbase p) = replicate 43 0 @ 16 # p @ []"
    by (simp add: test_ser_def build_coinbase_def)
  then have "\<exists>head rest. length head = 43 \<and> length rest < 2 ^ 32 \<and>
      (\<forall>p. length p = 16 \<longrightarrow> test_ser (build_coinbase p) = head @ 16 # p @ rest)"
    by (intro exI [of _ "replicate 43 0"] exI [of _ "[]"]) simp
  then show ?thesis
    by (simp add: codec_ok_def) (simp add: test_ext_def test_ser_def build_coinbase_def fake_tx_def
        compact_size_decode_def compact_size_len_def iter_laws_def)
qed

end
