(* ===== verification/Engine_Tests.thy ===== *)
theory Engine_Tests
  imports Engine_Fixtures
begin

text \<open>
  The tests of \<open>crates/sv2-p2pool-engine/src/engine_impl.rs\<close> that need no template provider: the
  declaration, the token allocation with its eviction, the reorg notification, and the solutions
  that are dropped. They hold for every codec that satisfies \<open>codec_ok\<close>.
\<close>

section \<open>Declaring a job\<close>

definition declare_mining_job_rejects_short_token :: "externals \<Rightarrow> (transaction \<Rightarrow> bytes) \<Rightarrow> bool" where
  "declare_mining_job_rejects_short_token X ser \<longleftrightarrow>
     fst (handle_declare_mining_job X quiet (bad_token_declare X ser) None engine_default) =
       Reply (DeclareError DmjInvalidMiningJobToken)"

definition declare_mining_job_rejects_coinbase_only_per_adr_0004 ::
  "externals \<Rightarrow> (transaction \<Rightarrow> bytes) \<Rightarrow> bool" where
  "declare_mining_job_rejects_coinbase_only_per_adr_0004 X ser \<longleftrightarrow>
     fst (handle_declare_mining_job X quiet (test_declare X ser 1 42 1 []) None engine_default) =
       Reply (DeclareError DmjInvalidCoinbaseTx)"

definition declare_mining_job_first_pass_returns_missing_transactions ::
  "externals \<Rightarrow> (transaction \<Rightarrow> bytes) \<Rightarrow> bool" where
  "declare_mining_job_first_pass_returns_missing_transactions X ser \<longleftrightarrow>
     (let wtxid = replicate 32 42;
          (r, e) = handle_declare_mining_job X quiet (test_declare X ser 7 99 0x20000000 [wtxid]) None engine_default
      in r = Reply (DeclareMissing [wtxid]) \<and> jobs_is_empty (declared_jobs e) \<and>
         dm_get (allocated_tokens e) 99 = None)"

definition declare_mining_job_with_pmts_caches_snapshot ::
  "externals \<Rightarrow> (transaction \<Rightarrow> bytes) \<Rightarrow> (transaction \<Rightarrow> wtxid) \<Rightarrow> bool" where
  "declare_mining_job_with_pmts_caches_snapshot X ser wtxid \<longleftrightarrow>
     (let (r, e) = handle_declare_mining_job X quiet (test_declare X ser 7 99 0x20000000 [wtxid fake_tx])
                     (Some (fake_pmts ser)) engine_default
      in r = Reply DeclareSuccess \<and> jobs_len (declared_jobs e) = 1 \<and> dm_get (allocated_tokens e) 99 \<noteq> None)"

definition metrics_counters_increment_through_handlers :: "externals \<Rightarrow> (transaction \<Rightarrow> bytes) \<Rightarrow> bool" where
  "metrics_counters_increment_through_handlers X ser \<longleftrightarrow>
     (let e0 = with_metrics initial_metrics engine_default;
          e1 = snd (handle_declare_mining_job X quiet (bad_token_declare X ser) None e0);
          e2 = snd (handle_declare_mining_job X quiet (test_declare X ser 2 99 1 [replicate 32 42]) None e1);
          e3 = snd (handle_push_solution X quiet 0 (solution (replicate 16 0) (replicate 32 1) 0 0) e2);
          e4 = snd (notify_share_chain_reorg quiet (replicate 32 7) e3);
          get = (\<lambda>f e. map_option f (metrics e))
      in get declare_mining_job_rejected e1 = Some 1 \<and> get declare_mining_job_accepted e1 = Some 0 \<and>
         get declare_mining_job_missing_txns e1 = Some 0 \<and>
         get declare_mining_job_missing_txns e2 = Some 1 \<and> get declare_mining_job_rejected e2 = Some 1 \<and>
         get push_solution_received e3 = Some 1 \<and> get blocks_submitted e3 = Some 0 \<and>
         get reorg_notifications e4 = Some 1)"

section \<open>Solutions without a job\<close>

definition set_custom_mining_job_rejects_unknown_token :: bool where
  "set_custom_mining_job_rejects_unknown_token \<longleftrightarrow> dm_len (allocated_tokens engine_default) = 0"

definition push_solution_records_synthetic_share_hash :: "externals \<Rightarrow> bool" where
  "push_solution_records_synthetic_share_hash X \<longleftrightarrow>
     (let e = snd (handle_push_solution X quiet 0 (solution (replicate 32 0) (replicate 32 1) 0xCAFEBABE 1234567890)
                     engine_default)
      in rs_len (recent_sols e) = rs_len (recent_sols engine_default) + 1)"

definition push_solution_no_handles_records_synthetic_only :: "externals \<Rightarrow> bool" where
  "push_solution_no_handles_records_synthetic_only X \<longleftrightarrow>
     (let e0 = with_metrics initial_metrics engine_default;
          e = snd (handle_push_solution X quiet 0 (solution (replicate 16 0) (replicate 32 1) 0 0) e0)
      in rs_len (recent_sols e) = rs_len (recent_sols e0) + 1 \<and>
         map_option (\<lambda>m. label_value (push_solution_dropped m) ''no_handles'') (metrics e) = Some 1)"

definition push_solution_dropped_no_matching_job_increments_counter :: "externals \<Rightarrow> engine_handles \<Rightarrow> bool" where
  "push_solution_dropped_no_matching_job_increments_counter X h \<longleftrightarrow>
     (let e0 = with_metrics initial_metrics (with_tdp tdp_new
                 (engine_with_handles Regtest (h\<lparr>hnd_chain := mock_reader mock_new\<rparr>)));
          e = snd (handle_push_solution X quiet 0 (solution (replicate 16 0xab) (replicate 32 9) 0xDEADBEEF 1700000000) e0)
      in map_option (\<lambda>m. label_value (push_solution_dropped m) ''no_matching_job'') (metrics e) = Some 1 \<and>
         submit_queue e = [] \<and>
         list_all (\<lambda>other. map_option (\<lambda>m. label_value (push_solution_dropped m) other) (metrics e) = Some 0)
           [''cache_race'', ''no_template_id'', ''tdp_fetch_failed'', ''reconstruct_failed'', ''no_handles''])"

definition notify_share_chain_reorg_invalidates_cache :: bool where
  "notify_share_chain_reorg_invalidates_cache \<longleftrightarrow>
     (let job = (dummy_job 1)\<lparr>job_validated := True\<rparr>;
          e0 = engine_default\<lparr>declared_jobs := snd (jobs_insert 2 job (snd (jobs_insert 1 job dm_empty)))\<rparr>;
          e = snd (notify_share_chain_reorg quiet (replicate 32 7) e0)
      in jobs_len (declared_jobs e0) = 2 \<and> jobs_is_empty (declared_jobs e))"

section \<open>Tokens\<close>

definition allocate_token_returns_none_without_resolver :: "externals \<Rightarrow> bool" where
  "allocate_token_returns_none_without_resolver X \<longleftrightarrow>
     (let (r, e) = handle_allocate_mining_job_token X None quiet 42 ''miner-1'' 64 engine_default
      in r = None \<and> dm_len (token_payout e) = 0 \<and> dm_len (user_identifier_index e) = 0)"

text \<open>
  The ligature U+FB01 is three bytes; \<open>nfkc\<close> is the normalisation of the crate.
\<close>

definition ligature_final :: string where
  "ligature_final = [CHR 0xEF, CHR 0xAC, CHR 0x81] @ ''nal''"

definition allocate_token_normalizes_user_identifier :: "externals \<Rightarrow> bool" where
  "allocate_token_normalizes_user_identifier X \<longleftrightarrow>
     (let script = payout_script 1;
          hook = Some (\<lambda>uid. if uid = ''final'' then Some script else None);
          raw = ''  '' @ [CHR 0x09] @ ligature_final @ [CHR 0x0A];
          (out, e) = handle_allocate_mining_job_token X hook quiet 7 raw 64 engine_default
      in out \<noteq> None \<and> dm_get (user_identifier_index e) ''final'' \<noteq> None \<and> lookup_payout_script e 7 = Some script)"

definition allocate_token_rejects_empty_after_trim :: "externals \<Rightarrow> bool" where
  "allocate_token_rejects_empty_after_trim X \<longleftrightarrow>
     (let (out, e) = handle_allocate_mining_job_token X None quiet 1 (''   '' @ [CHR 0x09] @ ''  '') 64 engine_default
      in out = None \<and> dm_len (token_payout e) = 0 \<and> dm_len (user_identifier_index e) = 0)"

definition allocate_token_duplicate_user_identifier_falls_back :: "externals \<Rightarrow> bool" where
  "allocate_token_duplicate_user_identifier_falls_back X \<longleftrightarrow>
     (let hook = Some (\<lambda>_. Some (payout_script 2));
          (first, e1) = handle_allocate_mining_job_token X hook quiet 100 ''miner-X'' 64 engine_default;
          (second, e2) = handle_allocate_mining_job_token X hook quiet 101 ''miner-X'' 64 e1
      in first \<noteq> None \<and> dm_len (token_payout e1) = 1 \<and> dm_get (token_payout e1) 100 \<noteq> None \<and>
         second = None \<and> dm_len (token_payout e2) = 1 \<and> dm_get (token_payout e2) 100 \<noteq> None \<and>
         dm_get (token_payout e2) 101 = None)"

definition allocate_token_idempotent_for_same_token :: "externals \<Rightarrow> bool" where
  "allocate_token_idempotent_for_same_token X \<longleftrightarrow>
     (let hook = Some (\<lambda>_. Some (payout_script 3));
          (first, e1) = handle_allocate_mining_job_token X hook quiet 200 ''miner-Y'' 64 engine_default;
          (second, e2) = handle_allocate_mining_job_token X hook quiet 200 ''miner-Y'' 64 e1
      in first \<noteq> None \<and> second \<noteq> None \<and> dm_len (token_payout e2) = 1)"

definition allocate_token_respects_size_budget :: "externals \<Rightarrow> bool" where
  "allocate_token_respects_size_budget X \<longleftrightarrow>
     (let hook = Some (\<lambda>_. Some (replicate 1024 0));
          (out, e) = handle_allocate_mining_job_token X hook quiet 7 ''miner-Z'' 32 engine_default
      in out = None \<and> dm_len (token_payout e) = 0)"

definition bound_engine :: "u64 \<Rightarrow> byte \<Rightarrow> string \<Rightarrow> engine" where
  "bound_engine token tag user =
     bind_inverse user token (bind_forward token (payout_script tag) engine_default)"

definition token_payout_evictor_drops_allocated :: bool where
  "token_payout_evictor_drops_allocated \<longleftrightarrow>
     (let e0 = bound_engine 99 4 ''miner-A''; e = on_allocated_evicted 99 e0
      in dm_len (token_payout e0) = 1 \<and> dm_len (token_payout e) = 0 \<and> dm_len (user_identifier_index e) = 0)"

definition token_payout_evictor_drops_active_by_allocated_key :: bool where
  "token_payout_evictor_drops_active_by_allocated_key \<longleftrightarrow>
     (let e = on_active_evicted 42 7 (bound_engine 7 5 ''miner-B'')
      in dm_len (token_payout e) = 0 \<and> dm_len (user_identifier_index e) = 0)"

definition token_payout_evictor_unknown_token_is_a_noop :: bool where
  "token_payout_evictor_unknown_token_is_a_noop \<longleftrightarrow>
     (let e = on_allocated_evicted 999 (bound_engine 1 6 ''miner-C'')
      in dm_len (token_payout e) = 1 \<and> dm_get (token_payout e) 1 \<noteq> None \<and>
         dm_get (user_identifier_index e) ''miner-C'' \<noteq> None)"

section \<open>The tests hold\<close>

lemmas engine_default_simps = engine_default_def engine_new_def with_metrics_def with_tdp_def engine_with_handles_def

lemma declare_fields [simp]:
  "dmj_coinbase_tx_prefix (test_declare X ser r t v ws) = fst (coinbase_parts X ser)"
  "dmj_coinbase_tx_suffix (test_declare X ser r t v ws) = snd (coinbase_parts X ser)"
  "dmj_wtxid_list (test_declare X ser r t v ws) = ws" "dmj_request_id (test_declare X ser r t v ws) = r"
  "dmj_version (test_declare X ser r t v ws) = v"
  "dmj_mining_job_token (test_declare X ser r t v ws) = le_bytes8 t"
  by (simp_all add: test_declare_def build_declare_mining_job_def token_b0255_def)

lemma declare_coinbase_fixture:
  "codec_ok X ser wtxid \<Longrightarrow> declare_coinbase X (test_declare X ser r t v ws) = Ok (build_coinbase (replicate 16 0))"
  by (simp add: declare_coinbase_def parts_reconstruct(1)) (simp add: build_coinbase_def)

lemma token_decodes: "decode_token (test_declare X ser r t v ws) = Some (word_of_nat (le_nat (le_bytes8 t)))"
  by (simp add: decode_token_def)

lemma checks_bad_token:
  "declare_checks X (bad_token_declare X ser) pmts = Err (DeclareError DmjInvalidMiningJobToken)"
  by (simp add: declare_checks_def declare_token_def decode_token_def bad_token_declare_def)

lemma checks_no_pmts:
  "codec_ok X ser wtxid \<Longrightarrow> list_all (\<lambda>w. length w = 32) ws \<Longrightarrow>
   declare_checks X (test_declare X ser r t v ws) None =
     Err (if ws = [] then DeclareError DmjInvalidCoinbaseTx else DeclareMissing ws)"
proof -
  assume c: "codec_ok X ser wtxid" and w: "list_all (\<lambda>w. length w = 32) ws"
  have "decode_u256s ws = (Ok ws :: (declare_result, bytes list) result)"
    using w by (simp add: decode_u256s_Ok_iff list_all_iff)
  then show ?thesis
    by (simp add: declare_checks_def declare_token_def token_decodes declare_coinbase_fixture [OF c] declare_policy_def)
qed

lemma declare_tests:
  assumes "codec_ok X ser wtxid"
  shows "declare_mining_job_rejects_short_token X ser"
    and "declare_mining_job_rejects_coinbase_only_per_adr_0004 X ser"
    and "declare_mining_job_first_pass_returns_missing_transactions X ser"
  by (simp_all add: declare_mining_job_rejects_short_token_def
      declare_mining_job_rejects_coinbase_only_per_adr_0004_def
      declare_mining_job_first_pass_returns_missing_transactions_def handle_declare_mining_job_def
      checks_bad_token checks_no_pmts [OF assms] declare_return_def jobs_is_empty_def dm_len_def)
    (simp_all add: engine_default_simps dm_empty_def)

lemma declare_caches_test:
  assumes "codec_ok X ser wtxid"
  shows "declare_mining_job_with_pmts_caches_snapshot X ser wtxid"
proof -
  have w: "length (wtxid fake_tx) = 32" using assms by (simp add: codec_ok_def)
  have "declare_checks X (test_declare X ser 7 99 0x20000000 [wtxid fake_tx]) (Some (fake_pmts ser)) =
      Ok (word_of_nat (le_nat (le_bytes8 99)), [wtxid fake_tx])"
    using w parts_reconstruct(1) [OF assms]
    by (simp add: declare_checks_Ok_iff token_decodes) (simp add: build_coinbase_def)
  then show ?thesis
    by (simp add: declare_mining_job_with_pmts_caches_snapshot_def handle_declare_mining_job_def Let_def
        capture_share_chain_tip_def)
      (simp add: engine_default_simps jobs_len_def dm_len_def dm_insert_def dm_empty_def le_bytes8_def declare_return_def)
qed

lemma push_tests:
  "set_custom_mining_job_rejects_unknown_token"
  "push_solution_records_synthetic_share_hash X"
  "push_solution_no_handles_records_synthetic_only X"
  by (simp_all add: set_custom_mining_job_rejects_unknown_token_def push_solution_records_synthetic_share_hash_def
      push_solution_no_handles_records_synthetic_only_def handle_push_solution_def Let_def push_no_tdp_def
      push_drop_def engine_default_simps rs_len_def rs_record_def rs_new_def dm_len_def dm_insert_def dm_empty_def
      record_push_solution_drop_def push_received_def initial_metrics_def zero_metrics_def)
    (simp_all add: label_value_def with_label_values_def inc_label_def all_drop_reasons_def)

lemma no_matching_job_test:
  assumes "iter_laws X"
  shows "push_solution_dropped_no_matching_job_increments_counter X h"
proof -
  have "find_by_solution X dm_empty p nb v = None" for p nb v
    using assms by (auto simp: find_by_solution_def iter_laws_def find_None_iff dm_empty_def)
  then show ?thesis
    by (simp add: push_solution_dropped_no_matching_job_increments_counter_def handle_push_solution_def Let_def
        push_lookup_def push_drop_def engine_default_simps solution_def to_array32_def record_push_solution_drop_def
        push_received_def initial_metrics_def zero_metrics_def)
      (simp add: label_value_def with_label_values_def inc_label_def all_drop_reasons_def)
qed

lemma reorg_test: "notify_share_chain_reorg_invalidates_cache"
  by (simp add: notify_share_chain_reorg_invalidates_cache_def notify_share_chain_reorg_def Let_def flush_jobs_def
      engine_default_simps cache_test_simps)

lemma metrics_flow_test:
  assumes "codec_ok X ser wtxid"
  shows "metrics_counters_increment_through_handlers X ser"
  by (simp add: metrics_counters_increment_through_handlers_def handle_declare_mining_job_def checks_bad_token
      checks_no_pmts [OF assms] declare_return_def Let_def handle_push_solution_def push_no_tdp_def push_drop_def
      notify_share_chain_reorg_def flush_jobs_def invalidate_all_def engine_default_simps)
    (simp add: initial_metrics_def zero_metrics_def Let_def push_received_def record_push_solution_drop_def
      count_reorg_def inc_jobs_invalidated_def)

lemmas token_test_simps = handle_allocate_mining_job_token_def normalize_user_def trim_ascii_def
  is_ascii_whitespace_def resolve_payout_script_def no_resolver_def bound_elsewhere_def payout_candidate_def
  lookup_payout_script_def Let_def dm_len_def

lemma token_empty_tests:
  "allocate_token_returns_none_without_resolver X"
  "nfkc X [] = [] \<Longrightarrow> allocate_token_rejects_empty_after_trim X"
  by (simp_all add: allocate_token_returns_none_without_resolver_def allocate_token_rejects_empty_after_trim_def
      token_test_simps engine_default_simps dm_empty_def)

lemma token_budget_test:
  assumes "\<And>s. length (serialize_txout X \<lparr>txo_value = 0, script_pubkey = s\<rparr>) \<ge> 9 + length s" and "nfkc X ''miner-Z'' = ''miner-Z''"
  shows "allocate_token_respects_size_budget X"
  using assms(1) [of "replicate 1024 0"] assms(2)
  by (simp add: allocate_token_respects_size_budget_def token_test_simps engine_default_simps dm_empty_def)

text \<open>
  A \<open>TxOut\<close> of a script of fewer than 253 bytes takes nine bytes more.
\<close>

lemma token_binding_tests:
  assumes "\<And>s. length s < 253 \<Longrightarrow> length (serialize_txout X \<lparr>txo_value = 0, script_pubkey = s\<rparr>) = 9 + length s"
    and "nfkc X ligature_final = ''final''" and "nfkc X ''miner-X'' = ''miner-X''" and "nfkc X ''miner-Y'' = ''miner-Y''"
  shows "allocate_token_normalizes_user_identifier X"
    and "allocate_token_duplicate_user_identifier_falls_back X"
    and "allocate_token_idempotent_for_same_token X"
proof -
  have len: "length (serialize_txout X \<lparr>txo_value = 0, script_pubkey = payout_script tag\<rparr>) = 31" for tag
    by (subst assms(1)) (simp_all add: payout_script_def)
  have "trim_ascii (''  '' @ [CHR 0x09] @ ligature_final @ [CHR 0x0A]) = ligature_final"
    by (simp add: trim_ascii_def is_ascii_whitespace_def ligature_final_def)
  with assms(2) have trim: "normalize_user X (CHR '' '' # CHR '' '' # CHR 0x09 # ligature_final @ [CHR 0x0A]) = ''final''"
    by (simp add: normalize_user_def)
  show "allocate_token_normalizes_user_identifier X"
    by (simp add: allocate_token_normalizes_user_identifier_def handle_allocate_mining_job_token_def Let_def trim resolve_payout_script_def bound_elsewhere_def payout_candidate_def len
        lookup_payout_script_def) (simp add: engine_default_simps)
  show "allocate_token_duplicate_user_identifier_falls_back X" "allocate_token_idempotent_for_same_token X"
    by (simp_all add: allocate_token_duplicate_user_identifier_falls_back_def
        allocate_token_idempotent_for_same_token_def token_test_simps assms(3,4) len)
      (simp_all add: engine_default_simps dm_insert_def dm_empty_def dm_get_def bind_inverse_def bind_forward_def)
qed

lemma evictor_tests:
  "token_payout_evictor_drops_allocated"
  "token_payout_evictor_drops_active_by_allocated_key"
  "token_payout_evictor_unknown_token_is_a_noop"
  by (simp_all add: token_payout_evictor_drops_allocated_def token_payout_evictor_drops_active_by_allocated_key_def
      token_payout_evictor_unknown_token_is_a_noop_def on_allocated_evicted_def on_active_evicted_def bound_engine_def
      drop_token_payout_def bind_forward_def bind_inverse_def engine_default_simps Let_def dm_len_def dm_insert_def
      dm_empty_def dm_remove_def dm_retain_def dm_get_def)

end
