(* ===== verification/Engine_Flow_Tests.thy ===== *)
theory Engine_Flow_Tests
  imports Engine_Tests Tdp_System
begin

text \<open>
  The tests of \<open>crates/sv2-p2pool-engine/src/engine_impl.rs\<close> that run a job through declaration and
  custom job or solution, with a stub template provider that answers every request with the declared
  transaction, and a bitcoind that is a parameter.
\<close>

section \<open>Fixtures\<close>

definition flow_tdp :: tdp_handle where
  "flow_tdp =
     record_new_template \<lparr>nt_template_id = 12345\<rparr>
       (record_set_new_prev_hash
          \<lparr>snph_template_id = 12345, snph_prev_hash = replicate 32 9, snph_header_timestamp = 1700000000,
           snph_n_bits = 0x207fffff\<rparr> tdp_new)"

definition flow_engine :: "engine_handles \<Rightarrow> engine" where
  "flow_engine h = with_tdp flow_tdp (engine_with_handles Regtest (h\<lparr>hnd_chain := mock_reader mock_new\<rparr>))"

abbreviation metered :: "engine_handles \<Rightarrow> engine" where
  "metered h \<equiv> with_metrics initial_metrics (flow_engine h)"

text \<open>
  The stub provider runs while the handler waits, at point 3 of both handlers.
\<close>

definition stub_provider :: "bytes \<Rightarrow> env" where
  "stub_provider body n e =
     (if n = 3
      then put_tdp (deliver_all (map (\<lambda>t. (t, TxSuccess [body])) (tx_request_sent (tdp_state e))) (tdp_state e)) e
      else e)"

definition flow_declare ::
  "externals \<Rightarrow> (transaction \<Rightarrow> bytes) \<Rightarrow> (transaction \<Rightarrow> wtxid) \<Rightarrow> engine \<Rightarrow> declare_result handled \<times> engine" where
  "flow_declare X ser wtxid e =
     handle_declare_mining_job X quiet (test_declare X ser 7 99 0x20000000 [wtxid fake_tx]) (Some (fake_pmts ser)) e"

definition flow_push ::
  "externals \<Rightarrow> (transaction \<Rightarrow> bytes) \<Rightarrow> (transaction \<Rightarrow> wtxid) \<Rightarrow> engine \<Rightarrow> engine" where
  "flow_push X ser wtxid e =
     snd (handle_push_solution X (stub_provider (ser fake_tx)) 0
       (solution (replicate 16 0xab) (replicate 32 9) 0xDEADBEEF 1700000000)
       (snd (flow_declare X ser wtxid e)))"

text \<open>
  The custom job of the fixture is computed from the cached declaration.
\<close>

definition matching_scmj :: "externals \<Rightarrow> declared_job \<Rightarrow> bytes \<Rightarrow> u32 \<Rightarrow> set_custom_mining_job option" where
  "matching_scmj X cached prev nbits =
     (case (reconstruct_coinbase X (job_coinbase_tx_prefix cached) (job_coinbase_tx_suffix cached), job_txid_list cached) of
        (Ok tx, Some txid_list) \<Rightarrow>
          Some (build_set_custom_mining_job 0x20000000 prev nbits (serialize_txouts X (tx_output tx))
            (merkle_path X (compute_txid X tx) txid_list))
      | _ \<Rightarrow> None)"

definition flow_scmj ::
  "externals \<Rightarrow> (transaction \<Rightarrow> bytes) \<Rightarrow> engine \<Rightarrow> bytes \<Rightarrow> u32 \<Rightarrow> (scmj_result handled \<times> engine) option" where
  "flow_scmj X ser e prev nbits =
     (case dm_get (declared_jobs e) 7 of
        None \<Rightarrow> None
      | Some cached \<Rightarrow>
          map_option (\<lambda>custom. handle_set_custom_mining_job X (stub_provider (ser fake_tx)) custom 99 e)
            (matching_scmj X cached prev nbits))"

definition scmj_validation_fixture ::
  "externals \<Rightarrow> (transaction \<Rightarrow> bytes) \<Rightarrow> (transaction \<Rightarrow> wtxid) \<Rightarrow> engine_handles \<Rightarrow>
     (scmj_result handled \<times> engine) option" where
  "scmj_validation_fixture X ser wtxid h =
     flow_scmj X ser (snd (flow_declare X ser wtxid (metered h))) (replicate 32 9) 0x207fffff"

section \<open>Solutions\<close>

definition push_solution_submits_block_via_tdp_and_bitcoind ::
  "externals \<Rightarrow> (transaction \<Rightarrow> bytes) \<Rightarrow> (transaction \<Rightarrow> wtxid) \<Rightarrow> engine_handles \<Rightarrow> bool" where
  "push_solution_submits_block_via_tdp_and_bitcoind X ser wtxid h \<longleftrightarrow>
     (let (r, e1) = flow_declare X ser wtxid (flow_engine h); e2 = flow_push X ser wtxid (flow_engine h)
      in r = Reply DeclareSuccess \<and>
         (case dm_get (declared_jobs e1) 7 of
            None \<Rightarrow> False
          | Some cached \<Rightarrow>
              job_template_id cached = Some 12345 \<and> tip_nbits (job_tip cached) = 0x207fffff \<and>
              tip_min_ntime (job_tip cached) = 1700000000 \<and> tip_prev_hash (job_tip cached) = replicate 32 9) \<and>
         (case submit_queue e2 of
            [blk] \<Rightarrow>
              length (txdata blk) = 2 \<and> hdr_nonce (blk_header blk) = 0xDEADBEEF \<and>
              hdr_time (blk_header blk) = 1700000000 \<and> hdr_bits (blk_header blk) = 0x207fffff \<and>
              prev_blockhash (blk_header blk) = replicate 32 9
          | _ \<Rightarrow> False) \<and>
         \<not> rs_is_empty (recent_sols e2))"

definition push_solution_increments_submit_failed_counter_on_bitcoind_error ::
  "externals \<Rightarrow> (transaction \<Rightarrow> bytes) \<Rightarrow> (transaction \<Rightarrow> wtxid) \<Rightarrow> engine_handles \<Rightarrow> bool" where
  "push_solution_increments_submit_failed_counter_on_bitcoind_error X ser wtxid h \<longleftrightarrow>
     (let e = run_submit (flow_push X ser wtxid (metered (h\<lparr>hnd_submit_block := (\<lambda>_. Inl ''simulated rpc failure'')\<rparr>)))
      in map_option blocks_submit_failed (metrics e) = Some 1 \<and> map_option blocks_submitted (metrics e) = Some 1)"

definition high_hash :: string where
  "high_hash = [CHR 0x22] @ ''high-hash'' @ [CHR 0x22]"

definition push_solution_increments_submit_failed_counter_on_bitcoind_rejection ::
  "externals \<Rightarrow> (transaction \<Rightarrow> bytes) \<Rightarrow> (transaction \<Rightarrow> wtxid) \<Rightarrow> engine_handles \<Rightarrow> bool" where
  "push_solution_increments_submit_failed_counter_on_bitcoind_rejection X ser wtxid h \<longleftrightarrow>
     (let e = flow_push X ser wtxid (metered (h\<lparr>hnd_submit_block := (\<lambda>_. Inr high_hash)\<rparr>))
      in length (submit_queue e) = 1 \<and> map_option blocks_submit_failed (metrics (run_submit e)) = Some 1)"

section \<open>Custom jobs\<close>

definition set_custom_mining_job_handles_less_skips_tip_checks ::
  "externals \<Rightarrow> (transaction \<Rightarrow> bytes) \<Rightarrow> (transaction \<Rightarrow> wtxid) \<Rightarrow> bool" where
  "set_custom_mining_job_handles_less_skips_tip_checks X ser wtxid \<longleftrightarrow>
     (let (r, e) = flow_declare X ser wtxid engine_default
      in r = Reply DeclareSuccess \<and>
         map_option fst (flow_scmj X ser e (replicate 32 0xab) 0x12345678) = Some (Reply ScmjSuccess))"

definition scmj_proposal_validation_accepted_falls_through_to_success ::
  "externals \<Rightarrow> (transaction \<Rightarrow> bytes) \<Rightarrow> (transaction \<Rightarrow> wtxid) \<Rightarrow> engine_handles \<Rightarrow> bool" where
  "scmj_proposal_validation_accepted_falls_through_to_success X ser wtxid h \<longleftrightarrow>
     (case scmj_validation_fixture X ser wtxid (h\<lparr>hnd_validate_block_proposal := (\<lambda>_. Inr Accepted)\<rparr>) of
        Some (Reply ScmjSuccess, e) \<Rightarrow>
          (case metrics e of
             None \<Rightarrow> False
           | Some m \<Rightarrow>
               set_custom_mining_job_accepted m = 1 \<and> set_custom_mining_job_rejected m = 0 \<and>
               proposal_rejected m ConsensusRejected = 0 \<and> proposal_rejected m ScmjRpcError = 0 \<and>
               set_custom_mining_job_validation_skipped m = 0 \<and> 1 \<le> set_custom_mining_job_validation_seconds m)
      | _ \<Rightarrow> False)"

definition scmj_proposal_validation_rejected_bumps_consensus_counter ::
  "externals \<Rightarrow> (transaction \<Rightarrow> bytes) \<Rightarrow> (transaction \<Rightarrow> wtxid) \<Rightarrow> engine_handles \<Rightarrow> bool" where
  "scmj_proposal_validation_rejected_bumps_consensus_counter X ser wtxid h \<longleftrightarrow>
     (case scmj_validation_fixture X ser wtxid
             (h\<lparr>hnd_validate_block_proposal := (\<lambda>_. Inr (Rejected ''bad-cb-amount''))\<rparr>) of
        Some (Reply (ScmjError _), e) \<Rightarrow>
          (case metrics e of
             None \<Rightarrow> False
           | Some m \<Rightarrow>
               set_custom_mining_job_accepted m = 0 \<and> set_custom_mining_job_rejected m = 1 \<and>
               proposal_rejected m ConsensusRejected = 1 \<and> proposal_rejected m ScmjRpcError = 0 \<and>
               1 \<le> set_custom_mining_job_validation_seconds m)
      | _ \<Rightarrow> False)"

definition scmj_proposal_validation_rpc_error_bumps_rpc_error_counter ::
  "externals \<Rightarrow> (transaction \<Rightarrow> bytes) \<Rightarrow> (transaction \<Rightarrow> wtxid) \<Rightarrow> engine_handles \<Rightarrow> string \<Rightarrow> bool" where
  "scmj_proposal_validation_rpc_error_bumps_rpc_error_counter X ser wtxid h unscripted \<longleftrightarrow>
     (case scmj_validation_fixture X ser wtxid (h\<lparr>hnd_validate_block_proposal := (\<lambda>_. Inl unscripted)\<rparr>) of
        Some (Reply (ScmjError _), e) \<Rightarrow>
          (case metrics e of
             None \<Rightarrow> False
           | Some m \<Rightarrow>
               set_custom_mining_job_rejected m = 1 \<and> proposal_rejected m ScmjRpcError = 1 \<and>
               proposal_rejected m ConsensusRejected = 0)
      | _ \<Rightarrow> False)"

section \<open>The declared job\<close>

definition flow_job :: "externals \<Rightarrow> (transaction \<Rightarrow> bytes) \<Rightarrow> (transaction \<Rightarrow> wtxid) \<Rightarrow> tip_metadata \<times> u64 option \<Rightarrow> declared_job" where
  "flow_job X ser wtxid tip =
     \<lparr>job_version = 0x20000000, job_coinbase_tx_prefix = fst (coinbase_parts X ser),
      job_coinbase_tx_suffix = snd (coinbase_parts X ser), job_wtxid_list = [wtxid fake_tx],
      job_txid_list = Some [compute_txid X fake_tx], job_tip = fst tip, job_template_id = snd tip,
      job_share_chain_tip = None, job_validated = True, job_allocated_token = Some 99\<rparr>"

definition flow_tip :: tip_metadata where
  "flow_tip = \<lparr>tip_prev_hash = replicate 32 9, tip_nbits = 0x207fffff, tip_min_ntime = 1700000000\<rparr>"

lemma flow_checks:
  assumes "codec_ok X ser wtxid"
  shows "declare_checks X (test_declare X ser 7 99 0x20000000 [wtxid fake_tx]) (Some (fake_pmts ser)) =
      Ok (99, [wtxid fake_tx])"
proof -
  have "length (wtxid fake_tx) = 32" using assms by (simp add: codec_ok_def)
  moreover have "(word_of_nat (le_nat (le_bytes8 99)) :: u64) = 99" by (simp add: le_bytes8_def)
  ultimately show ?thesis
    using parts_reconstruct(1) [OF assms]
    by (simp add: declare_checks_Ok_iff token_decodes) (simp add: build_coinbase_def)
qed

lemma flow_declared:
  assumes "codec_ok X ser wtxid" and "capture_share_chain_tip e = Ok None"
  shows "flow_declare X ser wtxid e =
    (Reply DeclareSuccess, bump (declare_counter DeclareSuccess)
       (insert_token 99 7 (insert_job 7 (flow_job X ser wtxid (capture_tip e)) e)))"
proof -
  have "parse_missing X (Some (fake_pmts ser)) = [fake_tx]"
    using assms(1) by (simp add: parse_missing_def fake_pmts_def codec_ok_def List.map_filter_def)
  then show ?thesis
    by (simp add: flow_declare_def handle_declare_mining_job_def flow_checks [OF assms(1)] assms(2) Let_def
        declare_return_def declared_snapshot_def flow_job_def)
qed

lemma flow_captures:
  "capture_share_chain_tip (flow_engine h) = Ok None" "capture_tip (flow_engine h) = (flow_tip, Some 12345)"
  "capture_share_chain_tip (metered h) = Ok None" "capture_tip (metered h) = (flow_tip, Some 12345)"
  "capture_share_chain_tip engine_default = Ok None" "capture_tip engine_default = (default_tip, None)"
  by (simp_all add: capture_share_chain_tip_def capture_tip_def flow_engine_def engine_default_simps mock_reader_def
      mock_new_def mock_with_network_def flow_tdp_def current_tip_def current_template_id_def record_new_template_def
      record_set_new_prev_hash_def to_array32_def flow_tip_def)

section \<open>Fetching its transaction\<close>

lemma flow_fetch:
  assumes "codec_ok X ser wtxid" and "tdp e = Some flow_tdp"
  shows "\<exists>h. engine_request_tx_bodies X (env_from 2 (stub_provider (ser fake_tx))) 12345 e = (Ok [fake_tx], put_tdp h e)"
proof -
  have dec: "decode_tx X (ser fake_tx) = Some fake_tx" using assms(1) by (simp add: codec_ok_def)
  have st: "tdp_state e = flow_tdp" using assms(2) by (simp add: tdp_state_def)
  show ?thesis
    by (simp add: engine_request_tx_bodies_def request_tx_bodies_def st env_from_def stub_provider_def
        put_tdp_twice decode_response_def dec flow_tdp_def record_new_template_def record_set_new_prev_hash_def race_simps)
      blast
qed

lemma flow_bodies: "check_bodies X [fake_tx] [compute_txid X fake_tx] = Ok ()"
  by (simp add: check_bodies_def)

section \<open>The solution tests hold\<close>

definition flow_block :: "externals \<Rightarrow> block" where
  "flow_block X =
     \<lparr>blk_header = solution_header (solution (replicate 16 0xab) (replicate 32 9) 0xDEADBEEF 1700000000) (replicate 32 9)
        (compute_merkle_root_from_txids X (compute_txid X (build_coinbase (replicate 16 0xab))) [compute_txid X fake_tx]),
      txdata = [build_coinbase (replicate 16 0xab), fake_tx]\<rparr>"

lemma flow_reconstruct:
  assumes "codec_ok X ser wtxid"
  shows "reconstruct_block X (flow_job X ser wtxid tip)
      (solution (replicate 16 0xab) (replicate 32 9) 0xDEADBEEF 1700000000) [fake_tx] = Ok (flow_block X)"
  using parts_reconstruct(2) [OF assms, of "replicate 16 0xab"]
  by (simp add: reconstruct_block_def flow_job_def flow_bodies solution_def to_array32_def flow_block_def Let_def)

lemma flow_push_result:
  assumes codec: "codec_ok X ser wtxid" and e0: "e0 \<in> {flow_engine h, metered h}"
  shows "\<exists>e. flow_push X ser wtxid e0 = push_submit (flow_block X) e \<and>
    handles e = Some (h\<lparr>hnd_chain := mock_reader mock_new\<rparr>) \<and> submit_queue e = [] \<and> rs_len (recent_sols e) = 1 \<and>
    metrics e = map_option (push_received \<circ> declare_counter DeclareSuccess) (metrics e0)"
proof -
  let ?e = "bump (declare_counter DeclareSuccess)
     (insert_token 99 7 (insert_job 7 (flow_job X ser wtxid (flow_tip, Some 12345)) e0))"
  let ?e1 = "bump push_received ?e"
  let ?ps = "solution (replicate 16 0xab) (replicate 32 9) 0xDEADBEEF 1700000000"
  have dec: "flow_declare X ser wtxid e0 = (Reply DeclareSuccess, ?e)"
    using e0 flow_captures(1-4) by (auto simp: flow_declared [OF codec])
  have jobs: "declared_jobs ?e1 = [(7, flow_job X ser wtxid (flow_tip, Some 12345))]" and tdp: "tdp ?e1 = Some flow_tdp"
    using e0 by (auto simp: flow_engine_def engine_default_simps dm_insert_def dm_empty_def)
  have find: "find_by_solution X (declared_jobs ?e1) (replicate 32 9) (ps_nbits ?ps) (ps_version ?ps) = Some 7"
    unfolding jobs using codec
    by (intro find_unique) (auto simp: codec_ok_def job_matches_def flow_job_def flow_tip_def solution_def dm_get_def)
  obtain hd where fetch: "engine_request_tx_bodies X (env_from 2 (stub_provider (ser fake_tx))) 12345 ?e1 =
      (Ok [fake_tx], put_tdp hd ?e1)"
    using flow_fetch [OF codec tdp] by blast
  have look: "push_lookup X (stub_provider (ser fake_tx)) ?ps (replicate 32 9) ?e1 =
      (Ok (flow_job X ser wtxid (flow_tip, Some 12345)), ?e1)"
    using find by (simp add: push_lookup_def stub_provider_def jobs_get_def jobs [simplified])
  let ?e2 = "record_solution 0 (synthetic_share_hash X ?ps) (header_hash X (blk_header (flow_block X))) (put_tdp hd ?e1)"
  have "flow_push X ser wtxid e0 = push_submit (flow_block X) ?e2"
    using tdp look fetch flow_reconstruct [OF codec, of "(flow_tip, Some 12345)"]
    by (simp add: flow_push_def dec handle_push_solution_def Let_def
        push_block_def to_array32_def) (simp add: solution_def flow_job_def push_block_def Let_def to_array32_def)
  moreover have "handles ?e2 = Some (h\<lparr>hnd_chain := mock_reader mock_new\<rparr>)" "submit_queue ?e2 = []"
    "rs_len (recent_sols ?e2) = 1"
    "metrics ?e2 = map_option (push_received \<circ> declare_counter DeclareSuccess) (metrics e0)"
    using e0 by (auto simp: flow_engine_def engine_default_simps rs_len_def rs_record_def rs_new_def dm_len_def
        dm_insert_def dm_empty_def Let_def)
  ultimately show ?thesis by blast
qed

lemma submits_block:
  assumes "codec_ok X ser wtxid"
  shows "push_solution_submits_block_via_tdp_and_bitcoind X ser wtxid h"
proof -
  obtain e where "flow_push X ser wtxid (flow_engine h) = push_submit (flow_block X) e" "handles e \<noteq> None"
    "submit_queue e = []" "rs_len (recent_sols e) = 1"
    using flow_push_result [OF assms, of "flow_engine h" h] by auto
  then show ?thesis
    by (simp add: push_solution_submits_block_via_tdp_and_bitcoind_def flow_declared [OF assms] flow_captures
        flow_job_def flow_tip_def flow_block_def solution_def solution_header_def rs_is_empty_def)
qed

lemma submit_failure_counted:
  assumes "codec_ok X ser wtxid"
  shows "push_solution_increments_submit_failed_counter_on_bitcoind_error X ser wtxid h"
    and "push_solution_increments_submit_failed_counter_on_bitcoind_rejection X ser wtxid h"
proof -
  have res: "\<exists>e. flow_push X ser wtxid (metered h') = push_submit (flow_block X) e \<and>
      handles e = Some (h'\<lparr>hnd_chain := mock_reader mock_new\<rparr>) \<and> submit_queue e = [] \<and>
      metrics e = Some (push_received (declare_counter DeclareSuccess initial_metrics))" for h'
    using flow_push_result [OF assms, of "metered h'" h'] by (auto simp: with_metrics_def)
  show "push_solution_increments_submit_failed_counter_on_bitcoind_error X ser wtxid h"
    using res [of "h\<lparr>hnd_submit_block := (\<lambda>_. Inl ''simulated rpc failure'')\<rparr>"]
    by (auto simp: push_solution_increments_submit_failed_counter_on_bitcoind_error_def run_submit_def submit_task_def
        submit_accepted_def push_submit_def initial_metrics_def zero_metrics_def push_received_def)
  show "push_solution_increments_submit_failed_counter_on_bitcoind_rejection X ser wtxid h"
    using res [of "h\<lparr>hnd_submit_block := (\<lambda>_. Inr high_hash)\<rparr>"]
    by (auto simp: push_solution_increments_submit_failed_counter_on_bitcoind_rejection_def run_submit_def submit_task_def
        submit_accepted_def push_submit_def initial_metrics_def zero_metrics_def push_received_def high_hash_def)
qed

section \<open>The custom-job tests hold\<close>

definition flow_custom :: "externals \<Rightarrow> bytes \<Rightarrow> u32 \<Rightarrow> set_custom_mining_job" where
  "flow_custom X prev nbits =
     build_set_custom_mining_job 0x20000000 prev nbits
       (serialize_txouts X (tx_output (build_coinbase (replicate 16 0)))) [compute_txid X fake_tx]"

lemma one_step_path: "merkle_path X cb [t] = [t]"
  by (simp add: merkle_path_def merkle_branch_loop.simps [of X "[cb, t]"] next_level_def
      div_ceil2_def merkle_branch_loop.simps [of X "[x]" for x])

lemma flow_matching:
  assumes "codec_ok X ser wtxid"
  shows "matching_scmj X (flow_job X ser wtxid tip) prev nbits = Some (flow_custom X prev nbits)"
  using parts_reconstruct(1) [OF assms]
  by (simp add: matching_scmj_def flow_job_def flow_custom_def one_step_path)

lemma flow_scmj_matches:
  assumes "codec_ok X ser wtxid" and "txid_width X"
    and "tip_was_captured (flow_job X ser wtxid tip) \<longrightarrow>
      prev = tip_prev_hash (fst tip) \<and> length prev = 32 \<and> nbits = tip_nbits (fst tip)"
  shows "scmj_matches X (flow_job X ser wtxid tip) (flow_custom X prev nbits)"
proof -
  have "reconstruct_coinbase X (job_coinbase_tx_prefix (flow_job X ser wtxid tip))
      (job_coinbase_tx_suffix (flow_job X ser wtxid tip)) = Ok (build_coinbase (replicate 16 0))"
    using parts_reconstruct(1) [OF assms(1)] by (simp add: flow_job_def)
  moreover have "coinbase_agrees X (flow_custom X prev nbits) (build_coinbase (replicate 16 0))"
    by (simp add: coinbase_agrees_def flow_custom_def build_set_custom_mining_job_def build_coinbase_def starts_with_def)
  moreover have "job_txid_list (flow_job X ser wtxid tip) = Some [compute_txid X fake_tx]"
    "scmj_version (flow_custom X prev nbits) = job_version (flow_job X ser wtxid tip)"
    "scmj_merkle_path (flow_custom X prev nbits) = [compute_txid X fake_tx]"
    "scmj_prev_hash (flow_custom X prev nbits) = prev" "scmj_nbits (flow_custom X prev nbits) = nbits"
    "job_tip (flow_job X ser wtxid tip) = fst tip"
    by (simp_all add: flow_job_def flow_custom_def build_set_custom_mining_job_def)
  ultimately show ?thesis
    using assms(2,3) by (auto simp: scmj_matches_def one_step_path txid_width_def)
qed

lemma flow_candidate:
  assumes "codec_ok X ser wtxid"
  shows "\<exists>cand. build_candidate_block X (flow_job X ser wtxid tip) (flow_custom X (replicate 32 9) nbits) [fake_tx] = Ok cand"
  using parts_reconstruct(1) [OF assms]
  by (simp add: build_candidate_block_def flow_job_def flow_bodies flow_custom_def build_set_custom_mining_job_def
      to_array32_def Let_def)

text \<open>
  What the handler does with the declared job, whatever bitcoind answers.
\<close>

lemma flow_scmj_result:
  assumes codec: "codec_ok X ser wtxid" and width: "txid_width X"
    and outcome: "\<And>cand. hnd_validate_block_proposal h cand = outcome"
  shows "\<exists>e. metrics e = Some (observe_validation (declare_counter DeclareSuccess initial_metrics)) \<and>
    scmj_validation_fixture X ser wtxid h = Some (scmj_finish (scmj_verdict outcome e))"
proof -
  let ?job = "flow_job X ser wtxid (flow_tip, Some 12345)"
  let ?env = "stub_provider (ser fake_tx)"
  let ?e = "bump (declare_counter DeclareSuccess) (insert_token 99 7 (insert_job 7 ?job (metered h)))"
  let ?e1 = "remove_job 7 (remove_token 99 ?e)"
  let ?custom = "flow_custom X (replicate 32 9) 0x207fffff"
  have dec: "flow_declare X ser wtxid (metered h) = (Reply DeclareSuccess, ?e)"
    using flow_captures(3,4) by (simp add: flow_declared [OF codec])
  have job: "dm_get (declared_jobs ?e) 7 = Some ?job" and tdp: "tdp ?e1 = Some flow_tdp"
    and hnd: "handles ?e1 = Some (h\<lparr>hnd_chain := mock_reader mock_new\<rparr>)"
    by (simp_all add: flow_engine_def engine_default_simps)
  have consume: "scmj_consume ?env 99 ?e = (Ok ?job, ?e1)"
    using job by (simp add: scmj_consume_def stub_provider_def jobs_remove_def) (simp add: flow_job_def)
  have checks: "scmj_cross_checks X ?job ?custom = Ok ()"
    unfolding scmj_cross_checks_Ok_iff by (rule flow_scmj_matches [OF codec width]) (simp add: flow_tip_def)
  obtain hd where fetch: "engine_request_tx_bodies X (env_from 2 ?env) 12345 ?e1 = (Ok [fake_tx], put_tdp hd ?e1)"
    using flow_fetch [OF codec tdp] by blast
  obtain cand where cand: "build_candidate_block X ?job ?custom [fake_tx] = Ok cand"
    using flow_candidate [OF codec] by blast
  let ?e2 = "bump observe_validation (put_tdp hd ?e1)"
  have proposal: "scmj_proposal X ?env ?job ?custom ?e1 = scmj_verdict outcome ?e2"
  proof -
    have "job_template_id ?job = Some 12345" by (simp add: flow_job_def)
    moreover have "?env 4 e = e" for e by (simp add: stub_provider_def)
    ultimately show ?thesis using tdp hnd fetch cand outcome by (simp add: scmj_proposal_def)
  qed
  have "scmj_validation_fixture X ser wtxid h = Some (scmj_finish (scmj_verdict outcome ?e2))"
    using job by (simp add: scmj_validation_fixture_def flow_scmj_def dec flow_matching [OF codec]
        handle_set_custom_mining_job_def consume checks proposal)
  moreover have "metrics ?e2 = Some (observe_validation (declare_counter DeclareSuccess initial_metrics))"
    by (simp add: with_metrics_def)
  ultimately show ?thesis by blast
qed

lemmas flow_counter_simps =
  scmj_finish_def scmj_verdict_def scmj_return_def initial_metrics_def zero_metrics_def observe_validation_def
  record_scmj_proposal_rejection_def all_reject_reasons_def with_label_values_def label_value_def inc_label_def
  dm_insert_def dm_get_def dm_empty_def

lemma scmj_validation_tests:
  assumes "codec_ok X ser wtxid" and "txid_width X"
  shows "scmj_proposal_validation_accepted_falls_through_to_success X ser wtxid h"
    and "scmj_proposal_validation_rejected_bumps_consensus_counter X ser wtxid h"
    and "scmj_proposal_validation_rpc_error_bumps_rpc_error_counter X ser wtxid h unscripted"
proof -
  have res: "\<exists>e. metrics e = Some (observe_validation (declare_counter DeclareSuccess initial_metrics)) \<and>
    scmj_validation_fixture X ser wtxid (h\<lparr>hnd_validate_block_proposal := (\<lambda>_. outcome)\<rparr>) =
      Some (scmj_finish (scmj_verdict outcome e))" for outcome
    by (rule flow_scmj_result [OF assms]) simp
  show "scmj_proposal_validation_accepted_falls_through_to_success X ser wtxid h"
    using res [of "Inr Accepted"]
    by (auto simp: scmj_proposal_validation_accepted_falls_through_to_success_def flow_counter_simps)
  show "scmj_proposal_validation_rejected_bumps_consensus_counter X ser wtxid h"
    using res [of "Inr (Rejected ''bad-cb-amount'')"]
    by (auto simp: scmj_proposal_validation_rejected_bumps_consensus_counter_def flow_counter_simps)
  show "scmj_proposal_validation_rpc_error_bumps_rpc_error_counter X ser wtxid h unscripted"
    using res [of "Inl unscripted"]
    by (auto simp: scmj_proposal_validation_rpc_error_bumps_rpc_error_counter_def flow_counter_simps)
qed

lemma scmj_without_handles:
  assumes "codec_ok X ser wtxid" and "txid_width X"
  shows "set_custom_mining_job_handles_less_skips_tip_checks X ser wtxid"
proof -
  let ?job = "flow_job X ser wtxid (default_tip, None)"
  let ?e = "bump (declare_counter DeclareSuccess) (insert_token 99 7 (insert_job 7 ?job engine_default))"
  let ?custom = "flow_custom X (replicate 32 0xab) 0x12345678"
  have dec: "flow_declare X ser wtxid engine_default = (Reply DeclareSuccess, ?e)"
    by (simp add: flow_declared [OF assms(1)] flow_captures)
  have job: "dm_get (declared_jobs ?e) 7 = Some ?job" by simp
  have "scmj_matches X ?job ?custom"
    by (rule flow_scmj_matches [OF assms]) (simp add: tip_was_captured_def flow_job_def default_tip_def)
  moreover have "dm_get (allocated_tokens ?e) 99 = Some 7" by simp
  moreover have "job_validated ?job" by (simp add: flow_job_def)
  ultimately have "fst (handle_set_custom_mining_job X (stub_provider (ser fake_tx)) ?custom 99 ?e) = Reply ScmjSuccess"
    unfolding scmj_success_iff_aux
    by (auto simp: stub_provider_def proposal_passes_def engine_default_simps)
  then show ?thesis
    using dec job
    by (simp add: set_custom_mining_job_handles_less_skips_tip_checks_def flow_scmj_def flow_matching [OF assms(1)])
      (metis prod.collapse)
qed

end
