(* ===== verification/Chain_Tests.thy ===== *)
theory Chain_Tests
  imports Engine_Flow_Tests Ipc_Actor Pool_Runtime
begin

text \<open>
  The tests of the share-chain service: the client's round trips of
  \<open>crates/sv2-p2pool-ipc/src/lib.rs\<close> and the backend, actor and bootstrap tests of
  \<open>crates/sv2-p2pool-pool/src/share_chain.rs\<close>. The server side of the socket is third-party code, the
  parameter \<open>S\<close>: what the tests rely on is that it answers for its \<open>ChainReadBackend\<close> with the encodings
  of the schema (\<open>answers_for\<close>). The store of the in-process tests is the parameter \<open>w\<close>.
\<close>

section \<open>Fixtures\<close>

record fake_backend =
  fb_tip :: "bytes option"
  fb_height :: "u32 option"
  fb_network :: network
  fb_headers :: "bytes \<rightharpoonup> bytes"

datatype share_header_outcome = OutcomeGenesis | OutcomeFound bytes | OutcomeNotFound

definition fb_get_share_header :: "fake_backend \<Rightarrow> bytes \<Rightarrow> share_header_outcome" where
  "fb_get_share_header b share_hash =
     (if is_zero_hash share_hash then OutcomeGenesis
      else case fb_headers b share_hash of Some prev \<Rightarrow> OutcomeFound prev | None \<Rightarrow> OutcomeNotFound)"

fun wire_of_network :: "network \<Rightarrow> wire_network" where
  "wire_of_network Bitcoin = WireMainnet"
| "wire_of_network Testnet = WireTestnet"
| "wire_of_network Testnet4 = WireTestnet4"
| "wire_of_network Regtest = WireRegtest"
| "wire_of_network Signet = WireSignet"

fun wire_of_outcome :: "share_header_outcome \<Rightarrow> wire_share_header" where
  "wire_of_outcome OutcomeGenesis = WireGenesis"
| "wire_of_outcome (OutcomeFound prev) = WireFound (Inr prev)"
| "wire_of_outcome OutcomeNotFound = WireNotFound"

text \<open>
  What the tests rely on of the server.
\<close>

definition answers_for :: "rpc_server \<Rightarrow> fake_backend \<Rightarrow> bool" where
  "answers_for S b \<longleftrightarrow>
     rpc_connect S = Inr () \<and> rpc_subscribe_chain_tip S = Inr () \<and>
     rpc_get_chain_tip S = Which (case fb_tip b of Some t \<Rightarrow> WireTip (Inr t) | None \<Rightarrow> WireTipUninit) \<and>
     (\<forall>h. rpc_get_share_header S h = Which (wire_of_outcome (fb_get_share_header b h))) \<and>
     rpc_get_tip_height S = Which (case fb_height b of Some n \<Rightarrow> WireHeight n | None \<Rightarrow> WireHeightUninit) \<and>
     rpc_get_network S = Which (wire_of_network (fb_network b))"

definition hash_ending :: "byte \<Rightarrow> bytes" where
  "hash_ending b = replicate 31 0 @ [b]"

definition empty_backend :: fake_backend where
  "empty_backend = \<lparr>fb_tip = None, fb_height = None, fb_network = Regtest, fb_headers = Map.empty\<rparr>"

definition tip_backend :: "bytes \<Rightarrow> u32 \<Rightarrow> fake_backend" where
  "tip_backend tip height = empty_backend\<lparr>fb_tip := Some tip, fb_height := Some height\<rparr>"

definition header_backend :: fake_backend where
  "header_backend = empty_backend\<lparr>fb_headers := [hash_ending 0x11 \<mapsto> hash_ending 0x22]\<rparr>"

section \<open>The client\<close>

definition get_chain_tip_round_trip_via_uds :: "rpc_server \<Rightarrow> string \<Rightarrow> bool" where
  "get_chain_tip_round_trip_via_uds S sock \<longleftrightarrow>
     ipc_connect S sock = Ok () \<and> ipc_get_chain_tip S = Ok (Tip (hash_ending 0xab)) \<and>
     ipc_get_tip_height S = Ok (Height 7) \<and> ipc_get_network S = Ok Regtest"

definition get_chain_tip_uninitialised_when_no_genesis :: "rpc_server \<Rightarrow> string \<Rightarrow> bool" where
  "get_chain_tip_uninitialised_when_no_genesis S sock \<longleftrightarrow>
     ipc_connect S sock = Ok () \<and> ipc_get_chain_tip S = Ok TipUninitialised \<and>
     ipc_get_tip_height S = Ok HeightUninitialised"

definition get_share_header_three_variants_round_trip :: "rpc_server \<Rightarrow> string \<Rightarrow> bool" where
  "get_share_header_three_variants_round_trip S sock \<longleftrightarrow>
     ipc_connect S sock = Ok () \<and>
     ipc_get_share_header S (hash_ending 0x11) = Ok (Found \<lparr>prev_share_blockhash = Some (hash_ending 0x22)\<rparr>) \<and>
     ipc_get_share_header S (replicate 32 0) = Ok Genesis \<and>
     ipc_get_share_header S (0x99 # replicate 31 0) = Ok NotFound"

text \<open>
  A server without backend answers the chain reads with an \<open>unimplemented\<close> error.
\<close>

definition get_chain_tip_unimplemented_without_backend :: "rpc_server \<Rightarrow> string \<Rightarrow> bool" where
  "get_chain_tip_unimplemented_without_backend S sock \<longleftrightarrow>
     ipc_connect S sock = Ok () \<and> (case ipc_get_chain_tip S of Err _ \<Rightarrow> True | _ \<Rightarrow> False)"

definition subscribe_chain_tip_fans_out_via_uds_round_trip :: "rpc_server \<Rightarrow> string \<Rightarrow> bool" where
  "subscribe_chain_tip_fans_out_via_uds_round_trip S sock \<longleftrightarrow>
     ipc_connect S sock = Ok () \<and> ipc_subscribe_chain_tip S = Ok () \<and>
     (let (_, received) = callback_on_new_tip (\<lambda>bs received. received @ [bs]) (Inr (hash_ending 0xaa)) []
      in hash_ending 0xaa \<in> set received)"

section \<open>The IPC backend\<close>

definition ipc_chain_round_trips_get_chain_tip :: "spawn_results \<Rightarrow> rpc_server \<Rightarrow> string \<Rightarrow> bool" where
  "ipc_chain_round_trips_get_chain_tip T S sock \<longleftrightarrow>
     (case ipc_chain_connect T S sock of
        Ok (net, _) \<Rightarrow>
          (let chain = ipc_chain LinkUp S net
           in rd_network chain = Regtest \<and> rd_get_chain_tip chain = Ok (Some (hash_ending 0xab)) \<and>
              rd_get_tip_height chain = Ok (Some 7))
      | _ \<Rightarrow> False)"

definition ipc_chain_get_share_header_genesis_sentinel :: "spawn_results \<Rightarrow> rpc_server \<Rightarrow> string \<Rightarrow> bool" where
  "ipc_chain_get_share_header_genesis_sentinel T S sock \<longleftrightarrow>
     (case ipc_chain_connect T S sock of
        Ok (net, _) \<Rightarrow>
          (let chain = ipc_chain LinkUp S net
           in rd_get_share_header chain all_zeros = Ok Genesis \<and>
              rd_get_share_header chain (replicate 32 99) = Ok NotFound)
      | _ \<Rightarrow> False)"

definition ipc_chain_subscribe_tip_drives_snapshot :: "spawn_results \<Rightarrow> rpc_server \<Rightarrow> string \<Rightarrow> bool" where
  "ipc_chain_subscribe_tip_drives_snapshot T S sock \<longleftrightarrow>
     (case ipc_chain_connect T S sock of
        Ok (_, a) \<Rightarrow>
          (let a' = on_tip_push (hash_ending 0xaa) a
           in subscribed a \<and> load_tip (snapshot a') = Some (hash_ending 0xaa) \<and> tip_broadcast a' = [hash_ending 0xaa])
      | _ \<Rightarrow> False)"

text \<open>
  \<open>connect\<close> returns, the test takes a receiver and drops the chain; the actor then ends on its own and
  its watchdog flips the signal.
\<close>

definition dropped_chain :: "rpc_server \<Rightarrow> actor_sys" where
  "dropped_chain S = (sys_connected S)\<lparr>connecting := False, watch_receivers := 1, handle_open := False\<rparr>"

definition ipc_chain_actor_thread_death_flips_shutdown_signal :: "rpc_server \<Rightarrow> bool" where
  "ipc_chain_actor_thread_death_flips_shutdown_signal S \<longleftrightarrow>
     \<not> watch_value (sys_connected S) \<and> \<not> watch_value (dropped_chain S) \<and>
     (let s = watchdog_fires (actor_ends (dropped_chain S)) in watch_value s \<and> 0 < watch_receivers s)"

definition ipc_chain_connect_fails_on_unreachable_socket :: "spawn_results \<Rightarrow> rpc_server \<Rightarrow> string \<Rightarrow> bool" where
  "ipc_chain_connect_fails_on_unreachable_socket T S sock \<longleftrightarrow>
     (case ipc_chain_connect T S sock of Err _ \<Rightarrow> True | _ \<Rightarrow> False)"

section \<open>Bootstrap\<close>

definition make_test_config :: "string \<Rightarrow> p2pool_config" where
  "make_test_config store_path = \<lparr>p2p_network = Signet, p2p_ipc_socket = None, p2p_store_path = store_path\<rparr>"

definition make_test_config_with_ipc :: "string \<Rightarrow> string \<Rightarrow> p2pool_config" where
  "make_test_config_with_ipc socket store_path =
     \<lparr>p2p_network = Regtest, p2p_ipc_socket = Some socket, p2p_store_path = store_path\<rparr>"

definition bootstrap_share_chain_in_process_path :: "outside \<Rightarrow> string \<Rightarrow> bool" where
  "bootstrap_share_chain_in_process_path w path \<longleftrightarrow>
     (case bootstrap_share_chain w (make_test_config path) of
        Ok h \<Rightarrow>
          rd_network (hnd_chain (sch_engine_handles h)) = Signet \<and> sch_chain_store h \<noteq> None \<and> sch_store_open h \<and>
          sch_ipc_tip_snapshot h = None \<and> sch_ipc_shutdown_signal h = None
      | _ \<Rightarrow> False)"

definition bootstrap_share_chain_ipc_path :: "outside \<Rightarrow> string \<Rightarrow> string \<Rightarrow> bool" where
  "bootstrap_share_chain_ipc_path w sock path \<longleftrightarrow>
     (case bootstrap_share_chain w (make_test_config_with_ipc sock path) of
        Ok h \<Rightarrow>
          rd_network (hnd_chain (sch_engine_handles h)) = Regtest \<and> sch_chain_store h = None \<and> \<not> sch_store_open h \<and>
          sch_ipc_tip_snapshot h \<noteq> None \<and> sch_ipc_shutdown_signal h \<noteq> None \<and>
          rd_get_chain_tip (hnd_chain (sch_engine_handles h)) = Ok (Some (hash_ending 0x42))
      | _ \<Rightarrow> False)"

definition bootstrap_share_chain_builds_engine_handles :: "outside \<Rightarrow> string \<Rightarrow> bool" where
  "bootstrap_share_chain_builds_engine_handles w path \<longleftrightarrow>
     (case bootstrap_share_chain w (make_test_config path) of
        Ok h \<Rightarrow> rd_network (hnd_chain (sch_engine_handles h)) = Signet \<and> sch_store_open h
      | _ \<Rightarrow> False)"

section \<open>The engine over a bootstrapped chain\<close>

definition booted_engine :: "outside \<Rightarrow> string \<Rightarrow> engine option" where
  "booted_engine w path =
     (case bootstrap_share_chain w (make_test_config path) of
        Ok h \<Rightarrow> Some (engine_with_handles Signet (sch_engine_handles h))
      | _ \<Rightarrow> None)"

definition chain_tip_of :: "engine \<Rightarrow> block_hash option" where
  "chain_tip_of e =
     (case handles e of
        Some h \<Rightarrow> (case rd_get_chain_tip (hnd_chain h) of Ok t \<Rightarrow> t | _ \<Rightarrow> None)
      | None \<Rightarrow> None)"

definition declare_mining_job_captures_share_chain_tip ::
  "externals \<Rightarrow> (transaction \<Rightarrow> bytes) \<Rightarrow> (transaction \<Rightarrow> wtxid) \<Rightarrow> outside \<Rightarrow> string \<Rightarrow> bool" where
  "declare_mining_job_captures_share_chain_tip X ser wtxid w path \<longleftrightarrow>
     (case booted_engine w path of
        None \<Rightarrow> False
      | Some e \<Rightarrow>
          (let (r, e1) = handle_declare_mining_job X quiet (test_declare X ser 1 99 0x20000000 [wtxid fake_tx])
                 (Some \<lparr>pmts_request_id = 1, pmts_transaction_list = [ser fake_tx]\<rparr>) e
           in r = Reply DeclareSuccess \<and> chain_tip_of e \<noteq> None \<and>
              map_option job_share_chain_tip (dm_get (declared_jobs e1) 1) = Some (chain_tip_of e)))"

definition captured_job :: "block_hash option \<Rightarrow> declared_job" where
  "captured_job tip = (dummy_job 1)\<lparr>job_share_chain_tip := tip, job_validated := True\<rparr>"

definition notify_share_chain_reorg_selective_invalidation :: "outside \<Rightarrow> string \<Rightarrow> bool" where
  "notify_share_chain_reorg_selective_invalidation w path \<longleftrightarrow>
     (case booted_engine w path of
        None \<Rightarrow> False
      | Some e0 \<Rightarrow>
          (case chain_tip_of e0 of
             None \<Rightarrow> False
           | Some genesis_tip \<Rightarrow>
               (let e = insert_job 3 (captured_job None)
                      (insert_job 2 (captured_job (Some (replicate 32 99)))
                        (insert_job 1 (captured_job (Some genesis_tip)) e0));
                    (_, e') = notify_share_chain_reorg quiet genesis_tip e
                in jobs_len (declared_jobs e) = 3 \<and> jobs_len (declared_jobs e') = 1 \<and>
                   jobs_get (declared_jobs e') 1 \<noteq> None \<and> jobs_get (declared_jobs e') 2 = None \<and>
                   jobs_get (declared_jobs e') 3 = None)))"

text \<open>
  Six polls of an unchanged tip, then the watcher is stopped.
\<close>

definition engine_reorg_watcher_polls_chain_handle :: "outside \<Rightarrow> string \<Rightarrow> bool" where
  "engine_reorg_watcher_polls_chain_handle w path \<longleftrightarrow>
     (case booted_engine w path of
        None \<Rightarrow> False
      | Some e \<Rightarrow>
          (let (e', sent) = watcher_run (replicate 6 (chain_tip_of e)) e
           in sent = [] \<and> jobs_is_empty (declared_jobs e') \<and> reorg_watcher (stop_reorg_watcher e') = None))"

section \<open>The client tests hold\<close>

lemma zero_fills [simp]:
  "is_zero_hash (replicate n b) \<longleftrightarrow> n = 0 \<or> b = 0" "is_zero_hash (xs @ ys) \<longleftrightarrow> is_zero_hash xs \<and> is_zero_hash ys"
  by (auto simp: is_zero_hash_def list_all_iff)

lemma hash_ending_simps [simp]:
  "length (hash_ending b) = 32" "is_zero_hash (hash_ending b) \<longleftrightarrow> b = 0"
  "hash_ending b = replicate 32 0 \<longleftrightarrow> b = 0" "replicate 32 0 = hash_ending b \<longleftrightarrow> b = 0"
  "c # bs = hash_ending b \<longleftrightarrow> c = 0 \<and> bs = replicate 30 0 @ [b]"
proof -
  show "length (hash_ending b) = 32" "is_zero_hash (hash_ending b) \<longleftrightarrow> b = 0"
    by (simp_all add: hash_ending_def) (simp add: is_zero_hash_def)
  have "replicate 32 0 = replicate 31 (0 :: byte) @ [0]" 
    using replicate_append_same [of 31 "0 :: byte"] replicate_Suc [of 31 "0 :: byte"] by simp
  then show "hash_ending b = replicate 32 0 \<longleftrightarrow> b = 0" "replicate 32 0 = hash_ending b \<longleftrightarrow> b = 0"
    by (auto simp: hash_ending_def)
  have "replicate 31 (0 :: byte) = 0 # replicate 30 0" using replicate_Suc [of 30 "0 :: byte"] by simp
  then show "c # bs = hash_ending b \<longleftrightarrow> c = 0 \<and> bs = replicate 30 0 @ [b]" by (auto simp: hash_ending_def)
qed

lemmas ipc_call_simps =
  answers_for_def ipc_connect_def ipc_get_chain_tip_def ipc_get_tip_height_def ipc_get_network_def
  ipc_get_share_header_def ipc_subscribe_chain_tip_def decode_block_hash_def

lemma client_tests:
  "answers_for S (tip_backend (hash_ending 0xab) 7) \<Longrightarrow> get_chain_tip_round_trip_via_uds S sock"
  "answers_for S empty_backend \<Longrightarrow> get_chain_tip_uninitialised_when_no_genesis S sock"
  "answers_for S b \<Longrightarrow> subscribe_chain_tip_fans_out_via_uds_round_trip S sock"
  "rpc_connect S = Inr () \<Longrightarrow> rpc_get_chain_tip S = CapnpError ''unimplemented'' \<Longrightarrow>
     get_chain_tip_unimplemented_without_backend S sock"
  by (simp_all add: get_chain_tip_round_trip_via_uds_def get_chain_tip_uninitialised_when_no_genesis_def
      subscribe_chain_tip_fans_out_via_uds_round_trip_def get_chain_tip_unimplemented_without_backend_def
      callback_on_new_tip_def ipc_call_simps tip_backend_def empty_backend_def)

lemma header_variants:
  assumes "answers_for S header_backend"
  shows "get_share_header_three_variants_round_trip S sock"
proof -
  have "fb_get_share_header header_backend (hash_ending 0x11) = OutcomeFound (hash_ending 0x22)"
    "fb_get_share_header header_backend (replicate 32 0) = OutcomeGenesis"
    "fb_get_share_header header_backend (0x99 # replicate 31 0) = OutcomeNotFound"
    by (simp_all add: fb_get_share_header_def header_backend_def empty_backend_def) (simp add: is_zero_hash_def)
  with assms show ?thesis
    by (simp add: get_share_header_three_variants_round_trip_def ipc_call_simps)
qed

section \<open>The backend tests hold\<close>

definition spawns :: "spawn_results \<Rightarrow> bool" where
  "spawns T \<longleftrightarrow>
     spawn_actor T = Inr () \<and> spawn_watchdog T = Inr () \<and> join_init T = Inr () \<and> build_runtime T = Inr ()"

lemma connects:
  assumes "spawns T" and "answers_for S b"
  shows "ipc_chain_connect T S sock =
    Ok (fb_network b, init_subscribe S (init_height S (init_tip S actor_new)))"
  using assms
  by (cases "fb_network b")
    (simp_all add: spawns_def answers_for_def ipc_chain_connect_def actor_thread_main_def actor_main_init_def
      ipc_connect_def ipc_get_network_def)

lemma init_fields:
  "tip_broadcast (init_tip S a) = tip_broadcast a" "tip_broadcast (init_height S a) = tip_broadcast a"
  "tip_broadcast (init_subscribe S a) = tip_broadcast a"
  by (simp_all add: init_tip_def init_height_def init_subscribe_def
      split: result.splits chain_tip_result.splits tip_height_result.splits)

lemmas ipc_reader_simps =
  ipc_chain_def ipcchain_get_chain_tip_def ipcchain_get_tip_height_def ipcchain_get_share_header_def actor_call_def

lemma backend_tests:
  assumes "spawns T"
  shows "answers_for S (tip_backend (hash_ending 0xab) 7) \<Longrightarrow> ipc_chain_round_trips_get_chain_tip T S sock"
    and "answers_for S empty_backend \<Longrightarrow> ipc_chain_get_share_header_genesis_sentinel T S sock"
    and "answers_for S empty_backend \<Longrightarrow> ipc_chain_subscribe_tip_drives_snapshot T S sock"
    and "rpc_connect S = Inl e \<Longrightarrow> ipc_chain_connect_fails_on_unreachable_socket T S sock"
proof -
  show "ipc_chain_round_trips_get_chain_tip T S sock" if "answers_for S (tip_backend (hash_ending 0xab) 7)"
    using that
    by (simp add: ipc_chain_round_trips_get_chain_tip_def connects [OF assms that] ipc_reader_simps)
      (simp add: ipc_call_simps tip_backend_def empty_backend_def)
  show "ipc_chain_get_share_header_genesis_sentinel T S sock" if "answers_for S empty_backend"
    using that
    by (simp add: ipc_chain_get_share_header_genesis_sentinel_def connects [OF assms that] ipc_reader_simps)
      (simp add: ipc_call_simps empty_backend_def fb_get_share_header_def all_zeros_def)
  show "ipc_chain_subscribe_tip_drives_snapshot T S sock" if "answers_for S empty_backend"
  proof -
    let ?a = "init_subscribe S (init_height S (init_tip S actor_new))"
    have "subscribed ?a" using that by (simp add: init_subscribe_def ipc_subscribe_chain_tip_def answers_for_def)
    moreover have "tip_broadcast ?a = []" by (simp add: init_fields actor_new_def)
    ultimately show ?thesis
      by (simp add: ipc_chain_subscribe_tip_drives_snapshot_def connects [OF assms that] on_tip_push_facts Let_def)
  qed
  show "ipc_chain_connect_fails_on_unreachable_socket T S sock" if "rpc_connect S = Inl e"
    using assms that
    by (simp add: ipc_chain_connect_fails_on_unreachable_socket_def spawns_def ipc_chain_connect_def
        actor_thread_main_def actor_main_init_def ipc_connect_def)
qed

text \<open>
  The run of the shutdown test is one of the actor's.
\<close>

lemma shutdown_test:
  "ipc_chain_actor_thread_death_flips_shutdown_signal S"
  "actor_step\<^sup>*\<^sup>* (sys_connected S) (watchdog_fires (actor_ends (dropped_chain S)))"
proof -
  show "ipc_chain_actor_thread_death_flips_shutdown_signal S"
    by (simp add: ipc_chain_actor_thread_death_flips_shutdown_signal_def dropped_chain_def sys_connected_def
        watchdog_fires_def actor_ends_def)
  let ?s1 = "(sys_connected S)\<lparr>connecting := False, watch_receivers := 0\<rparr>"
  let ?s2 = "(sys_connected S)\<lparr>connecting := False, watch_receivers := 1\<rparr>"
  have "actor_step (sys_connected S) ?s1"
    using connect_returns [of "sys_connected S"] by (simp add: sys_connected_def)
  moreover have "actor_step ?s1 ?s2"
    using subscribe_shutdown [of ?s1] by (simp add: sys_connected_def)
  moreover have "actor_step ?s2 (dropped_chain S)"
    using handle_dropped [of ?s2] by (simp add: sys_connected_def dropped_chain_def)
  moreover have "actor_step (dropped_chain S) (actor_ends (dropped_chain S))"
    by (rule loop_ends) (simp_all add: dropped_chain_def sys_connected_def)
  moreover have "actor_step (actor_ends (dropped_chain S)) (watchdog_fires (actor_ends (dropped_chain S)))"
    by (rule watchdog) (simp_all add: dropped_chain_def sys_connected_def actor_ends_def)
  ultimately show "actor_step\<^sup>*\<^sup>* (sys_connected S) (watchdog_fires (actor_ends (dropped_chain S)))"
    by (meson converse_rtranclp_into_rtranclp rtranclp.rtrancl_refl)
qed

section \<open>The bootstrap tests hold\<close>

text \<open>
  The outside world of the in-process tests: the store opens and its genesis is initialised, so the
  tip is the genesis share, whose header names no parent, and no other share is known.
\<close>

definition fresh_store :: "outside \<Rightarrow> string \<Rightarrow> block_hash \<Rightarrow> bool" where
  "fresh_store w path genesis \<longleftrightarrow>
     (\<exists>btc. out_bitcoind w = Inr btc) \<and> out_build_genesis w Signet = Inr () \<and> out_init_genesis w = Inr () \<and>
     length genesis = 32 \<and> \<not> is_zero_hash genesis \<and> genesis \<noteq> replicate 32 99 \<and>
     (\<exists>cs. out_open_store w path = Inr cs \<and> cs_get_chain_tip cs = Inr genesis \<and>
        cs_get_share_header cs genesis = Inr all_zeros)"

lemma boots:
  assumes "fresh_store w path genesis"
  shows "\<exists>h. bootstrap_share_chain w (make_test_config path) = Ok h \<and>
    rd_network (hnd_chain (sch_engine_handles h)) = Signet \<and> sch_chain_store h \<noteq> None \<and> sch_store_open h \<and>
    sch_ipc_tip_snapshot h = None \<and> sch_ipc_shutdown_signal h = None \<and>
    rd_get_chain_tip (hnd_chain (sch_engine_handles h)) = Ok (Some genesis) \<and>
    rd_get_share_header (hnd_chain (sch_engine_handles h)) genesis = Ok (Found \<lparr>prev_share_blockhash = None\<rparr>)"
  using assms
  by (auto simp: fresh_store_def bootstrap_share_chain_def make_test_config_def bootstrap_in_process_def Let_def
      in_process_chain_def inproc_get_chain_tip_def inproc_get_share_header_def all_zeros_def)

lemma bootstrap_tests:
  "fresh_store w path genesis \<Longrightarrow> bootstrap_share_chain_in_process_path w path"
  "fresh_store w path genesis \<Longrightarrow> bootstrap_share_chain_builds_engine_handles w path"
  using boots [of w path genesis]
  by (auto simp: bootstrap_share_chain_in_process_path_def bootstrap_share_chain_builds_engine_handles_def)

lemma bootstrap_ipc_test:
  assumes "spawns (out_spawn w)" and "answers_for (out_server w) (tip_backend (hash_ending 0x42) 11)"
    and "out_link w = LinkUp" and "out_bitcoind w = Inr btc"
  shows "bootstrap_share_chain_ipc_path w sock path"
proof -
  have "ipcchain_get_chain_tip LinkUp (out_server w) = Ok (Some (hash_ending 0x42))"
    using assms(2) by (simp add: ipc_reader_simps ipc_call_simps tip_backend_def)
  then show ?thesis
    using assms(3,4) connects [OF assms(1,2), of sock]
    by (simp add: bootstrap_share_chain_ipc_path_def bootstrap_share_chain_def make_test_config_with_ipc_def
        bootstrap_ipc_def ipc_chain_def tip_backend_def empty_backend_def)
qed

section \<open>The engine tests hold\<close>

lemma booted:
  assumes "fresh_store w path genesis"
  shows "\<exists>e h. booted_engine w path = Some e \<and> e = engine_with_handles Signet h \<and> chain_tip_of e = Some genesis \<and>
    rd_get_chain_tip (hnd_chain h) = Ok (Some genesis) \<and>
    rd_get_share_header (hnd_chain h) genesis = Ok (Found \<lparr>prev_share_blockhash = None\<rparr>)"
proof -
  obtain h where "bootstrap_share_chain w (make_test_config path) = Ok h"
    "rd_get_chain_tip (hnd_chain (sch_engine_handles h)) = Ok (Some genesis)"
    "rd_get_share_header (hnd_chain (sch_engine_handles h)) genesis = Ok (Found \<lparr>prev_share_blockhash = None\<rparr>)"
    using boots [OF assms] by blast
  then show ?thesis by (simp add: booted_engine_def chain_tip_of_def engine_default_simps)
qed

lemma captures_test:
  assumes "codec_ok X ser wtxid" and "fresh_store w path genesis"
  shows "declare_mining_job_captures_share_chain_tip X ser wtxid w path"
proof -
  obtain e h where e: "booted_engine w path = Some e" "e = engine_with_handles Signet h" "chain_tip_of e = Some genesis"
    "rd_get_chain_tip (hnd_chain h) = Ok (Some genesis)"
    using booted [OF assms(2)] by blast
  have cap: "capture_share_chain_tip e = Ok (Some genesis)"
    using e by (simp add: capture_share_chain_tip_def engine_default_simps)
  have checks: "declare_checks X (test_declare X ser 1 99 0x20000000 [wtxid fake_tx])
      (Some \<lparr>pmts_request_id = 1, pmts_transaction_list = [ser fake_tx]\<rparr>) = Ok (99, [wtxid fake_tx])"
    using flow_checks [OF assms(1)]
    by (auto simp: declare_checks_Ok_iff test_declare_def build_declare_mining_job_def fake_pmts_def decode_token_def
        split: if_splits)
  have "parse_missing X (Some \<lparr>pmts_request_id = 1, pmts_transaction_list = [ser fake_tx]\<rparr>) = [fake_tx]"
    using assms(1) by (simp add: parse_missing_def codec_ok_def List.map_filter_def)
  moreover have "dmj_request_id (test_declare X ser 1 99 0x20000000 [wtxid fake_tx]) = 1"
    by (simp add: test_declare_def build_declare_mining_job_def)
  ultimately show ?thesis
    using e(1,3) cap
    by (simp add: declare_mining_job_captures_share_chain_tip_def handle_declare_mining_job_def checks Let_def
        declare_return_def declared_snapshot_def)
qed

lemma selective_test:
  assumes "fresh_store w path genesis"
  shows "notify_share_chain_reorg_selective_invalidation w path"
proof -
  obtain e h where e: "booted_engine w path = Some e" "e = engine_with_handles Signet h" "chain_tip_of e = Some genesis"
    "rd_get_share_header (hnd_chain h) genesis = Ok (Found \<lparr>prev_share_blockhash = None\<rparr>)"
    using booted [OF assms] by blast
  have other: "genesis \<noteq> replicate 32 99" using assms by (simp add: fresh_store_def)
  have "ancestry_walk (rd_get_share_header (hnd_chain h)) (Suc n) genesis [genesis] = Walked [genesis]" for n
    using e(4) by simp
  from this [of 99] have walk: "ancestry_walk (rd_get_share_header (hnd_chain h)) 100 genesis [genesis] = Walked [genesis]"
    by simp
  show ?thesis
    using e(1-3) walk other
    by (simp add: notify_share_chain_reorg_selective_invalidation_def notify_share_chain_reorg_def Let_def
        reorg_ancestry_depth_def engine_default_simps retain_on_chain_def jobs_retain_def tip_on_chain_def
        captured_job_def jobs_len_def jobs_get_def insert_job_def jobs_insert_def dm_insert_def dm_len_def
        dm_empty_def dm_get_def dm_retain_def)
qed

lemma poll_test:
  assumes "fresh_store w path genesis"
  shows "engine_reorg_watcher_polls_chain_handle w path"
proof -
  obtain e h where e: "booted_engine w path = Some e" "e = engine_with_handles Signet h" "chain_tip_of e = Some genesis"
    using booted [OF assms] by blast
  have "run_script (replicate 6 (Some genesis)) 6 =
      (Some genesis, \<lparr>det_period = default_poll_period_secs, det_sent = []\<rparr>)"
    by (simp add: ticks_observed) (simp add: numeral_eq_Suc poll_once_def)
  then show ?thesis
    using e by (simp add: engine_reorg_watcher_polls_chain_handle_def watcher_run_def drain_near
        detector_subscribe_def start_reorg_watcher_def stop_reorg_watcher_def spawn_task_def abort_task_def
        engine_default_simps Let_def jobs_is_empty_def dm_len_def dm_empty_def)
qed

end
