(* ===== verification/Service_Tests.thy ===== *)
theory Service_Tests
  imports Chain_Tests Testenv_Scrape Testenv_Harness Testenv_Sv2
begin

text \<open>
  Tests that reach a real server, file or process: the configuration fixtures of \<open>share_chain.rs\<close> as
  the files they write, the wait for a server socket, the template and solution calls of the IPC
  client, and the tests of the test environment. What they rely on of third-party code (the loader of
  the configuration, the daemon behind the socket, \<open>bitcoind\<close>) are named hypotheses.
\<close>

section \<open>Configuration files of the fixtures\<close>

definition network_items :: "toml_item list" where
  "network_items =
     [Blank, Table ''network'', Str ''listen_address'' ''/ip4/127.0.0.1/tcp/0'', Raw ''dial_peers'' ''[]'',
      Raw ''max_pending_incoming'' ''10'', Raw ''max_pending_outgoing'' ''10'',
      Raw ''max_established_incoming'' ''50'', Raw ''max_established_outgoing'' ''50'',
      Raw ''max_established_per_peer'' ''1'', Raw ''max_workbase_per_second'' ''10'',
      Raw ''max_userworkbase_per_second'' ''10'', Raw ''max_miningshare_per_second'' ''100'',
      Raw ''max_inventory_per_second'' ''100'', Raw ''max_transaction_per_second'' ''100'',
      Raw ''max_requests_per_second'' ''100'', Raw ''dial_timeout_secs'' ''30'']"

definition stratum_items :: "string \<Rightarrow> toml_item list" where
  "stratum_items net =
     [Blank, Table ''stratum'', Str ''hostname'' ''127.0.0.1'', Raw ''port'' ''0'', Raw ''start_difficulty'' ''10000'',
      Raw ''minimum_difficulty'' ''100'', Str ''solo_address'' ''tb1qyazxde6558qj6z3d9np5e6msmrspwpf6k0qggk'',
      Str ''bootstrap_address'' ''tb1qyazxde6558qj6z3d9np5e6msmrspwpf6k0qggk'',
      Str ''zmqpubhashblock'' ''tcp://127.0.0.1:0'', Str ''network'' net, Str ''version_mask'' ''1fffe000'',
      Raw ''difficulty_multiplier'' ''1.0'', Str ''pool_signature'' ''sv2-p2pool-test'']"

definition rpc_items :: "path \<Rightarrow> toml_item list" where
  "rpc_items stats =
     [Blank, Table ''bitcoinrpc'', Str ''url'' ''http://127.0.0.1:18443'', Str ''username'' ''rpc'',
      Str ''password'' ''rpc'', Blank, Table ''logging'', Raw ''console'' ''true'', Str ''level'' ''info'',
      Str ''stats_dir'' (path_display stats), Blank, Table ''api'', Str ''hostname'' ''127.0.0.1'', Raw ''port'' ''0'']"

definition test_config_items :: "string \<Rightarrow> path option \<Rightarrow> path \<Rightarrow> path \<Rightarrow> toml_item list" where
  "test_config_items net socket store stats =
     network_items @ [Blank, Table ''store'', Str ''path'' (path_display store)] @ stratum_items net @ rpc_items stats @
     (case socket of None \<Rightarrow> [] | Some p \<Rightarrow> [Blank, Table ''ipc'', Str ''socket_path'' (path_display p)])"

text \<open>
  The fixtures: every failure is a panic, and the temporary directory is removed when one happens after
  it was created. \<open>load\<close> is \<open>P2poolConfig::load\<close> on the text of the file.
\<close>

definition expected :: "('e, 'a) io \<Rightarrow> (unit, 'a) io" where
  "expected m w = (case m w of (Ok a, w') \<Rightarrow> (Ok a, w') | (_, w') \<Rightarrow> (Panic, w'))"

fun create_all :: "path list \<Rightarrow> (string, unit) io" where
  "create_all [] = io_return ()"
| "create_all (p # ps) = io_bind (create_dir_all id p) (\<lambda>_. create_all ps)"

definition write_test_config ::
  "(string \<Rightarrow> string + p2pool_config) \<Rightarrow> string \<Rightarrow> path option \<Rightarrow> string list \<Rightarrow> (unit, p2pool_config \<times> path) io" where
  "write_test_config load net socket subdirs =
     expected (with_tempdir id (\<lambda>dir.
       io_bind (create_all (map (path_join dir) subdirs)) (\<lambda>_.
         let text = render (test_config_items net socket (path_join dir ''store.db'') (path_join dir ''stats''))
         in io_bind (write_file id (path_join dir ''p2pool.toml'') text) (\<lambda>_.
            io_bind (io_lift (sum_result id (load text))) (\<lambda>config. io_return (config, dir))))))"

definition test_config_fixture :: "(string \<Rightarrow> string + p2pool_config) \<Rightarrow> (unit, p2pool_config \<times> path) io" where
  "test_config_fixture load = write_test_config load ''signet'' None [''logs'', ''stats'']"

definition test_config_with_ipc_fixture ::
  "(string \<Rightarrow> string + p2pool_config) \<Rightarrow> path \<Rightarrow> (unit, p2pool_config \<times> path) io" where
  "test_config_with_ipc_fixture load socket = write_test_config load ''regtest'' (Some socket) [''stats'']"

text \<open>
  What the fixtures rely on of the loader: a file with all of their keys loads, and the network, the
  store path and the optional socket are those of the file.
\<close>

definition network_named :: "string \<Rightarrow> network option" where
  "network_named s = map_of [(''signet'', Signet), (''regtest'', Regtest)] s"

fun keys_in :: "string \<Rightarrow> toml_item list \<Rightarrow> (string \<times> string) list" where
  "keys_in cur [] = []"
| "keys_in cur (Blank # is) = keys_in cur is"
| "keys_in cur (Table u # is) = keys_in u is"
| "keys_in cur (ArrayTable u # is) = keys_in u is"
| "keys_in cur (Str k v # is) = (cur, k) # keys_in cur is"
| "keys_in cur (Raw k v # is) = (cur, k) # keys_in cur is"

definition loads_files :: "(string \<Rightarrow> string + p2pool_config) \<Rightarrow> bool" where
  "loads_files load \<longleftrightarrow>
     (\<forall>text items net n p. parse_toml text = Some items \<and>
        set (keys_in [] (test_config_items [] None (path_of []) (path_of []))) \<subseteq> set (keys_in [] items) \<and>
        config_value text ''stratum'' ''network'' = Some net \<and> network_named net = Some n \<and>
        config_value text ''store'' ''path'' = Some p \<longrightarrow>
        load text = Inr \<lparr>p2p_network = n, p2p_ipc_socket = config_value text ''ipc'' ''socket_path'', p2p_store_path = p\<rparr>)"

section \<open>Waiting for the server socket\<close>

text \<open>
  Whether poll \<open>n\<close> finds the socket, how long it takes and by how much the sleep after it overshoots 20 ms are
  functions of \<open>n\<close>. Giving up is a panic.
\<close>

record socket_wait =
  sw_now :: nat
  sw_polls :: nat

definition socket_probe :: "(nat \<Rightarrow> bool) \<Rightarrow> (nat \<Rightarrow> nat) \<Rightarrow> socket_wait \<Rightarrow> unit option \<times> socket_wait" where
  "socket_probe there took w =
     (if there (sw_polls w) then Some () else None, w\<lparr>sw_now := sw_now w + took (sw_polls w), sw_polls := Suc (sw_polls w)\<rparr>)"

definition socket_nap :: "(nat \<Rightarrow> nat) \<Rightarrow> socket_wait \<Rightarrow> socket_wait" where
  "socket_nap late w = w\<lparr>sw_now := sw_now w + 20 + late (sw_polls w)\<rparr>"

definition wait_for_socket ::
  "(nat \<Rightarrow> bool) \<Rightarrow> (nat \<Rightarrow> nat) \<Rightarrow> (nat \<Rightarrow> nat) \<Rightarrow> nat \<Rightarrow> socket_wait \<Rightarrow> ((unit, unit) result \<times> socket_wait) option" where
  "wait_for_socket there took late timeout w =
     (case deadline_after (sw_now w) timeout of
        None \<Rightarrow> Some (Panic, w)
      | Some deadline \<Rightarrow>
          (case poll_loop (socket_probe there took) sw_now (socket_nap late) deadline w of
             None \<Rightarrow> None
           | Some (Some _, w') \<Rightarrow> Some (Ok (), w')
           | Some (None, w') \<Rightarrow> Some (Panic, w')))"

interpretation socket: polling "socket_probe there took" sw_now "socket_nap late" 20
    "\<lambda>l w. \<forall>n. took n \<le> l \<and> late n \<le> l" "\<lambda>l. l" "\<lambda>l. 20 + l" for there took late
  by unfold_locales (auto simp: socket_probe_def socket_nap_def)

text \<open>
  The wait returns; it succeeds only after a poll that found the socket, at the first poll if it is
  there already, and panics only once the timeout has passed. The deadline must be representable.
\<close>

lemma wait_for_socket_outcome:
  "sw_now w + timeout < instant_end \<Longrightarrow>
   \<exists>r w'. wait_for_socket there took late timeout w = Some (r, w') \<and>
     (r = Ok () \<longrightarrow> (\<exists>n. there n)) \<and> (there (sw_polls w) \<longrightarrow> r = Ok ()) \<and>
     (r = Panic \<longrightarrow> sw_now w + timeout \<le> sw_now w') \<and> r \<noteq> Err ()"
proof -
  assume fits: "sw_now w + timeout < instant_end"
  obtain a w' where run: "poll_loop (socket_probe there took) sw_now (socket_nap late) (sw_now w + timeout) w = Some (a, w')"
    using socket.returns by blast
  show ?thesis
  proof (cases a)
    case None
    with run have "sw_now w + timeout \<le> sw_now w'" using socket.gives_up_late by blast
    moreover have "\<not> there (sw_polls w)"
      using run None poll_loop_hit [of "socket_probe there took" w "()"] by (auto simp: socket_probe_def)
    ultimately show ?thesis using run None fits by (simp add: wait_for_socket_def deadline_after_def)
  next
    case (Some u)
    with run obtain v where "socket_probe there took v = (Some u, w')" using socket.result_from_probe by blast
    then have "there (sw_polls v)" by (simp add: socket_probe_def split: if_splits)
    with run Some fits show ?thesis by (auto simp: wait_for_socket_def deadline_after_def)
  qed
qed

section \<open>The fixtures load what the tests start from\<close>

lemma network_named_simps [simp]: "network_named ''signet'' = Some Signet" "network_named ''regtest'' = Some Regtest"
  by (simp_all add: network_named_def)

lemmas test_item_defs = test_config_items_def network_items_def stratum_items_def rpc_items_def

lemma test_config_wf:
  assumes "plain net" and "plain (path_display store)" and "plain (path_display stats)" and "plain_dir socket"
  shows "list_all wf_item (test_config_items net socket store stats)"
  using assms by (auto simp: test_item_defs toml_wf_simps plain_dir_def split: option.splits)

lemma test_config_values:
  "toml_get [] (test_config_items net socket store stats) ''stratum'' ''network'' = Some net"
  "toml_get [] (test_config_items net socket store stats) ''store'' ''path'' = Some (path_display store)"
  "toml_get [] (test_config_items net socket store stats) ''ipc'' ''socket_path'' = map_option path_display socket"
  by (auto simp: test_item_defs split: option.splits)

lemma test_config_keys:
  "set (keys_in [] (test_config_items [] None a b)) \<subseteq> set (keys_in [] (test_config_items net socket c d))"
  by (auto simp: test_item_defs split: option.splits)

lemma loads_filesD:
  assumes "loads_files load" and "parse_toml text = Some items"
    and "set (keys_in [] (test_config_items [] None (path_of []) (path_of []))) \<subseteq> set (keys_in [] items)"
    and "config_value text ''stratum'' ''network'' = Some net" and "network_named net = Some n"
    and "config_value text ''store'' ''path'' = Some p"
  shows "load text = Inr \<lparr>p2p_network = n, p2p_ipc_socket = config_value text ''ipc'' ''socket_path'', p2p_store_path = p\<rparr>"
  using assms unfolding loads_files_def by blast

lemma test_config_loads:
  assumes "loads_files load" and "plain net" and "network_named net = Some n" and "plain_dir socket"
    and "plain (path_display store)" and "plain (path_display stats)"
  shows "load (render (test_config_items net socket store stats)) =
    Inr \<lparr>p2p_network = n, p2p_ipc_socket = map_option path_display socket, p2p_store_path = path_display store\<rparr>"
proof -
  note wf = test_config_wf [OF assms(2,5,6,4)]
  have "load (render (test_config_items net socket store stats)) = Inr \<lparr>p2p_network = n,
      p2p_ipc_socket = config_value (render (test_config_items net socket store stats)) ''ipc'' ''socket_path'',
      p2p_store_path = path_display store\<rparr>"
    by (rule loads_filesD [OF assms(1) parse_render [OF wf] test_config_keys _ assms(3)])
      (simp_all add: config_value_render [OF wf] test_config_values)
  then show ?thesis by (simp add: config_value_render [OF wf] test_config_values)
qed

lemma create_all_ok:
  "(\<And>n. failure (host w) n = None) \<Longrightarrow> \<exists>w'. create_all ps w = (Ok (), w') \<and> host w' = host w"
proof (induction ps arbitrary: w)
  case (Cons p ps)
  obtain v where v: "create_dir_all id p w = (Ok (), v)" "host v = host w"
    using Cons.prems by (simp add: create_dir_all_def os_call_def)
  with Cons.IH [of v] Cons.prems show ?case by (auto simp: io_bind_def)
qed (simp add: io_return_def)

text \<open>
  On a host where no call fails and the temporary directory needs no escaping, the fixtures yield the
  configurations the bootstrap tests start from, so the file without an \<open>[ipc]\<close> table takes the
  in-process path and the file with one the IPC path to that socket.
\<close>

lemma fixture_config:
  assumes "\<And>n. failure (host w) n = None" and "plain (path_display (tempdir_given (host w) (calls w)))"
    and "loads_files load" and "plain net" and "network_named net = Some n" and "plain_dir socket"
  shows "\<exists>dir w'. write_test_config load net socket subdirs w =
    (Ok (\<lparr>p2p_network = n, p2p_ipc_socket = map_option path_display socket,
          p2p_store_path = path_display (path_join dir ''store.db'')\<rparr>, dir), w')"
proof -
  let ?dir = "tempdir_given (host w) (calls w)"
  let ?text = "render (test_config_items net socket (path_join ?dir ''store.db'') (path_join ?dir ''stats''))"
  obtain w1 where w1: "tempdir id w = (Ok ?dir, w1)" "host w1 = host w"
    using assms(1) by (simp add: tempdir_def os_call_def Let_def)
  obtain w2 where w2: "create_all (map (path_join ?dir) subdirs) w1 = (Ok (), w2)" "host w2 = host w"
    using create_all_ok [of w1 "map (path_join ?dir) subdirs"] assms(1) w1(2) by auto
  obtain w3 where w3: "write_file id (path_join ?dir ''p2pool.toml'') ?text w2 = (Ok (), w3)"
    using assms(1) w2(2) by (simp add: write_file_def os_call_def)
  have "plain (path_display (path_join ?dir ''store.db''))" "plain (path_display (path_join ?dir ''stats''))"
    using assms(2) by (auto intro!: plain_join simp: plain_literal_simps)
  from test_config_loads [OF assms(3-6) this] show ?thesis
    by (simp add: write_test_config_def expected_def with_tempdir_def io_bind_def w1 w2 w3 on_error_def io_lift_def
        io_return_def Let_def)
qed

lemma fixtures_load:
  assumes "\<And>n. failure (host w) n = None" and "plain (path_display (tempdir_given (host w) (calls w)))"
    and "loads_files load" and "plain (path_display socket)"
  shows "\<exists>dir w'. test_config_fixture load w = (Ok (make_test_config (path_display (path_join dir ''store.db'')), dir), w')"
    and "\<exists>dir w'. test_config_with_ipc_fixture load socket w =
      (Ok (make_test_config_with_ipc (path_display socket) (path_display (path_join dir ''store.db'')), dir), w')"
  using fixture_config [OF assms(1,2,3), of "''signet''" Signet None] fixture_config [OF assms(1,2,3), of "''regtest''" Regtest "Some socket"]
    assms(4)
  by (simp_all add: test_config_fixture_def test_config_with_ipc_fixture_def make_test_config_def
      make_test_config_with_ipc_def plain_dir_def plain_literal_simps)

section \<open>Template and solution calls of the client\<close>

definition ascii :: "string \<Rightarrow> bytes" where
  "ascii s = map of_char s"

definition validate_template_rejects_unparseable_coinbase_via_uds :: "rpc_server \<Rightarrow> string \<Rightarrow> bool" where
  "validate_template_rejects_unparseable_coinbase_via_uds S sock \<longleftrightarrow>
     ipc_connect S sock = Ok () \<and>
     (case ipc_validate_template S (ascii ''prefix'') (ascii ''suffix'') [] [] of
        Ok (InvalidCoinbase reason) \<Rightarrow> sublist ''did not parse'' reason
      | _ \<Rightarrow> False)"

definition real_coinbase :: transaction where
  "real_coinbase =
     \<lparr>tx_version = 2, lock_time = 0,
      tx_input = [\<lparr>previous_output = \<lparr>op_txid = all_zeros, op_vout = 4294967295\<rparr>,
                  script_sig = replicate 16 0, sequence = 4294967295, witness = []\<rparr>],
      tx_output = [\<lparr>txo_value = 5000000000, script_pubkey = []\<rparr>]\<rparr>"

definition validate_template_accepts_real_coinbase_via_uds :: "(transaction \<Rightarrow> bytes) \<Rightarrow> rpc_server \<Rightarrow> string \<Rightarrow> bool" where
  "validate_template_accepts_real_coinbase_via_uds ser S sock \<longleftrightarrow>
     (let serialized = ser real_coinbase; split = length serialized div 2
      in ipc_connect S sock = Ok () \<and>
         ipc_validate_template S (take split serialized) (drop split serialized) [] [] = Ok ValidationOk)"

definition solution_block :: block where
  "solution_block =
     \<lparr>blk_header = \<lparr>hdr_version = 1, prev_blockhash = all_zeros, merkle_root = all_zeros, hdr_time = 1700000000,
                   hdr_bits = 0x207fffff, hdr_nonce = 42\<rparr>,
      txdata = []\<rparr>"

definition submit_solution_accepts_when_share_hash_matches_block_hash ::
  "externals \<Rightarrow> (block \<Rightarrow> bytes) \<Rightarrow> rpc_server \<Rightarrow> string \<Rightarrow> bool" where
  "submit_solution_accepts_when_share_hash_matches_block_hash X ser S sock \<longleftrightarrow>
     (let raw = ser solution_block; block_hash = header_hash X (blk_header solution_block);
          bad_share = block_hash[0 := xor (block_hash ! 0) 0xff]
      in ipc_connect S sock = Ok () \<and>
         ipc_submit_solution S raw block_hash = Ok True \<and>
         ipc_submit_solution S raw bad_share = Ok False \<and>
         ipc_submit_solution S (ascii ''definitely not a block'') block_hash = Ok False)"

text \<open>
  What the tests say of the daemon: a template is accepted when its two parts are a transaction, and
  rejected with a reason otherwise; a solution is accepted when the raw block decodes and has the
  claimed hash.
\<close>

definition checks_templates :: "externals \<Rightarrow> rpc_server \<Rightarrow> bool" where
  "checks_templates X S \<longleftrightarrow>
     rpc_connect S = Inr () \<and>
     (\<exists>t reason. rpc_utf8 S t = Inr reason \<and> sublist ''did not parse'' reason \<and>
        (\<forall>p s. rpc_validate_template S p s [] [] =
           (case decode_tx X (p @ s) of None \<Rightarrow> Which (WireInvalidCoinbase (Inr t)) | Some _ \<Rightarrow> Which WireOk)))"

definition checks_solutions :: "externals \<Rightarrow> (bytes \<Rightarrow> block option) \<Rightarrow> rpc_server \<Rightarrow> bool" where
  "checks_solutions X de S \<longleftrightarrow>
     rpc_connect S = Inr () \<and>
     (\<forall>raw h. rpc_submit_solution S raw h =
        Inr (case de raw of None \<Rightarrow> False | Some b \<Rightarrow> header_hash X (blk_header b) = h))"

lemma template_tests:
  assumes "checks_templates X S"
  shows "decode_tx X (ascii ''prefixsuffix'') = None \<Longrightarrow> validate_template_rejects_unparseable_coinbase_via_uds S sock"
    and "decode_tx X (ser real_coinbase) = Some real_coinbase \<Longrightarrow> validate_template_accepts_real_coinbase_via_uds ser S sock"
proof -
  obtain t reason where S: "rpc_connect S = Inr ()" "rpc_utf8 S t = Inr reason" "sublist ''did not parse'' reason"
    "\<And>p s. rpc_validate_template S p s [] [] =
      (case decode_tx X (p @ s) of None \<Rightarrow> Which (WireInvalidCoinbase (Inr t)) | Some _ \<Rightarrow> Which WireOk)"
    using assms unfolding checks_templates_def by blast
  note call_simps = ipc_connect_def ipc_validate_template_def decode_validation_result_def text_to_string_def S
  show "validate_template_rejects_unparseable_coinbase_via_uds S sock" if "decode_tx X (ascii ''prefixsuffix'') = None"
    using that by (simp add: validate_template_rejects_unparseable_coinbase_via_uds_def call_simps ascii_def)
  show "validate_template_accepts_real_coinbase_via_uds ser S sock" if "decode_tx X (ser real_coinbase) = Some real_coinbase"
    using that by (simp add: validate_template_accepts_real_coinbase_via_uds_def call_simps Let_def)
qed

lemma flip_mask: "(0xff :: byte) \<noteq> 0"
  by simp

lemma flipped_byte: "h \<noteq> [] \<Longrightarrow> h[0 := xor (h ! 0) (0xff :: byte)] \<noteq> h"
proof -
  assume "h \<noteq> []"
  moreover have "xor b 0xff \<noteq> b" for b :: byte
    by (metis xor.assoc xor_self_eq xor.left_neutral flip_mask)
  ultimately show ?thesis by (cases h) auto
qed

lemma solution_test:
  assumes "checks_solutions X de S" and "de (ser solution_block) = Some solution_block"
    and "de (ascii ''definitely not a block'') = None" and "header_hash X (blk_header solution_block) \<noteq> []"
  shows "submit_solution_accepts_when_share_hash_matches_block_hash X ser S sock"
  using assms flipped_byte [OF assms(4)]
  by (auto simp: submit_solution_accepts_when_share_hash_matches_block_hash_def checks_solutions_def ipc_connect_def
      ipc_submit_solution_def Let_def)

section \<open>The test environment\<close>

definition stub_lines :: "string list" where
  "stub_lines =
     [''# HELP sv2_p2pool_engine_declare_mining_job_accepted_total Successful DeclareMiningJob exchanges'',
      ''# TYPE sv2_p2pool_engine_declare_mining_job_accepted_total counter'',
      ''sv2_p2pool_engine_declare_mining_job_accepted_total 7'',
      ''sv2_p2pool_engine_blocks_submitted_total 0'']"

definition stub_body :: string where
  "stub_body = unlines stub_lines"

definition stub_response :: string where
  "stub_response = ''HTTP/1.1 200 OK'' @ crlf @ ''Content-Length: '' @ digits (length stub_body) @ crlf @
     ''Connection: close'' @ crlf @ crlf @ stub_body"

definition scrape_metric_value_parses_unlabeled_counter_lines :: "(string \<Rightarrow> string) \<Rightarrow> bool" where
  "scrape_metric_value_parses_unlabeled_counter_lines lossy \<longleftrightarrow>
     (let body_only = (case split_nth1 (crlf @ crlf) (lossy stub_response) of Some b \<Rightarrow> b | None \<Rightarrow> []);
          lookup = (\<lambda>name. scan_metric name (str_lines body_only))
      in lookup ''sv2_p2pool_engine_declare_mining_job_accepted_total'' = Some 7 \<and>
         lookup ''sv2_p2pool_engine_blocks_submitted_total'' = Some 0 \<and>
         lookup ''sv2_p2pool_engine_does_not_exist'' = None)"

definition which_compat_returns_none_for_missing_binary :: "host \<Rightarrow> bool" where
  "which_compat_returns_none_for_missing_binary h \<longleftrightarrow>
     which_compat h ''definitely-not-a-real-binary-12345-xyz-zzz'' = None"

lemma which_compat_iff:
  "which_compat h name = None \<longleftrightarrow>
     (\<forall>v. env_var h ''PATH'' = Some v \<longrightarrow> (\<forall>d \<in> set (split_paths v). \<not> is_file h (path_join d name)))"
  by (cases "env_var h ''PATH''") (auto simp: which_compat_def find_None_iff)

text \<open>
  The smoke test of the harness. \<open>generate k\<close> answers the \<open>k\<close>-th request to mine; a failed \<open>expect\<close> or
  assertion is a panic.
\<close>

definition smoke_bitcoind_boots_mines_reorgs ::
  "(string + string) \<Rightarrow> (string \<Rightarrow> node_conf \<Rightarrow> string + bitcoind) \<Rightarrow> string + string \<Rightarrow>
   (nat \<Rightarrow> nat \<Rightarrow> string \<Rightarrow> string + string list) \<Rightarrow> (nat \<Rightarrow> string) \<Rightarrow> (nat \<Rightarrow> string + int) \<Rightarrow> (nat \<Rightarrow> nat) \<Rightarrow> (nat \<Rightarrow> nat) \<Rightarrow>
   (string \<Rightarrow> string + unit) \<Rightarrow> os \<Rightarrow> (unit, unit) result option" where
  "smoke_bitcoind_boots_mines_reorgs exe_path with_conf new_address generate fmt info took late invalidateblock w =
     (case test_env_new exe_path with_conf w of
        (Ok _, _) \<Rightarrow>
          (case mine_blocks new_address (generate 0) 101 of
             Ok hashes \<Rightarrow>
               if length hashes \<noteq> 101 then Some Panic
               else (case wait_until_height fmt info took late 101 5000 of
                  None \<Rightarrow> None
                | Some (Ok _, _) \<Rightarrow>
                    (case invalidate_block invalidateblock (last hashes) of
                       Ok _ \<Rightarrow>
                         (case mine_blocks new_address (generate 1) 2 of
                            Ok new_hashes \<Rightarrow>
                              if new_hashes \<noteq> [] \<and> last new_hashes = last hashes then Some Panic else Some (Ok ())
                          | _ \<Rightarrow> Some Panic)
                     | _ \<Rightarrow> Some Panic)
                | _ \<Rightarrow> Some Panic)
           | _ \<Rightarrow> Some Panic)
      | _ \<Rightarrow> Some Panic)"

lemma scrape_test: "lossy stub_response = stub_response \<Longrightarrow> scrape_metric_value_parses_unlabeled_counter_lines lossy"
proof -
  let ?head = "[''HTTP/1.1 200 OK'', ''Content-Length: '' @ digits (length stub_body), ''Connection: close'']"
  assume lossy: "lossy stub_response = stub_response"
  have one_line: "\<forall>l \<in> set stub_lines. nl \<notin> set l \<and> cr \<notin> set l" by (simp add: stub_lines_def)
  then have "cr \<notin> set stub_body" by (auto simp: stub_body_def unlines_def)
  moreover have "stub_response = sep_join crlf ?head @ crlf @ crlf @ stub_body" by (simp add: stub_response_def)
  moreover have "split_once (crlf @ crlf) (sep_join crlf ?head @ crlf @ crlf @ stub_body) = Some (sep_join crlf ?head, stub_body)"
    by (intro split_once_head) (simp_all add: digits_no_cr)
  ultimately have body: "split_nth1 (crlf @ crlf) stub_response = Some stub_body"
    by (simp add: split_nth1_def split_once_None)
  have "str_lines stub_body = stub_lines" using str_lines_unlines [OF one_line] by (simp add: stub_body_def)
  with body lossy show ?thesis
    by (simp add: scrape_metric_value_parses_unlabeled_counter_lines_def stub_lines_def rsplit_once_def parse_u64_def
        digits_value_def is_digit_def)
qed

text \<open>
  Because mined hashes come back byte-reversed, the smoke test cannot pass against a node that knows
  only its own blocks: it asks to invalidate a block that does not exist.
\<close>

lemma smoke_test_panics:
  assumes "new_address = Inr addr" and "generate 0 101 addr = Inr (map display_hash hs)" and "length hs = 101"
    and "\<forall>h \<in> set hs. length h = 32" and "rev (last hs) \<notin> known" and "\<forall>h \<in> known. length h = 32"
    and "\<And>t. t \<notin> display_hash ` known \<Longrightarrow> \<exists>e. invalidateblock t = Inl e"
  shows "smoke_bitcoind_boots_mines_reorgs exe_path with_conf new_address generate fmt info took late invalidateblock w =
    Some Panic"
proof -
  have mined: "mine_blocks new_address (generate 0) 101 = Ok (map rev hs)"
    using assms(1,2,4) collect_results_map [of hs parse_hash_hex display_hash rev] parse_display
    by (simp add: mine_blocks_def)
  have "hs \<noteq> []" using assms(3) by auto
  then have last: "last (map rev hs) = rev (last hs)" by (simp add: last_map)
  have "display_hash (rev (last hs)) \<notin> display_hash ` known"
  proof
    assume "display_hash (rev (last hs)) \<in> display_hash ` known"
    then obtain k where "k \<in> known" "display_hash (rev (last hs)) = display_hash k" by blast
    then have "rev (last hs) = k" using hex_byte_inject by (fastforce simp: display_hash_def)
    with \<open>k \<in> known\<close> assms(5) show False by simp
  qed
  with assms(7) obtain e where "invalidateblock (display_hash (rev (last hs))) = Inl e" by blast
  then have refused: "invalidate_block invalidateblock (rev (last hs)) = Err (Rpc e)" by (simp add: invalidate_block_def)
  obtain r t where "wait_until_height fmt info took late 101 5000 = Some (r, t)"
    using wait_until_height_outcome by blast
  then show ?thesis
    using mined assms(3) last refused
    by (auto simp: smoke_bitcoind_boots_mines_reorgs_def split: prod.splits result.splits)
qed

end
