(* ===== verification/Spec2Isabelle.thy ===== *)
theory Spec2Isabelle
  imports Block_Recon Metrics Recent_Solutions Reorg_Detector Share_Chain_Reader Tdp_System Engine_Push
    Engine_Token Engine_Reorg Tdp_Demux Ipc_Actor Metrics_Endpoint Pool_Runtime Pool_Start
    Engine_System Engine_Spec Testenv_Stack Testenv_Scrape Testenv_Harness
    Tdp_Pipeline Tip_Subscriptions Engine_Pipeline Component_Tests Pool_Tests Service_Tests
begin

text \<open>
  A verification development for \<open>sv2-p2pool\<close>: a Stratum V2 job-declaration server whose validation
  engine is backed by a p2pool share chain. Paths below are relative to \<open>src/crates\<close>.

  \<^bold>\<open>The program.\<close> A job-declaration client (JDC) allocates a token, declares a mining job with a coinbase
  split around an extranonce and a transaction list, turns it into a custom job, and pushes the
  solution when a miner finds a block. \<open>P2poolV2Engine\<close> (\<open>sv2-p2pool-engine\<close>) checks each of these
  messages, keeps the declared jobs, fetches transaction bodies from the template provider over the
  \<open>TdpHandle\<close> bridge, reassembles the block, hands it to bitcoind and buffers the finder's credit.
  A share-chain tip change invalidates declared jobs. The pool binary (\<open>sv2-p2pool-pool\<close>) chooses the
  share-chain backend (in-process store, or a daemon reached through \<open>sv2-p2pool-ipc\<close>), demultiplexes
  the template-provider stream, and runs the background tasks and the metrics endpoint. The test
  environment (\<open>sv2-p2pool-testenv\<close>) starts a bitcoind, the pool and its clients as child processes,
  writes their configuration files, waits until they are ready and scrapes their metrics.

  \<^bold>\<open>Theories and what they model.\<close>
  \<^item> \<open>Prelude\<close>: results with a panic value, stateful results, the keyed store behind every \<open>DashMap\<close>
    (locale \<open>keyed_store\<close>, interpreted as \<open>dm\<close>), reachability (\<open>reach\<close>), the locales \<open>invariant_system\<close>
    and \<open>refinement\<close>. \<open>Text_Utils\<close>: decimal numbers, lines, splitting, paths.
  \<^item> \<open>Bitcoin_Types\<close>: transactions, headers, blocks; \<open>externals\<close> collects the third-party functions
    (SHA-256d, consensus coding, txids, NFKC, hash-map iteration order) with their documented laws, and
    \<open>sample_ext\<close> is an instance that satisfies them.
  \<^item> \<open>Coinbase\<close> (\<open>coinbase.rs\<close> and the Merkle-root loop of \<open>block.rs\<close>), \<open>Job_Types\<close> (\<open>DeclaredJob\<close>,
    \<open>TipMetadata\<close>, the messages), \<open>Block_Recon\<close> (\<open>block.rs\<close>).
  \<^item> \<open>Metrics\<close> (\<open>metrics.rs\<close>), \<open>Recent_Solutions\<close> (\<open>recent_solutions.rs\<close>, locale \<open>credit_buffer\<close>),
    \<open>Reorg_Detector\<close> (\<open>reorg_detector.rs\<close>).
  \<^item> \<open>Ipc_Client\<close> (\<open>sv2-p2pool-ipc/src/lib.rs\<close>), \<open>Share_Chain_Reader\<close> (the trait and its test double,
    locale \<open>share_reader\<close>), \<open>Chain_Walk\<close> (the ancestry walk of a reorg, proved once for every reader),
    \<open>Chain_Backends\<close> (\<open>share_chain.rs\<close>: both backends, the IPC actor's handshake), \<open>Ipc_Actor\<close> (the running
    actor: callers, request loop, spawned tasks, a changing daemon, watchdog, as a step relation).
  \<^item> \<open>Tdp\<close> and \<open>Tdp_System\<close> (\<open>tdp.rs\<close>: the bridge, one call against a demux task, and \<open>tdp_step\<close>, any
    number of callers interleaved with deliveries and timeouts).
  \<^item> \<open>Tdp_Pipeline\<close> (the template path as \<open>Pool::start\<close> wires it: callers, merge task, provider and tee task
    on shared channels), \<open>Engine_Pipeline\<close> (the handlers that fetch transactions, with their suspension points
    run by that system) and \<open>Reorg_Pipeline\<close> (the path of a tip change: IPC snapshot or in-process store,
    detector, bounded broadcast, invalidator, cache). \<open>Tip_Subscriptions\<close>: the tip channels of all readers
    (locale \<open>tip_feed\<close>).
  \<^item> \<open>Engine_State\<close> (\<open>lib.rs\<close>: the engine record, the declared-jobs cache), \<open>Engine_Declare\<close>,
    \<open>Engine_Scmj\<close>, \<open>Engine_Push\<close>, \<open>Engine_Token\<close>, \<open>Engine_Reorg\<close> (\<open>engine_impl.rs\<close> handler by handler,
    and the background tasks of \<open>lib.rs\<close>), \<open>Engine_System\<close> (all of them as one step relation),
    \<open>Engine_Spec\<close> (an abstract registry of jobs by token, and that the engine refines it).
  \<^item> \<open>Tdp_Demux\<close> (\<open>tdp_demux.rs\<close>), \<open>Metrics_Endpoint\<close> (one connection of \<open>metrics_endpoint.rs\<close>),
    \<open>Pool_Runtime\<close> (engine assembly, background tasks and life cycle of \<open>pool.rs\<close>, the bootstrap of
    \<open>share_chain.rs\<close>), \<open>Pool_Start\<close> (the whole of \<open>Pool::start\<close>, the endpoint's accept loop, \<open>builder.rs\<close>,
    \<open>args.rs\<close>, \<open>main.rs\<close>).
  \<^item> The test environment: \<open>Testenv_Os\<close> (what the spawners see of the operating system; locale \<open>frame\<close>),
    \<open>Testenv_Process\<close> (what they share; locales \<open>polling\<close>, \<open>readiness\<close> and \<open>spawner\<close>), \<open>Testenv_Toml\<close> (the
    configuration text and a reader for it), \<open>Testenv_P2pool\<close> (\<open>p2poolv2d.rs\<close>), \<open>Testenv_Sv2\<close> and
    \<open>Testenv_Scrape\<close> (\<open>sv2_p2pool_d.rs\<close>), \<open>Testenv_Miners\<close> (\<open>jdcd.rs\<close>, \<open>translator_sv2d.rs\<close>,
    \<open>mujinad.rs\<close>), \<open>Testenv_Stack\<close> (properties of all five spawners), \<open>Testenv_Harness\<close> (\<open>lib.rs\<close>).
  \<^item> The test modules of the sources, each test a definition under its own name that is shown to hold, and the
    property-based tests as theorems over every input: \<open>Detector_Tests\<close>, \<open>Solutions_Tests\<close>, \<open>Cache_Tests\<close>
    (\<open>lib.rs\<close> of the engine), \<open>Component_Tests\<close> (\<open>block.rs\<close>, \<open>coinbase.rs\<close>, \<open>metrics.rs\<close>,
    \<open>share_chain_reader.rs\<close>, \<open>tdp.rs\<close>), \<open>Engine_Fixtures\<close>, \<open>Engine_Tests\<close> and \<open>Engine_Flow_Tests\<close>
    (\<open>engine_impl.rs\<close>), \<open>Pool_Tests\<close> (\<open>tdp_demux.rs\<close>, \<open>builder.rs\<close>, \<open>pool.rs\<close>, \<open>metrics_endpoint.rs\<close>),
    \<open>Chain_Tests\<close> (\<open>share_chain.rs\<close> and the IPC client), \<open>Service_Tests\<close> (the files and sockets of these
    tests, the client's template and solution calls, the tests of the test environment). They tie the model to what the authors check.

  \<^bold>\<open>Modelling conventions.\<close> A record is a struct, a handler is a function from the engine to a reply and
  the engine after it; \<open>Panicked\<close> is a panic of the handler task. Counters are 64-bit words, gauges
  signed 64-bit words, wire integers have their width, times and durations are natural numbers of
  nanoseconds that come as arguments. Handlers run on a multi-threaded runtime: wherever another task
  can run in the middle of a handler (at an \<open>await\<close>, between two accesses to a shared map) the model
  applies \<open>env n\<close>, an arbitrary function on the engine. \<open>quiet\<close> changes nothing, \<open>tdp_only\<close> allows only
  changes of the bridge, \<open>spares_jobs\<close> and \<open>spares_metrics\<close> everything but the job maps and the metrics,
  \<open>deliver_env\<close> is a template provider that answers, and \<open>rely\<close> is interference
  that keeps the engine's invariant. A few pairs of accesses are one step of the model: the two map
  operations of \<open>drop_token_payout\<close>, the \<open>len\<close> and \<open>clear\<close> of \<open>invalidate_all\<close> (so the number of dropped jobs
  it reports is exact), and, in the IPC actor, the daemon's answer and the reply of a spawned task
  (\<open>reply_task\<close>; a round trip that hangs is a task whose step is never taken, and liveness there says that
  the step is always possible, not that the daemon takes it). Aborting a task, or dropping its handle,
  follows tokio: the abort ends that task only, and a dropped \<open>JoinHandle\<close> detaches its task. In the test environment every answer of the operating system is a
  function of the running number of the call, so a theorem holds for every behaviour of the system; a
  value with a destructor releases what it owns on every early return and every panic, and the removal
  of a temporary directory may leave files behind. \<open>Instant\<close> plus a timeout panics when the sum has more
  than \<open>i64::MAX\<close> seconds (\<open>deadline_after\<close>). Logging is left out. Sets and maps of the source that only serve
  membership are lists or association lists with the store laws.

  \<^bold>\<open>What is shown.\<close>
  \<^item> Merkle code: the level loop computes the root of the reference tree, and the branch compared in
    \<open>SetCustomMiningJob\<close> leads to the root put into the header. A block that is assembled commits to its
    own transactions, and they are the declared ones.
  \<^item> Handlers: exact success conditions and effects of \<open>DeclareMiningJob\<close>, \<open>SetCustomMiningJob\<close> (with
    the order of its error codes, one-shot use of a token, and freedom from panics), \<open>PushSolution\<close>
    (what is submitted, what is credited, what is counted) and token allocation; round trips from
    declaration to custom job and from declaration to submitted block.
  \<^item> Reorgs: which jobs survive exactly; the detector emits the events of its reference model; a tip change
    that a poll sees leaves no older job in the cache once the invalidator has caught up, which takes it at
    most 257 receives however far it lagged.
  \<^item> Concurrency: along the whole template path a call gets the provider's answer for its own template, in
    order and with nothing lost while the channels are up, and every waiting caller is served; over that
    path a found block reaches bitcoind and its finder is credited when the provider answers within the
    timeout, and bitcoind's verdict on a custom job decides whenever the transactions arrived and decode,
    whatever other callers do meanwhile (a timeout, a refusal and undecodable bytes waive it); in every
    reachable state of the engine, under interference at every suspension point, the invariant holds.
  \<^item> Refinement: every run of the engine whose request ids do not collide, and in which the job maps are
    left alone while a handler is suspended, is a run of the abstract job registry.
  \<^item> Backends: the two share-chain backends give the same values and fail on the same calls; the IPC handshake and its errors;
    concurrent calls on the IPC actor give what the sequential reader gives, and none waits for ever on a
    dead actor; a tip subscriber gets every pushed tip in order or is told how many it missed, and one of the
    in-process backend gets nothing.
  \<^item> Pool: when \<open>start\<close> succeeds, what its shutdown stops and what an early return leaves running; the
    binary runs the pool it was configured with.
  \<^item> Test environment: every spawner returns, within a bound after its timeout, and leaves no process
    behind when it fails or is dropped, nor a file if the system removes what it is told to; the daemons of a stack are configured to find each other;
    what a client scrapes is what the endpoint encoded.
  \<^item> Faults that the code has, stated as theorems: a custom job's solution is dropped, request ids
    collide, the bridge's timeout clean-up race, the lost queue of the merge, detached watcher tasks, a
    shutdown that hangs until \<open>start\<close> is called again, two allocations that bind one user, a lost signal of the IPC actor's death, a dangling payout index entry, block hashes
    returned in the wrong byte order (so that the harness's own smoke test cannot pass), a directory that a failed start leaves behind.

  \<^bold>\<open>Bounds.\<close> No definition uses fuel. Loops over a channel or an interval are functions of the sequence of
  what they receive; the ancestry walk is bounded by \<open>reorg_ancestry_depth\<close> (100) as in the source; the
  Merkle loops terminate because a level with more than one node has fewer nodes above it. The polling
  loops of the test environment and the wait of a destructor are partial functions with \<open>None\<close> for not
  returning; that they return is proved, since every pause lets the clock advance by at least 50 ms.

  \<^bold>\<open>Not modelled.\<close> The internals of tokio, DashMap, Cap-n-Proto, Prometheus, RocksDB, rust-bitcoin, clap,
  \<open>corepc-node\<close> and the services of \<open>sv2-apps\<close>: their answers are arguments. Sockets below the level of
  connect, read and write. Memory: an allocation that fails aborts the process, so the zero-fill of
  \<open>reconstruct_coinbase\<close> for a huge but representable length has no branch of its own (the capacity panic
  beyond \<open>isize::MAX\<close> has one). Task scheduling is any interleaving at the marked points; a write error while
  answering a metrics request is not distinguished. Module declarations, re-exports and plain accessors
  have no definitions, nor have the tests that only exercise third-party code (that an aborted task is
  cancelled), compile-time checks, the smoke tests that only start a binary and the tests under \<open>tests\<close>,
  which need the running programs.
\<close>

section \<open>Properties across components\<close>

text \<open>
  C1: in every state the engine can reach, with other tasks interfering at every suspension point,
  each block waiting for submission has a coinbase and a header whose Merkle root is that of its own
  transactions, every cached job reassembles to a coinbase with one input, and the maps are
  well-formed.
\<close>

theorem engine_reachable_safe:
  assumes "reach engine_start (engine_step X hook) e"
  shows "list_all (block_commits X) (submit_queue e) \<and> jobs_ok X e \<and> rs_wf (recent_sols e) \<and>
    tdp_ok (tdp_state e)"
  using engine.inv_reach [OF assms] by (simp add: engine_inv_def)

lemma rely_quiet: "rely X quiet"
  by (simp add: rely_def)

lemma rely_deliver_env: "rely X (deliver_env t r)"
  by (auto simp: rely_def deliver_env_def intro: engine_inv_put tdp_ok_deliver engine_inv_tdp)

lemma declare_success_state:
  assumes "handle_declare_mining_job X quiet dmj pmts e = (Reply DeclareSuccess, e')"
  obtains token sct where "decode_token dmj = Some token"
    and "e' = bump (declare_counter DeclareSuccess) (insert_token token (dmj_request_id dmj)
      (insert_job (dmj_request_id dmj) (declared_snapshot X dmj token (dmj_wtxid_list dmj)
        (parse_missing X pmts) (capture_tip e) sct) e))"
proof -
  obtain t ws where ok: "declare_checks X dmj pmts = Ok (t, ws)"
    using assms declare_checks_not_success [of X dmj pmts]
    by (auto simp: handle_declare_mining_job_def declare_return_def split: result.splits)
  then have "decode_token dmj = Some t" "ws = dmj_wtxid_list dmj" by (auto simp: declare_checks_Ok_iff)
  moreover from this ok assms obtain sct where "capture_share_chain_tip e = Ok sct"
    by (cases "capture_share_chain_tip e") (auto simp: handle_declare_mining_job_def Let_def)
  ultimately show thesis
    using ok assms
    by (intro that [of t sct]) (auto simp: handle_declare_mining_job_def declare_return_def Let_def)
qed

lemma declare_push_queue:
  assumes "iter_laws X" and "handles e \<noteq> None" and "tdp e = Some h" and "current_tip h = Some tip"
    and "current_template_id h = Some tid"
    and "dm_get (pending_requests h) tid = None" and "\<not> tx_request_closed h"
    and "handle_declare_mining_job X quiet dmj pmts e = (Reply DeclareSuccess, e')"
    and "\<And>k job. k \<noteq> dmj_request_id dmj \<Longrightarrow> jobs_get (declared_jobs e) k = Some job \<Longrightarrow>
        \<not> job_matches (ps_prev_hash ps) (ps_nbits ps) (ps_version ps) job"
    and "ps_prev_hash ps = tip_prev_hash tip" and "ps_nbits ps = tip_nbits tip"
    and "ps_version ps = dmj_version dmj"
    and "decode_response X tid r = Ok (parse_missing X pmts)"
    and "reconstruct_coinbase_with_extranonce X (dmj_coinbase_tx_prefix dmj) (ps_extranonce ps)
           (dmj_coinbase_tx_suffix dmj) = Ok cb"
  shows "\<exists>blk. submit_queue (snd (handle_push_solution X (deliver_env tid r) now ps e')) = submit_queue e @ [blk] \<and>
    txdata blk = cb # parse_missing X pmts \<and>
    blk_header blk = solution_header ps (tip_prev_hash tip) (merkle_root (blk_header blk)) \<and>
    block_commits X blk"
proof -
  obtain token sct where e': "e' = bump (declare_counter DeclareSuccess) (insert_token token (dmj_request_id dmj)
      (insert_job (dmj_request_id dmj) (declared_snapshot X dmj token (dmj_wtxid_list dmj)
        (parse_missing X pmts) (capture_tip e) sct) e))"
    using assms(8) by (rule declare_success_state)
  let ?job = "declared_snapshot X dmj token (dmj_wtxid_list dmj) (parse_missing X pmts) (capture_tip e) sct"
  have cap: "capture_tip e = (tip, Some tid)" using assms(3-5) by (simp add: capture_tip_def)
  have get: "jobs_get (declared_jobs e') k =
      (if k = dmj_request_id dmj then Some ?job else jobs_get (declared_jobs e) k)" for k
    by (simp add: e' jobs_get_def)
  have len: "length (ps_prev_hash ps) = 32" using capture_tip_width [of e] assms(10) cap by simp
  have m: "job_matches (ps_prev_hash ps) (ps_nbits ps) (ps_version ps) ?job"
    using assms(10-12) cap by (simp add: job_matches_def declared_snapshot_def)
  have find: "find_by_solution X (declared_jobs e') (ps_prev_hash ps) (ps_nbits ps) (ps_version ps) =
      Some (dmj_request_id dmj)"
  proof (cases "find_by_solution X (declared_jobs e') (ps_prev_hash ps) (ps_nbits ps) (ps_version ps)")
    case None
    then show ?thesis
      using find_by_solution_None [OF None assms(1), of "dmj_request_id dmj" ?job] get m
      by (simp add: jobs_get_def)
  next
    case (Some k)
    then obtain job where "jobs_get (declared_jobs e') k = Some job"
      "job_matches (ps_prev_hash ps) (ps_nbits ps) (ps_version ps) job"
      using find_by_solution_Some by (metis jobs_get_def)
    with get assms(9) Some show ?thesis by (auto split: if_splits)
  qed
  obtain blk where blk: "reconstruct_block X ?job ps (parse_missing X pmts) = Ok blk"
    and shape: "txdata blk = cb # parse_missing X pmts"
      "blk_header blk = solution_header ps (tip_prev_hash tip) (merkle_root (blk_header blk))"
    using assms(10,14) len
    by (simp add: reconstruct_block_def declared_snapshot_def rbind_iffs Let_def to_array32_def
        check_bodies_def solution_header_def)
  have "submit_queue (snd (handle_push_solution X (deliver_env tid r) now ps e')) = submit_queue e' @ [blk]"
    using assms(2,3) get cap
    by (intro push_queue_delivered(2) [OF _ _ len find _ _ assms(6,7,13) blk])
      (simp_all add: e' declared_snapshot_def)
  with shape reconstruct_commits [OF blk] show ?thesis by (auto simp: e')
qed

text \<open>
  C5: from declaration to block, end to end: when the template-provider snapshots are in, a declared
  job is accepted, no other cached job matches the solution, the provider answers the request for the
  captured template with the declared transactions and the coinbase reassembles with the solution's
  extranonce, then \<open>PushSolution\<close> queues exactly the block with that coinbase, the declared
  transactions and the solution's header fields.
\<close>

theorem declare_push_roundtrip:
  assumes "iter_laws X" and "handles e \<noteq> None" and "tdp e = Some h" and "current_tip h = Some tip"
    and "current_template_id h = Some tid"
    and "dm_get (pending_requests h) tid = None" and "\<not> tx_request_closed h"
    and "handle_declare_mining_job X quiet dmj pmts e = (Reply DeclareSuccess, e')"
    and "\<And>k job. k \<noteq> dmj_request_id dmj \<Longrightarrow> jobs_get (declared_jobs e) k = Some job \<Longrightarrow>
        \<not> job_matches (ps_prev_hash ps) (ps_nbits ps) (ps_version ps) job"
    and "ps_prev_hash ps = tip_prev_hash tip" and "ps_nbits ps = tip_nbits tip"
    and "ps_version ps = dmj_version dmj"
    and "decode_response X tid r = Ok (parse_missing X pmts)"
    and "reconstruct_coinbase_with_extranonce X (dmj_coinbase_tx_prefix dmj) (ps_extranonce ps)
           (dmj_coinbase_tx_suffix dmj) = Ok cb"
  shows "\<exists>blk. submit_queue (snd (handle_push_solution X (deliver_env tid r) now ps e')) = submit_queue e @ [blk] \<and>
    txdata blk = cb # parse_missing X pmts \<and>
    blk_header blk = solution_header ps (tip_prev_hash tip) (merkle_root (blk_header blk)) \<and>
    block_commits X blk"
  using declare_push_queue [OF assms] .

text \<open>
  C25: declared jobs are cached under the client's request id alone, and the ids of different clients
  may coincide: after two accepted declarations with the same request id and different tokens, a
  \<open>SetCustomMiningJob\<close> with the first token consumes the second client's job, and whatever the second
  client then sends with its own token is answered with an invalid token.
\<close>

theorem request_id_collision:
  assumes "handle_declare_mining_job X quiet dmj1 pmts1 e = (Reply DeclareSuccess, e1)"
    and "handle_declare_mining_job X quiet dmj2 pmts2 e1 = (Reply DeclareSuccess, e2)"
    and "dmj_request_id dmj1 = dmj_request_id dmj2"
    and "decode_token dmj1 = Some t1" and "decode_token dmj2 = Some t2" and "t1 \<noteq> t2"
  shows "(\<exists>job. jobs_get (declared_jobs e2) (dmj_request_id dmj1) = Some job \<and> job_allocated_token job = Some t2) \<and>
    fst (handle_set_custom_mining_job X quiet scmj2 t2
      (snd (handle_set_custom_mining_job X quiet scmj1 t1 e2))) =
      Reply (ScmjError ScmjInvalidMiningJobToken)"
proof -
  obtain token1 sct1 where t1: "decode_token dmj1 = Some token1"
    and e1: "e1 = bump (declare_counter DeclareSuccess) (insert_token token1 (dmj_request_id dmj1)
      (insert_job (dmj_request_id dmj1) (declared_snapshot X dmj1 token1 (dmj_wtxid_list dmj1)
        (parse_missing X pmts1) (capture_tip e) sct1) e))"
    using assms(1) by (rule declare_success_state)
  obtain token2 sct2 where t2: "decode_token dmj2 = Some token2"
    and e2: "e2 = bump (declare_counter DeclareSuccess) (insert_token token2 (dmj_request_id dmj2)
      (insert_job (dmj_request_id dmj2) (declared_snapshot X dmj2 token2 (dmj_wtxid_list dmj2)
        (parse_missing X pmts2) (capture_tip e1) sct2) e1))"
    using assms(2) by (rule declare_success_state)
  let ?k = "dmj_request_id dmj2"
  let ?e3 = "snd (handle_set_custom_mining_job X quiet scmj1 t1 e2)"
  have tok: "dm_get (allocated_tokens e2) t1 = Some ?k" "dm_get (allocated_tokens e2) t2 = Some ?k"
    using assms(3-6) t1 t2 by (simp_all add: e2 e1)
  have "dm_get (allocated_tokens ?e3) t2 = Some ?k" "dm_get (declared_jobs ?e3) ?k = None"
    using tok assms(6) by (simp_all add: scmj_state [OF tdp_only_quiet])
  then have "fst (handle_set_custom_mining_job X quiet scmj2 t2 ?e3) = Reply (ScmjError ScmjInvalidMiningJobToken)"
    by (simp add: handle_set_custom_mining_job_def scmj_consume_def Let_def jobs_remove_def scmj_return_def)
  moreover have "jobs_get (declared_jobs e2) ?k =
      Some (declared_snapshot X dmj2 token2 (dmj_wtxid_list dmj2) (parse_missing X pmts2) (capture_tip e1) sct2)"
    by (simp add: e2 jobs_get_def)
  ultimately show ?thesis using assms(3,5) t2 by (simp add: declared_snapshot_def)
qed

section \<open>A run of the engine\<close>

definition wired_engine :: engine where
  "wired_engine = (engine_new Regtest)\<lparr>handles := Some sample_handles, tdp := Some tdp_new, metrics := None\<rparr>"

definition sample_prev_hash :: set_new_prev_hash where
  "sample_prev_hash = \<lparr>snph_template_id = 4, snph_prev_hash = replicate 32 5, snph_header_timestamp = 1,
     snph_n_bits = 17\<rparr>"

definition primed_bridge :: tdp_handle where
  "primed_bridge = record_new_template \<lparr>nt_template_id = 4\<rparr> (record_set_new_prev_hash sample_prev_hash tdp_new)"

definition primed_engine :: engine where
  "primed_engine = put_tdp primed_bridge wired_engine"

definition declared_engine :: engine where
  "declared_engine = snd (handle_declare_mining_job sample_ext quiet sample_dmj (Some sample_pmts) primed_engine)"

lemma primed_simps:
  "handles primed_engine = Some sample_handles" "tdp primed_engine = Some primed_bridge"
  "current_tip primed_bridge = Some \<lparr>tip_prev_hash = replicate 32 5, tip_nbits = 17, tip_min_ntime = 1\<rparr>"
  "current_template_id primed_bridge = Some 4" "dm_get (pending_requests primed_bridge) t = None"
  "\<not> tx_request_closed primed_bridge" "declared_jobs primed_engine = dm_empty" "submit_queue primed_engine = []"
  by (simp_all add: primed_engine_def primed_bridge_def wired_engine_def engine_new_def current_tip_def
      sample_prev_hash_def current_template_id_def record_new_template_def record_set_new_prev_hash_def
      tdp_new_def to_array32_def)

lemma declared_run:
  "handle_declare_mining_job sample_ext quiet sample_dmj (Some sample_pmts) primed_engine =
     (Reply DeclareSuccess, declared_engine)"
  by (simp add: declared_engine_def handle_declare_mining_job_def sample_declare_checks
      capture_share_chain_tip_def primed_simps sample_handles_def mock_reader_def Let_def declare_return_def)

lemma sample_no_missing: "parse_missing sample_ext (Some sample_pmts) = []"
  by (simp add: parse_missing_def sample_pmts_def map_filter_simps sample_decode_tx_def compact_size_decode_def)

lemma sample_run:
  "ps_prev_hash sample_solution = replicate 32 5" "ps_nbits sample_solution = 17"
  "ps_version sample_solution = dmj_version sample_dmj"
  "decode_response sample_ext 4 (TxSuccess []) = Ok (parse_missing sample_ext (Some sample_pmts))"
  "reconstruct_coinbase_with_extranonce sample_ext (dmj_coinbase_tx_prefix sample_dmj)
     (ps_extranonce sample_solution) (dmj_coinbase_tx_suffix sample_dmj) = Ok (sample_coinbase [7, 8, 9])"
  by (simp_all add: sample_solution_def sample_dmj_def sample_no_missing decode_response_def
      sample_coinbase_decodes)

definition pushed_engine :: engine where
  "pushed_engine =
     snd (handle_push_solution sample_ext (deliver_env 4 (TxSuccess [])) 100 sample_solution declared_engine)"

theorem declare_push_roundtrip_witness:
  "\<exists>blk. submit_queue pushed_engine = [blk] \<and> txdata blk = [sample_coinbase [7, 8, 9]]"
  using declare_push_roundtrip [OF sample_ext_laws(4) _ primed_simps(2,3,4,5,6) declared_run _
      _ _ sample_run(3,4,5), of 100]
  by (auto simp: primed_simps sample_no_missing sample_run pushed_engine_def jobs_get_def)

lemma pushed_queue: "submit_queue pushed_engine \<noteq> []"
  using declare_push_queue [OF sample_ext_laws(4) _ primed_simps(2,3,4,5,6) declared_run _
      _ _ sample_run(3,4,5), of 100]
  by (auto simp: primed_simps sample_no_missing sample_run pushed_engine_def jobs_get_def)

lemma pushed_reachable: "reach engine_start (engine_step X None) pushed_engine" if "X = sample_ext"
proof -
  have "engine_start wired_engine" unfolding engine_start_def wired_engine_def by blast
  then have "reach engine_start (engine_step X None) wired_engine" by (rule reach_start)
  moreover have "engine_step X None wired_engine (put_tdp (record_set_new_prev_hash sample_prev_hash tdp_new) wired_engine)"
    by (rule engine_step.prev_hash) (simp add: wired_engine_def)
  ultimately have "reach engine_start (engine_step X None)
      (put_tdp (record_set_new_prev_hash sample_prev_hash tdp_new) wired_engine)" by (rule reach_step)
  moreover have "engine_step X None (put_tdp (record_set_new_prev_hash sample_prev_hash tdp_new) wired_engine) primed_engine"
    using engine_step.new_template [of "put_tdp (record_set_new_prev_hash sample_prev_hash tdp_new) wired_engine"
        "record_set_new_prev_hash sample_prev_hash tdp_new" X None "\<lparr>nt_template_id = 4\<rparr>"]
    by (simp add: primed_engine_def primed_bridge_def put_tdp_def)
  ultimately have "reach engine_start (engine_step X None) primed_engine" by (rule reach_step)
  moreover have "engine_step X None primed_engine declared_engine"
    unfolding declared_engine_def that by (rule engine_step.declare_job [OF rely_quiet])
  ultimately have "reach engine_start (engine_step X None) declared_engine" by (rule reach_step)
  moreover have "engine_step X None declared_engine pushed_engine"
    unfolding pushed_engine_def that by (rule engine_step.push_solution [OF rely_deliver_env])
  ultimately show ?thesis by (rule reach_step)
qed

theorem engine_reachable_safe_witness:
  "reach engine_start (engine_step sample_ext None) pushed_engine \<and> submit_queue pushed_engine \<noteq> [] \<and>
   list_all (block_commits sample_ext) (submit_queue pushed_engine)"
  using engine_reachable_safe [OF pushed_reachable [OF refl]] pushed_reachable [OF refl] pushed_queue by blast

theorem request_id_collision_witness:
  "\<exists>e1 e2. handle_declare_mining_job sample_ext quiet sample_dmj (Some sample_pmts) primed_engine =
       (Reply DeclareSuccess, e1) \<and>
     handle_declare_mining_job sample_ext quiet (sample_dmj\<lparr>dmj_mining_job_token := [43, 0, 0, 0, 0, 0, 0, 0]\<rparr>)
       (Some sample_pmts) e1 = (Reply DeclareSuccess, e2) \<and>
     fst (handle_set_custom_mining_job sample_ext quiet sample_scmj 43
       (snd (handle_set_custom_mining_job sample_ext quiet sample_scmj 42 e2))) =
       Reply (ScmjError ScmjInvalidMiningJobToken)"
proof -
  let ?d = "sample_dmj\<lparr>dmj_mining_job_token := [43, 0, 0, 0, 0, 0, 0, 0]\<rparr>"
  have tok: "decode_token sample_dmj = Some 42" "decode_token ?d = Some 43"
    by (simp_all add: decode_token_def sample_dmj_def)
  have chk: "declare_checks sample_ext ?d (Some sample_pmts) = Ok (43, [replicate 32 1])"
    using sample_declare_checks tok(2) by (simp add: declare_checks_Ok_iff sample_dmj_def)
  have "handles declared_engine = Some sample_handles"
    by (rule declare_success_state [OF declared_run], erule ssubst) (simp add: primed_simps(1))
  then obtain e2 where run2: "handle_declare_mining_job sample_ext quiet ?d (Some sample_pmts) declared_engine =
      (Reply DeclareSuccess, e2)"
    by (simp add: handle_declare_mining_job_def chk capture_share_chain_tip_def sample_handles_def
        mock_reader_def Let_def declare_return_def)
  show ?thesis
    using request_id_collision [OF declared_run run2 _ tok, of sample_scmj sample_scmj] declared_run run2 by auto
qed

end
